theory Spec2Isabelle
  imports Main "HOL-Library.Word"
begin

unbundle bit_operations_syntax

section \<open>The interface to the operating system\<close>

text \<open>
  \<^verbatim>\<open>scripts/link_fallback.c\<close> is a preloaded shim over \<^verbatim>\<open>link\<close>, \<^verbatim>\<open>linkat\<close>,
  \<^verbatim>\<open>rename\<close>, \<^verbatim>\<open>renameat\<close> and \<^verbatim>\<open>renameat2\<close>. Its code is a sequence of system
  calls on the per-thread \<^verbatim>\<open>errno\<close> and on kernel state. The calls themselves belong to
  libc and the kernel, so the shim is embedded over a record of them: each call takes
  the process state and returns its C result with the new state. A C string argument is
  \<open>None\<close> for the null pointer. The C \<^verbatim>\<open>int\<close>, \<^verbatim>\<open>ssize_t\<close> and \<^verbatim>\<open>off_t\<close> values
  are \<open>int\<close>: the only arithmetic of the source is \<^verbatim>\<open>remaining -= sent\<close> with
  \<^verbatim>\<open>remaining > 0\<close> and \<^verbatim>\<open>sent >= 0\<close>, which cannot leave 64 bits. Flag and mode
  arguments are 32-bit words.
\<close>

type_synonym cstr = "string option"
type_synonym addr = nat

record stat =
  st_size :: int
  st_mode :: "32 word"

record 'k proc =
  errno :: int
  kern :: 'k

record 'k os =
  sys_open :: "cstr \<Rightarrow> 32 word \<Rightarrow> 32 word \<Rightarrow> 'k proc \<Rightarrow> int \<times> 'k proc"
  sys_openat :: "int \<Rightarrow> cstr \<Rightarrow> 32 word \<Rightarrow> 32 word \<Rightarrow> 'k proc \<Rightarrow> int \<times> 'k proc"
  sys_fstat :: "int \<Rightarrow> 'k proc \<Rightarrow> (int \<times> stat) \<times> 'k proc"
  sys_close :: "int \<Rightarrow> 'k proc \<Rightarrow> int \<times> 'k proc"
  sys_dup :: "int \<Rightarrow> 'k proc \<Rightarrow> int \<times> 'k proc"
  sys_unlink :: "cstr \<Rightarrow> 'k proc \<Rightarrow> int \<times> 'k proc"
  sys_unlinkat :: "int \<Rightarrow> cstr \<Rightarrow> 32 word \<Rightarrow> 'k proc \<Rightarrow> int \<times> 'k proc"
  sys_sendfile :: "int \<Rightarrow> int \<Rightarrow> int \<Rightarrow> int \<Rightarrow> 'k proc \<Rightarrow> (int \<times> int) \<times> 'k proc"
  dlsym_next :: "string \<Rightarrow> 'k proc \<Rightarrow> addr \<times> 'k proc"
  call_pp :: "addr \<Rightarrow> cstr \<Rightarrow> cstr \<Rightarrow> 'k proc \<Rightarrow> int \<times> 'k proc"
  call_at :: "addr \<Rightarrow> int \<Rightarrow> cstr \<Rightarrow> int \<Rightarrow> cstr \<Rightarrow> 'k proc \<Rightarrow> int \<times> 'k proc"
  call_atf :: "addr \<Rightarrow> int \<Rightarrow> cstr \<Rightarrow> int \<Rightarrow> cstr \<Rightarrow> 32 word \<Rightarrow> 'k proc \<Rightarrow> int \<times> 'k proc"

text \<open>
  \<open>sys_sendfile os out_fd in_fd offset count\<close> returns the number of bytes sent and the
  offset cursor as the kernel leaves it. \<open>dlsym_next\<close> is \<^verbatim>\<open>dlsym(RTLD_NEXT, name)\<close>;
  address 0 is the null pointer. \<open>call_pp\<close>, \<open>call_at\<close> and \<open>call_atf\<close> run the
  code at a function address, one for each of the three signatures of the source.
\<close>

text \<open>The constants of the Linux headers (x86-64) that the source names.\<close>

definition EXDEV :: int where "EXDEV = 18"
definition ENOENT :: int where "ENOENT = 2"
definition ENOSYS :: int where "ENOSYS = 38"
definition EEXIST :: int where "EEXIST = 17"
definition EBADF :: int where "EBADF = 9"
definition EFAULT :: int where "EFAULT = 14"

definition O_RDONLY :: "32 word" where "O_RDONLY = 0"
definition O_WRONLY :: "32 word" where "O_WRONLY = 1"
definition O_CREAT :: "32 word" where "O_CREAT = 64"
definition O_EXCL :: "32 word" where "O_EXCL = 128"
definition O_TRUNC :: "32 word" where "O_TRUNC = 512"
definition O_CLOEXEC :: "32 word" where "O_CLOEXEC = 524288"
definition AT_EMPTY_PATH :: "32 word" where "AT_EMPTY_PATH = 4096"
definition AT_FDCWD :: int where "AT_FDCWD = - 100"

section \<open>The byte-range copier\<close>

text \<open>
  The \<^verbatim>\<open>while (remaining > 0)\<close> loop of \<^verbatim>\<open>copy_fd\<close>. Nothing bounds the number of
  its iterations, so it is a partial function: \<open>None\<close> is a loop that never exits.
\<close>

partial_function (option) copy_loop ::
  "'k os \<Rightarrow> int \<Rightarrow> int \<Rightarrow> int \<Rightarrow> int \<Rightarrow> 'k proc \<Rightarrow> (int \<times> 'k proc) option" where
  "copy_loop os src_fd dst_fd offset remaining s =
     (if remaining > 0 then
        (case sys_sendfile os dst_fd src_fd offset remaining s of
           ((sent, offset'), s') \<Rightarrow>
             if sent < 0 then Some (- 1, s')
             else copy_loop os src_fd dst_fd offset' (remaining - sent) s')
      else Some (0, s))"

declare copy_loop.simps [code]

definition copy_fd :: "'k os \<Rightarrow> int \<Rightarrow> int \<Rightarrow> 'k proc \<Rightarrow> (int \<times> 'k proc) option" where
  "copy_fd os src_fd dst_fd s =
     (case sys_fstat os src_fd s of
        ((r, st), s1) \<Rightarrow>
          if r \<noteq> 0 then Some (- 1, s1)
          else copy_loop os src_fd dst_fd 0 (st_size st) s1)"

section \<open>The fallback engine\<close>

text \<open>
  \<open>finish_copy\<close> is the tail shared, statement for statement, by the four copying
  functions of the source: run \<^verbatim>\<open>copy_fd\<close>, save \<^verbatim>\<open>errno\<close>, close both descriptors,
  and on a failed copy restore \<^verbatim>\<open>errno\<close> and return -1. \<open>close_saving\<close> is the
  \<^verbatim>\<open>saved = errno; close(src_fd); errno = saved; return -1\<close> block of the early exits.
\<close>

definition close_saving :: "'k os \<Rightarrow> int \<Rightarrow> 'k proc \<Rightarrow> (int \<times> 'k proc) option" where
  "close_saving os src_fd s =
     (let saved = errno s;
          (_, s1) = sys_close os src_fd s
      in Some (- 1, s1\<lparr>errno := saved\<rparr>))"

definition finish_copy :: "'k os \<Rightarrow> int \<Rightarrow> int \<Rightarrow> 'k proc \<Rightarrow> (int \<times> 'k proc) option" where
  "finish_copy os src_fd dst_fd s =
     (case copy_fd os src_fd dst_fd s of
        None \<Rightarrow> None
      | Some (result, s1) \<Rightarrow>
          (let saved = errno s1;
               (_, s2) = sys_close os src_fd s1;
               (_, s3) = sys_close os dst_fd s2
           in if result \<noteq> 0 then Some (- 1, s3\<lparr>errno := saved\<rparr>) else Some (0, s3)))"

definition fallback_copy_from_path :: "'k os \<Rightarrow> cstr \<Rightarrow> cstr \<Rightarrow> 'k proc \<Rightarrow> (int \<times> 'k proc) option" where
  "fallback_copy_from_path os oldpath newpath s =
     (case sys_open os oldpath (O_RDONLY OR O_CLOEXEC) 0 s of
        (src_fd, s1) \<Rightarrow>
          if src_fd < 0 then Some (- 1, s1)
          else (case sys_fstat os src_fd s1 of
            ((r, st), s2) \<Rightarrow>
              if r \<noteq> 0 then close_saving os src_fd s2
              else (case sys_open os newpath (O_WRONLY OR O_CREAT OR O_EXCL OR O_CLOEXEC)
                           (st_mode st AND 511) s2 of
                (dst_fd, s3) \<Rightarrow>
                  if dst_fd < 0 then close_saving os src_fd s3
                  else finish_copy os src_fd dst_fd s3)))"

definition fallback_copy_from_fd :: "'k os \<Rightarrow> int \<Rightarrow> int \<Rightarrow> cstr \<Rightarrow> 'k proc \<Rightarrow> (int \<times> 'k proc) option" where
  "fallback_copy_from_fd os src_fd_in newdirfd newpath s =
     (case sys_dup os src_fd_in s of
        (src_fd, s1) \<Rightarrow>
          if src_fd < 0 then Some (- 1, s1)
          else (case sys_fstat os src_fd s1 of
            ((r, st), s2) \<Rightarrow>
              if r \<noteq> 0 then close_saving os src_fd s2
              else (case sys_openat os newdirfd newpath (O_WRONLY OR O_CREAT OR O_EXCL OR O_CLOEXEC)
                           (st_mode st AND 511) s2 of
                (dst_fd, s3) \<Rightarrow>
                  if dst_fd < 0 then close_saving os src_fd s3
                  else finish_copy os src_fd dst_fd s3)))"

definition fallback_move_from_path :: "'k os \<Rightarrow> cstr \<Rightarrow> cstr \<Rightarrow> 'k proc \<Rightarrow> (int \<times> 'k proc) option" where
  "fallback_move_from_path os oldpath newpath s =
     (case sys_open os oldpath (O_RDONLY OR O_CLOEXEC) 0 s of
        (src_fd, s1) \<Rightarrow>
          if src_fd < 0 then Some (- 1, s1)
          else (case sys_fstat os src_fd s1 of
            ((r, st), s2) \<Rightarrow>
              if r \<noteq> 0 then close_saving os src_fd s2
              else (case sys_unlink os newpath s2 of
                (u, s3) \<Rightarrow>
                  if u \<noteq> 0 \<and> errno s3 \<noteq> ENOENT then close_saving os src_fd s3
                  else (case sys_open os newpath (O_WRONLY OR O_CREAT OR O_TRUNC OR O_CLOEXEC)
                               (st_mode st AND 511) s3 of
                    (dst_fd, s4) \<Rightarrow>
                      if dst_fd < 0 then close_saving os src_fd s4
                      else (case finish_copy os src_fd dst_fd s4 of
                        None \<Rightarrow> None
                      | Some (result, s5) \<Rightarrow>
                          if result \<noteq> 0 then Some (- 1, s5)
                          else (case sys_unlink os oldpath s5 of
                            (u2, s6) \<Rightarrow> if u2 \<noteq> 0 then Some (- 1, s6) else Some (0, s6)))))))"

definition fallback_move_at :: "'k os \<Rightarrow> int \<Rightarrow> cstr \<Rightarrow> int \<Rightarrow> cstr \<Rightarrow> 'k proc \<Rightarrow> (int \<times> 'k proc) option" where
  "fallback_move_at os olddirfd oldpath newdirfd newpath s =
     (case sys_openat os olddirfd oldpath (O_RDONLY OR O_CLOEXEC) 0 s of
        (src_fd, s1) \<Rightarrow>
          if src_fd < 0 then Some (- 1, s1)
          else (case sys_fstat os src_fd s1 of
            ((r, st), s2) \<Rightarrow>
              if r \<noteq> 0 then close_saving os src_fd s2
              else (case sys_unlinkat os newdirfd newpath 0 s2 of
                (u, s3) \<Rightarrow>
                  if u \<noteq> 0 \<and> errno s3 \<noteq> ENOENT then close_saving os src_fd s3
                  else (case sys_openat os newdirfd newpath (O_WRONLY OR O_CREAT OR O_TRUNC OR O_CLOEXEC)
                               (st_mode st AND 511) s3 of
                    (dst_fd, s4) \<Rightarrow>
                      if dst_fd < 0 then close_saving os src_fd s4
                      else (case finish_copy os src_fd dst_fd s4 of
                        None \<Rightarrow> None
                      | Some (result, s5) \<Rightarrow>
                          if result \<noteq> 0 then Some (- 1, s5)
                          else (case sys_unlinkat os olddirfd oldpath 0 s5 of
                            (u2, s6) \<Rightarrow> if u2 \<noteq> 0 then Some (- 1, s6) else Some (0, s6)))))))"

section \<open>The entry points\<close>

text \<open>
  The five \<^verbatim>\<open>static\<close> function pointers of the entry points, null (0) when the
  process starts, and the process state they run on. An entry point either returns
  its C result with the new state, never returns (\<open>Diverges\<close>, when the copier
  loops forever), or calls through a null function pointer (\<open>NullCall\<close>), which is
  undefined behaviour in C.
\<close>

record 'k shim =
  real_link :: addr
  real_linkat :: addr
  real_rename :: addr
  real_renameat :: addr
  real_renameat2 :: addr
  proc :: "'k proc"

datatype 'a outcome = Diverges | NullCall | Returns 'a

text \<open>
  \<open>resolve\<close> is the block \<^verbatim>\<open>if (!real_f) { real_f = dlsym(RTLD_NEXT, "f"); }\<close>
  that opens every entry point: it returns the value of the pointer after the block.
\<close>

definition resolve :: "'k os \<Rightarrow> string \<Rightarrow> addr \<Rightarrow> 'k proc \<Rightarrow> addr \<times> 'k proc" where
  "resolve os name cached p = (if cached = 0 then dlsym_next os name p else (cached, p))"

definition in_shim :: "'k shim \<Rightarrow> (int \<times> 'k proc) option \<Rightarrow> (int \<times> 'k shim) outcome" where
  "in_shim sh x = (case x of None \<Rightarrow> Diverges | Some (r, p) \<Rightarrow> Returns (r, sh\<lparr>proc := p\<rparr>))"

definition link :: "'k os \<Rightarrow> cstr \<Rightarrow> cstr \<Rightarrow> 'k shim \<Rightarrow> (int \<times> 'k shim) outcome" where
  "link os oldpath newpath sh =
     (case resolve os ''link'' (real_link sh) (proc sh) of
        (f, p1) \<Rightarrow>
          (let sh1 = sh\<lparr>real_link := f, proc := p1\<rparr> in
           if f = 0 then NullCall
           else (case call_pp os f oldpath newpath p1 of
             (result, p2) \<Rightarrow>
               if result = 0 \<or> errno p2 \<noteq> EXDEV then Returns (result, sh1\<lparr>proc := p2\<rparr>)
               else in_shim sh1 (fallback_copy_from_path os oldpath newpath p2))))"

definition linkat ::
  "'k os \<Rightarrow> int \<Rightarrow> cstr \<Rightarrow> int \<Rightarrow> cstr \<Rightarrow> 32 word \<Rightarrow> 'k shim \<Rightarrow> (int \<times> 'k shim) outcome" where
  "linkat os olddirfd oldpath newdirfd newpath flags sh =
     (case resolve os ''linkat'' (real_linkat sh) (proc sh) of
        (f, p1) \<Rightarrow>
          (let sh1 = sh\<lparr>real_linkat := f, proc := p1\<rparr> in
           if f = 0 then NullCall
           else (case call_atf os f olddirfd oldpath newdirfd newpath flags p1 of
             (result, p2) \<Rightarrow>
               if result = 0 \<or> errno p2 \<noteq> EXDEV then Returns (result, sh1\<lparr>proc := p2\<rparr>)
               else if flags AND AT_EMPTY_PATH \<noteq> 0 \<and> (oldpath = None \<or> oldpath = Some [])
               then in_shim sh1 (fallback_copy_from_fd os olddirfd newdirfd newpath p2)
               else in_shim sh1
                 (case sys_openat os olddirfd oldpath (O_RDONLY OR O_CLOEXEC) 0 p2 of
                    (src_fd, s1) \<Rightarrow>
                      if src_fd < 0 then Some (- 1, s1)
                      else (case sys_fstat os src_fd s1 of
                        ((r, st), s2) \<Rightarrow>
                          if r \<noteq> 0 then close_saving os src_fd s2
                          else (case sys_openat os newdirfd newpath
                                       (O_WRONLY OR O_CREAT OR O_EXCL OR O_CLOEXEC)
                                       (st_mode st AND 511) s2 of
                            (dst_fd, s3) \<Rightarrow>
                              if dst_fd < 0 then close_saving os src_fd s3
                              else finish_copy os src_fd dst_fd s3))))))"

definition rename :: "'k os \<Rightarrow> cstr \<Rightarrow> cstr \<Rightarrow> 'k shim \<Rightarrow> (int \<times> 'k shim) outcome" where
  "rename os oldpath newpath sh =
     (case resolve os ''rename'' (real_rename sh) (proc sh) of
        (f, p1) \<Rightarrow>
          (let sh1 = sh\<lparr>real_rename := f, proc := p1\<rparr> in
           if f = 0 then NullCall
           else (case call_pp os f oldpath newpath p1 of
             (result, p2) \<Rightarrow>
               if result = 0 \<or> errno p2 \<noteq> EXDEV then Returns (result, sh1\<lparr>proc := p2\<rparr>)
               else in_shim sh1 (fallback_move_from_path os oldpath newpath p2))))"

definition renameat ::
  "'k os \<Rightarrow> int \<Rightarrow> cstr \<Rightarrow> int \<Rightarrow> cstr \<Rightarrow> 'k shim \<Rightarrow> (int \<times> 'k shim) outcome" where
  "renameat os olddirfd oldpath newdirfd newpath sh =
     (case resolve os ''renameat'' (real_renameat sh) (proc sh) of
        (f, p1) \<Rightarrow>
          (let sh1 = sh\<lparr>real_renameat := f, proc := p1\<rparr> in
           if f = 0 then NullCall
           else (case call_at os f olddirfd oldpath newdirfd newpath p1 of
             (result, p2) \<Rightarrow>
               if result = 0 \<or> errno p2 \<noteq> EXDEV then Returns (result, sh1\<lparr>proc := p2\<rparr>)
               else in_shim sh1 (fallback_move_at os olddirfd oldpath newdirfd newpath p2))))"

definition renameat2 ::
  "'k os \<Rightarrow> int \<Rightarrow> cstr \<Rightarrow> int \<Rightarrow> cstr \<Rightarrow> 32 word \<Rightarrow> 'k shim \<Rightarrow> (int \<times> 'k shim) outcome" where
  "renameat2 os olddirfd oldpath newdirfd newpath flags sh =
     (case resolve os ''renameat2'' (real_renameat2 sh) (proc sh) of
        (f, p1) \<Rightarrow>
          (let sh1 = sh\<lparr>real_renameat2 := f, proc := p1\<rparr> in
           if f = 0 then
             (if flags = 0 then renameat os olddirfd oldpath newdirfd newpath sh1
              else Returns (- 1, sh1\<lparr>proc := p1\<lparr>errno := ENOSYS\<rparr>\<rparr>))
           else (case call_atf os f olddirfd oldpath newdirfd newpath flags p1 of
             (result, p2) \<Rightarrow>
               if result = 0 \<or> errno p2 \<noteq> EXDEV then Returns (result, sh1\<lparr>proc := p2\<rparr>)
               else if flags \<noteq> 0 then Returns (result, sh1\<lparr>proc := p2\<rparr>)
               else in_shim sh1 (fallback_move_at os olddirfd oldpath newdirfd newpath p2))))"

section \<open>Observing the calls of a run\<close>

text \<open>
  Which calls a run makes, in which order and with which arguments, is observed by
  running the shim on \<open>traced os\<close>: the same calls as \<open>os\<close>, each of them appending
  one event to a history kept beside the kernel state. An event holds the call with
  its arguments (for \<^verbatim>\<open>fstat\<close> also the buffer it filled), the value it returned and
  \<^verbatim>\<open>errno\<close> as the call left it.
\<close>

datatype syscall =
    Sys_open cstr "32 word" "32 word"
  | Sys_openat int cstr "32 word" "32 word"
  | Sys_fstat int stat
  | Sys_close int
  | Sys_dup int
  | Sys_unlink cstr
  | Sys_unlinkat int cstr "32 word"
  | Sys_sendfile int int int int
  | Dlsym string
  | Call_ptr addr

record event =
  ev_call :: syscall
  ev_ret :: int
  ev_errno :: int

record 'k logged =
  inner :: 'k
  history :: "event list"

definition unlog :: "'k logged proc \<Rightarrow> 'k proc" where
  "unlog s = \<lparr>errno = errno s, kern = inner (kern s)\<rparr>"

definition relog :: "'k logged proc \<Rightarrow> syscall \<Rightarrow> int \<Rightarrow> 'k proc \<Rightarrow> 'k logged proc" where
  "relog s c r s' =
     \<lparr>errno = errno s',
      kern = \<lparr>inner = kern s',
              history = history (kern s) @ [\<lparr>ev_call = c, ev_ret = r, ev_errno = errno s'\<rparr>]\<rparr>\<rparr>"

definition traced :: "'k os \<Rightarrow> 'k logged os" where
  "traced os =
     \<lparr>sys_open = (\<lambda>p f m s. case sys_open os p f m (unlog s) of
         (r, s') \<Rightarrow> (r, relog s (Sys_open p f m) r s')),
      sys_openat = (\<lambda>d p f m s. case sys_openat os d p f m (unlog s) of
         (r, s') \<Rightarrow> (r, relog s (Sys_openat d p f m) r s')),
      sys_fstat = (\<lambda>fd s. case sys_fstat os fd (unlog s) of
         ((r, st), s') \<Rightarrow> ((r, st), relog s (Sys_fstat fd st) r s')),
      sys_close = (\<lambda>fd s. case sys_close os fd (unlog s) of
         (r, s') \<Rightarrow> (r, relog s (Sys_close fd) r s')),
      sys_dup = (\<lambda>fd s. case sys_dup os fd (unlog s) of
         (r, s') \<Rightarrow> (r, relog s (Sys_dup fd) r s')),
      sys_unlink = (\<lambda>p s. case sys_unlink os p (unlog s) of
         (r, s') \<Rightarrow> (r, relog s (Sys_unlink p) r s')),
      sys_unlinkat = (\<lambda>d p f s. case sys_unlinkat os d p f (unlog s) of
         (r, s') \<Rightarrow> (r, relog s (Sys_unlinkat d p f) r s')),
      sys_sendfile = (\<lambda>out_fd in_fd off n s. case sys_sendfile os out_fd in_fd off n (unlog s) of
         ((r, off'), s') \<Rightarrow> ((r, off'), relog s (Sys_sendfile out_fd in_fd off n) r s')),
      dlsym_next = (\<lambda>name s. case dlsym_next os name (unlog s) of
         (a, s') \<Rightarrow> (a, relog s (Dlsym name) (int a) s')),
      call_pp = (\<lambda>a p q s. case call_pp os a p q (unlog s) of
         (r, s') \<Rightarrow> (r, relog s (Call_ptr a) r s')),
      call_at = (\<lambda>a d p e q s. case call_at os a d p e q (unlog s) of
         (r, s') \<Rightarrow> (r, relog s (Call_ptr a) r s')),
      call_atf = (\<lambda>a d p e q f s. case call_atf os a d p e q f (unlog s) of
         (r, s') \<Rightarrow> (r, relog s (Call_ptr a) r s'))\<rparr>"

section \<open>Reading a history\<close>

text \<open>The events a run has added, from the state before it and the state after it.\<close>

definition new_events :: "'k logged proc \<Rightarrow> 'k logged proc \<Rightarrow> event list" where
  "new_events s s' = drop (length (history (kern s))) (history (kern s'))"

text \<open>
  A call has failed when its return value fails the test the source makes on it:
  \<^verbatim>\<open>< 0\<close> for \<^verbatim>\<open>open\<close>, \<^verbatim>\<open>openat\<close>, \<^verbatim>\<open>dup\<close> and \<^verbatim>\<open>sendfile\<close>, \<^verbatim>\<open>!= 0\<close> for \<^verbatim>\<open>fstat\<close>,
  \<^verbatim>\<open>unlink\<close>, \<^verbatim>\<open>unlinkat\<close> and the genuine function. The failing step of a run is its
  last call that is not a \<^verbatim>\<open>close\<close>, and the run reports it when that call has failed
  and the error code it left is the one given.
\<close>

fun is_close :: "event \<Rightarrow> bool" where
  "is_close e = (case ev_call e of Sys_close _ \<Rightarrow> True | _ \<Rightarrow> False)"

fun failed :: "event \<Rightarrow> bool" where
  "failed e =
     (case ev_call e of
        Sys_fstat _ _ \<Rightarrow> ev_ret e \<noteq> 0
      | Sys_unlink _ \<Rightarrow> ev_ret e \<noteq> 0
      | Sys_unlinkat _ _ _ \<Rightarrow> ev_ret e \<noteq> 0
      | Call_ptr _ \<Rightarrow> ev_ret e \<noteq> 0
      | Sys_close _ \<Rightarrow> False
      | Dlsym _ \<Rightarrow> False
      | _ \<Rightarrow> ev_ret e < 0)"

definition failing_step :: "event list \<Rightarrow> event option" where
  "failing_step evs = (case rev (filter (\<lambda>e. \<not> is_close e) evs) of [] \<Rightarrow> None | e # _ \<Rightarrow> Some e)"

definition reports_failing_step :: "event list \<Rightarrow> int \<Rightarrow> bool" where
  "reports_failing_step evs err =
     (case failing_step evs of None \<Rightarrow> False | Some e \<Rightarrow> failed e \<and> ev_errno e = err)"

text \<open>
  The status queries of a run (descriptor and the buffer filled), the mode argument of
  a call that may create a file, and the offset and count of a transfer request.
\<close>

fun stat_query :: "event \<Rightarrow> (int \<times> stat) option" where
  "stat_query e = (case ev_call e of Sys_fstat fd st \<Rightarrow> Some (fd, st) | _ \<Rightarrow> None)"

fun created_mode :: "event \<Rightarrow> 32 word option" where
  "created_mode e =
     (case ev_call e of
        Sys_open _ fl m \<Rightarrow> if fl AND O_CREAT \<noteq> 0 then Some m else None
      | Sys_openat _ _ fl m \<Rightarrow> if fl AND O_CREAT \<noteq> 0 then Some m else None
      | _ \<Rightarrow> None)"

fun transfer_request :: "event \<Rightarrow> (int \<times> int) option" where
  "transfer_request e = (case ev_call e of Sys_sendfile _ _ off n \<Rightarrow> Some (off, n) | _ \<Rightarrow> None)"

text \<open>
  \<open>two_status_queries i evs\<close>: the run \<open>evs\<close> makes exactly two status queries, both
  on the descriptor that its first call returned. The first query is the second call of
  the run, and its mode, masked to 0777, is the mode argument of the \<open>i\<close>-th call, which
  creates the destination. The second query is the call right after that one; the
  transfers follow it, and the first of them starts at offset 0 and asks for the size
  that the second query reported (there is no transfer when that size is not positive).
\<close>

definition two_status_queries :: "nat \<Rightarrow> event list \<Rightarrow> bool" where
  "two_status_queries i evs =
     (Suc i < length evs \<and>
      (case (ev_call (evs ! 1), ev_call (evs ! Suc i)) of
         (Sys_fstat fd1 st1, Sys_fstat fd2 st2) \<Rightarrow>
           fd1 = ev_ret (evs ! 0) \<and>
           List.map_filter stat_query evs = [(fd1, st1), (fd1, st2)] \<and>
           List.map_filter created_mode evs = [st_mode st1 AND 511] \<and>
           created_mode (evs ! i) = Some (st_mode st1 AND 511) \<and>
           (case List.map_filter transfer_request evs of
              [] \<Rightarrow> st_size st2 \<le> 0
            | (off, n) # _ \<Rightarrow> off = 0 \<and> n = st_size st2 \<and>
                transfer_request (evs ! (i + 2)) = Some (off, n))
       | _ \<Rightarrow> False))"

text \<open>
  \<open>reads_through_duplicate fd evs\<close>: the first call of the run \<open>evs\<close> duplicates the
  descriptor \<open>fd\<close>, and every later status query and every transfer of the run reads
  the descriptor that this call returned.
\<close>

definition reads_through_duplicate :: "int \<Rightarrow> event list \<Rightarrow> bool" where
  "reads_through_duplicate fd evs =
     (case evs of
        [] \<Rightarrow> False
      | d # rest \<Rightarrow>
          ev_call d = Sys_dup fd \<and>
          list_all (\<lambda>e. case ev_call e of
                           Sys_fstat f st \<Rightarrow> f = ev_ret d
                         | Sys_sendfile out_fd in_fd off n \<Rightarrow> in_fd = ev_ret d
                         | Sys_dup f \<Rightarrow> False
                         | _ \<Rightarrow> True) rest)"

text \<open>The answers of the dynamic loader to the queries of a run for one name.\<close>

definition queries_for :: "string \<Rightarrow> event list \<Rightarrow> int list" where
  "queries_for name evs = map ev_ret (filter (\<lambda>e. ev_call e = Dlsym name) evs)"

text \<open>A call on the file system: any call but a loader query or a genuine function.\<close>

fun fs_call :: "event \<Rightarrow> bool" where
  "fs_call e = (case ev_call e of Dlsym _ \<Rightarrow> False | Call_ptr _ \<Rightarrow> False | _ \<Rightarrow> True)"

section \<open>A reference kernel\<close>

text \<open>
  What ends up in which file is decided by the kernel, which is not code of this
  repository. The claims about file contents are settled on the reference kernel
  below, written from the Linux manual pages of the calls the shim makes:

  \<^item> a directory entry is a pair of a directory descriptor and a name
    (\<^verbatim>\<open>AT_FDCWD\<close> for the working directory); two different pairs are two different
    entries, and directories themselves are not files of the model;
  \<^item> an inode holds the bytes and the mode of a file and the device it lives on; an
    inode is never reclaimed, so a file that is unlinked while open stays readable;
  \<^item> a descriptor refers to an open file description, which holds the file position;
    \<^verbatim>\<open>dup\<close> makes a second descriptor for the same description;
  \<^item> a call fails only for a reason visible in this state, except \<^verbatim>\<open>sendfile\<close>:
    its \<open>n\<close>-th call follows \<open>transfers k n\<close>, which either makes it fail with an
    error code or caps the number of bytes it moves (a short transfer);
  \<^item> a successful call leaves \<^verbatim>\<open>errno\<close> as it was.
\<close>

record inode =
  i_data :: string
  i_mode :: "32 word"
  i_dev :: nat

record ofile =
  of_ino :: nat
  of_pos :: nat

datatype xfer = Fail int | Upto nat

datatype libc_fn = Libc_link | Libc_linkat | Libc_rename | Libc_renameat | Libc_renameat2

record kernel =
  entries :: "int \<times> string \<Rightarrow> nat option"
  device :: "int \<times> string \<Rightarrow> nat"
  inodes :: "inode list"
  ofiles :: "ofile list"
  fdtab :: "nat option list"
  umask :: "32 word"
  transfers :: "nat \<Rightarrow> xfer"
  ticks :: nat
  loader :: "string \<Rightarrow> addr"
  code_at :: "addr \<Rightarrow> libc_fn option"

definition fail :: "int \<Rightarrow> 'k proc \<Rightarrow> int \<times> 'k proc" where
  "fail e s = (- 1, s\<lparr>errno := e\<rparr>)"

definition lookup :: "kernel \<Rightarrow> int \<Rightarrow> string \<Rightarrow> nat option" where
  "lookup k d name =
     (case entries k (d, name) of
        None \<Rightarrow> None
      | Some i \<Rightarrow> if i < length (inodes k) then Some i else None)"

definition file_of :: "kernel \<Rightarrow> int \<Rightarrow> nat option" where
  "file_of k fd =
     (if 0 \<le> fd \<and> nat fd < length (fdtab k) then
        (case fdtab k ! nat fd of
           None \<Rightarrow> None
         | Some j \<Rightarrow>
             if j < length (ofiles k) \<and> of_ino (ofiles k ! j) < length (inodes k)
             then Some j else None)
      else None)"

definition install :: "nat \<Rightarrow> kernel proc \<Rightarrow> int \<times> kernel proc" where
  "install i s =
     (let k = kern s in
      (int (length (fdtab k)),
       s\<lparr>kern := k\<lparr>ofiles := ofiles k @ [\<lparr>of_ino = i, of_pos = 0\<rparr>],
                    fdtab := fdtab k @ [Some (length (ofiles k))]\<rparr>\<rparr>))"

definition px_openat :: "int \<Rightarrow> cstr \<Rightarrow> 32 word \<Rightarrow> 32 word \<Rightarrow> kernel proc \<Rightarrow> int \<times> kernel proc" where
  "px_openat d p fl m s =
     (case p of
        None \<Rightarrow> fail EFAULT s
      | Some name \<Rightarrow>
          (let k = kern s in
           case lookup k d name of
             Some i \<Rightarrow>
               if fl AND O_CREAT \<noteq> 0 \<and> fl AND O_EXCL \<noteq> 0 then fail EEXIST s
               else if fl AND O_TRUNC \<noteq> 0
               then install i (s\<lparr>kern := k\<lparr>inodes := (inodes k)[i := (inodes k ! i)\<lparr>i_data := []\<rparr>]\<rparr>\<rparr>)
               else install i s
           | None \<Rightarrow>
               if fl AND O_CREAT = 0 then fail ENOENT s
               else install (length (inodes k))
                 (s\<lparr>kern := k\<lparr>entries := (entries k)((d, name) \<mapsto> length (inodes k)),
                                inodes := inodes k @
                                  [\<lparr>i_data = [], i_mode = m AND NOT (umask k),
                                    i_dev = device k (d, name)\<rparr>]\<rparr>\<rparr>)))"

definition px_open :: "cstr \<Rightarrow> 32 word \<Rightarrow> 32 word \<Rightarrow> kernel proc \<Rightarrow> int \<times> kernel proc" where
  "px_open p fl m s = px_openat AT_FDCWD p fl m s"

definition px_fstat :: "int \<Rightarrow> kernel proc \<Rightarrow> (int \<times> stat) \<times> kernel proc" where
  "px_fstat fd s =
     (let k = kern s in
      case file_of k fd of
        None \<Rightarrow> ((- 1, \<lparr>st_size = 0, st_mode = 0\<rparr>), s\<lparr>errno := EBADF\<rparr>)
      | Some j \<Rightarrow>
          (let file = inodes k ! of_ino (ofiles k ! j)
           in ((0, \<lparr>st_size = int (length (i_data file)), st_mode = i_mode file\<rparr>), s)))"

definition px_close :: "int \<Rightarrow> kernel proc \<Rightarrow> int \<times> kernel proc" where
  "px_close fd s =
     (let k = kern s in
      case file_of k fd of
        None \<Rightarrow> fail EBADF s
      | Some j \<Rightarrow> (0, s\<lparr>kern := k\<lparr>fdtab := (fdtab k)[nat fd := None]\<rparr>\<rparr>))"

definition px_dup :: "int \<Rightarrow> kernel proc \<Rightarrow> int \<times> kernel proc" where
  "px_dup fd s =
     (let k = kern s in
      case file_of k fd of
        None \<Rightarrow> fail EBADF s
      | Some j \<Rightarrow> (int (length (fdtab k)), s\<lparr>kern := k\<lparr>fdtab := fdtab k @ [Some j]\<rparr>\<rparr>))"

definition px_unlinkat :: "int \<Rightarrow> cstr \<Rightarrow> 32 word \<Rightarrow> kernel proc \<Rightarrow> int \<times> kernel proc" where
  "px_unlinkat d p fl s =
     (case p of
        None \<Rightarrow> fail EFAULT s
      | Some name \<Rightarrow>
          (let k = kern s in
           case lookup k d name of
             None \<Rightarrow> fail ENOENT s
           | Some i \<Rightarrow> (0, s\<lparr>kern := k\<lparr>entries := (entries k)((d, name) := None)\<rparr>\<rparr>)))"

definition px_unlink :: "cstr \<Rightarrow> kernel proc \<Rightarrow> int \<times> kernel proc" where
  "px_unlink p s = px_unlinkat AT_FDCWD p 0 s"

text \<open>
  Writing \<open>chunk\<close> at position \<open>pos\<close> of a file: a gap between the end of the file
  and \<open>pos\<close> reads as zero bytes; writing no bytes changes nothing.
\<close>

definition overwrite :: "nat \<Rightarrow> string \<Rightarrow> string \<Rightarrow> string" where
  "overwrite pos chunk old =
     (if chunk = [] then old
      else take pos old @ replicate (pos - length old) (CHR 0x00) @ chunk @
           drop (pos + length chunk) old)"

text \<open>
  \<^verbatim>\<open>sendfile(out_fd, in_fd, &offset, count)\<close> with a non-null offset: the bytes are
  read from \<open>off\<close>, not from the position of \<open>in_fd\<close>, which stays as it is; they are
  written at the position of \<open>out_fd\<close>, which advances; the offset cursor advances by
  the number of bytes sent.
\<close>

definition px_sendfile :: "int \<Rightarrow> int \<Rightarrow> int \<Rightarrow> int \<Rightarrow> kernel proc \<Rightarrow> (int \<times> int) \<times> kernel proc" where
  "px_sendfile out_fd in_fd off n s =
     (let k = kern s in
      case (file_of k out_fd, file_of k in_fd) of
        (Some jo, Some ji) \<Rightarrow>
          (case transfers k (ticks k) of
             Fail e \<Rightarrow> ((- 1, off), s\<lparr>errno := e, kern := k\<lparr>ticks := Suc (ticks k)\<rparr>\<rparr>)
           | Upto cap \<Rightarrow>
               (let src = ofiles k ! ji;
                    dst = ofiles k ! jo;
                    chunk = take (min cap (nat n)) (drop (nat off) (i_data (inodes k ! of_ino src)));
                    file = inodes k ! of_ino dst;
                    file' = file\<lparr>i_data := overwrite (of_pos dst) chunk (i_data file)\<rparr>
                in ((int (length chunk), off + int (length chunk)),
                    s\<lparr>kern := k\<lparr>inodes := (inodes k)[of_ino dst := file'],
                                 ofiles := (ofiles k)[jo := dst\<lparr>of_pos := of_pos dst + length chunk\<rparr>],
                                 ticks := Suc (ticks k)\<rparr>\<rparr>)))
      | _ \<Rightarrow> ((- 1, off), s\<lparr>errno := EBADF\<rparr>))"

text \<open>
  The genuine implementations behind the shim. A link or a rename whose source inode
  lives on another device than the destination entry fails with \<^verbatim>\<open>EXDEV\<close>. A null
  path fails with \<^verbatim>\<open>EFAULT\<close>. \<^verbatim>\<open>linkat\<close> links the file behind the descriptor
  \<open>d\<close> when the old path is the empty string and \<^verbatim>\<open>AT_EMPTY_PATH\<close> is set; an empty
  old path without that flag names nothing.
\<close>

definition px_dlsym :: "string \<Rightarrow> kernel proc \<Rightarrow> addr \<times> kernel proc" where
  "px_dlsym name s = (loader (kern s) name, s)"

definition native_linkat :: "int \<Rightarrow> cstr \<Rightarrow> int \<Rightarrow> cstr \<Rightarrow> 32 word \<Rightarrow> kernel proc \<Rightarrow> int \<times> kernel proc" where
  "native_linkat d p e q fl s =
     (case (p, q) of
        (Some old, Some name) \<Rightarrow>
          (let k = kern s;
               src = (if old = []
                      then (if fl AND AT_EMPTY_PATH \<noteq> 0
                            then map_option (\<lambda>j. of_ino (ofiles k ! j)) (file_of k d)
                            else None)
                      else lookup k d old)
           in case src of
                None \<Rightarrow> fail (if old = [] \<and> fl AND AT_EMPTY_PATH \<noteq> 0 then EBADF else ENOENT) s
              | Some i \<Rightarrow>
                  if lookup k e name \<noteq> None then fail EEXIST s
                  else if i_dev (inodes k ! i) \<noteq> device k (e, name) then fail EXDEV s
                  else (0, s\<lparr>kern := k\<lparr>entries := (entries k)((e, name) \<mapsto> i)\<rparr>\<rparr>))
      | _ \<Rightarrow> fail EFAULT s)"

definition native_renameat :: "int \<Rightarrow> cstr \<Rightarrow> int \<Rightarrow> cstr \<Rightarrow> kernel proc \<Rightarrow> int \<times> kernel proc" where
  "native_renameat d p e q s =
     (let k = kern s in
      case (p, q) of
        (Some old, Some new) \<Rightarrow>
          (case lookup k d old of
             None \<Rightarrow> fail ENOENT s
           | Some i \<Rightarrow>
               if i_dev (inodes k ! i) \<noteq> device k (e, new) then fail EXDEV s
               else if (d, old) = (e, new) then (0, s)
               else (0, s\<lparr>kern := k\<lparr>entries := (entries k)((e, new) \<mapsto> i, (d, old) := None)\<rparr>\<rparr>))
      | _ \<Rightarrow> fail EFAULT s)"

definition native_renameat2 :: "int \<Rightarrow> cstr \<Rightarrow> int \<Rightarrow> cstr \<Rightarrow> 32 word \<Rightarrow> kernel proc \<Rightarrow> int \<times> kernel proc" where
  "native_renameat2 d p e q fl s =
     (if fl = 0 then native_renameat d p e q s
      else case native_renameat d p e q s of
             (r, s') \<Rightarrow> if r \<noteq> 0 \<and> errno s' = EXDEV then (r, s') else fail ENOSYS s)"

definition px_call_pp :: "addr \<Rightarrow> cstr \<Rightarrow> cstr \<Rightarrow> kernel proc \<Rightarrow> int \<times> kernel proc" where
  "px_call_pp a p q s =
     (case code_at (kern s) a of
        Some Libc_link \<Rightarrow> native_linkat AT_FDCWD p AT_FDCWD q 0 s
      | Some Libc_rename \<Rightarrow> native_renameat AT_FDCWD p AT_FDCWD q s
      | _ \<Rightarrow> fail ENOSYS s)"

definition px_call_at :: "addr \<Rightarrow> int \<Rightarrow> cstr \<Rightarrow> int \<Rightarrow> cstr \<Rightarrow> kernel proc \<Rightarrow> int \<times> kernel proc" where
  "px_call_at a d p e q s =
     (case code_at (kern s) a of
        Some Libc_renameat \<Rightarrow> native_renameat d p e q s
      | _ \<Rightarrow> fail ENOSYS s)"

definition px_call_atf ::
  "addr \<Rightarrow> int \<Rightarrow> cstr \<Rightarrow> int \<Rightarrow> cstr \<Rightarrow> 32 word \<Rightarrow> kernel proc \<Rightarrow> int \<times> kernel proc" where
  "px_call_atf a d p e q fl s =
     (case code_at (kern s) a of
        Some Libc_linkat \<Rightarrow> native_linkat d p e q fl s
      | Some Libc_renameat2 \<Rightarrow> native_renameat2 d p e q fl s
      | _ \<Rightarrow> fail ENOSYS s)"

definition posix :: "kernel os" where
  "posix =
     \<lparr>sys_open = px_open, sys_openat = px_openat, sys_fstat = px_fstat, sys_close = px_close,
      sys_dup = px_dup, sys_unlink = px_unlink, sys_unlinkat = px_unlinkat,
      sys_sendfile = px_sendfile, dlsym_next = px_dlsym,
      call_pp = px_call_pp, call_at = px_call_at, call_atf = px_call_atf\<rparr>"

text \<open>
  A system has the reference file system when its calls on files are those of the
  reference kernel; its loader and its genuine functions may be anything.
\<close>

definition reference_fs :: "kernel os \<Rightarrow> bool" where
  "reference_fs os =
     (sys_open os = px_open \<and> sys_openat os = px_openat \<and> sys_fstat os = px_fstat \<and>
      sys_close os = px_close \<and> sys_dup os = px_dup \<and> sys_unlink os = px_unlink \<and>
      sys_unlinkat os = px_unlinkat \<and> sys_sendfile os = px_sendfile)"

section \<open>Concrete states\<close>

text \<open>
  What the caller of an entry point observes: the value returned and \<^verbatim>\<open>errno\<close>.
\<close>

definition returned :: "(int \<times> 'k shim) outcome \<Rightarrow> (int \<times> int) option" where
  "returned x = (case x of Returns (r, sh) \<Rightarrow> Some (r, errno (proc sh)) | _ \<Rightarrow> None)"

text \<open>
  What the caller of a fallback function observes, and the events that a run of a
  fallback function on a traced system has added (none if it does not return).
\<close>

definition observed :: "(int \<times> 'k proc) option \<Rightarrow> (int \<times> int) option" where
  "observed x = map_option (\<lambda>(r, s'). (r, errno s')) x"

definition run_events :: "'k logged proc \<Rightarrow> (int \<times> 'k logged proc) option \<Rightarrow> event list" where
  "run_events s x = (case x of None \<Rightarrow> [] | Some (r, s') \<Rightarrow> new_events s s')"

text \<open>The state of the shim after a call that returned (the state before it otherwise).\<close>

definition state_after :: "'k shim \<Rightarrow> (int \<times> 'k shim) outcome \<Rightarrow> 'k shim" where
  "state_after sh x = (case x of Returns (r, sh') \<Rightarrow> sh' | _ \<Rightarrow> sh)"

text \<open>A state put under observation: the same state with an empty history.\<close>

definition logged :: "'k proc \<Rightarrow> 'k logged proc" where
  "logged p = \<lparr>errno = errno p, kern = \<lparr>inner = kern p, history = []\<rparr>\<rparr>"

definition logged_shim :: "'k shim \<Rightarrow> 'k logged shim" where
  "logged_shim sh =
     \<lparr>real_link = real_link sh, real_linkat = real_linkat sh, real_rename = real_rename sh,
      real_renameat = real_renameat sh, real_renameat2 = real_renameat2 sh,
      proc = logged (proc sh)\<rparr>"

text \<open>
  A process with two files in its working directory: \<^verbatim>\<open>a\<close> on device 0 and \<^verbatim>\<open>b\<close> on
  device 1, where every other name lives too. The kernel moves at most two bytes in one
  \<^verbatim>\<open>sendfile\<close>. \<open>demo_kernel\<close> has all five genuine functions; \<open>legacy_kernel\<close> is
  a system whose libc has no \<^verbatim>\<open>renameat2\<close> (and, to show a call through a null
  pointer, no \<^verbatim>\<open>link\<close>).
\<close>

definition demo_kernel :: kernel where
  "demo_kernel =
     \<lparr>entries = [(AT_FDCWD, ''a'') \<mapsto> 0, (AT_FDCWD, ''b'') \<mapsto> 1],
      device = (\<lambda>(d, name). if name = ''a'' then 0 else 1),
      inodes = [\<lparr>i_data = ''hello'', i_mode = 33188, i_dev = 0\<rparr>,
                \<lparr>i_data = ''old'', i_mode = 33152, i_dev = 1\<rparr>],
      ofiles = [], fdtab = [], umask = 18,
      transfers = (\<lambda>n. Upto 2), ticks = 0,
      loader = (\<lambda>name. if name = ''link'' then 1 else if name = ''linkat'' then 2
                else if name = ''rename'' then 3 else if name = ''renameat'' then 4
                else if name = ''renameat2'' then 5 else 0),
      code_at = [1 \<mapsto> Libc_link, 2 \<mapsto> Libc_linkat, 3 \<mapsto> Libc_rename,
                 4 \<mapsto> Libc_renameat, 5 \<mapsto> Libc_renameat2]\<rparr>"

definition demo_shim :: "kernel shim" where
  "demo_shim = \<lparr>real_link = 0, real_linkat = 0, real_rename = 0, real_renameat = 0,
      real_renameat2 = 0, proc = \<lparr>errno = 0, kern = demo_kernel\<rparr>\<rparr>"

definition legacy_kernel :: kernel where
  "legacy_kernel = demo_kernel\<lparr>loader := (\<lambda>name. if name = ''renameat'' then 4 else 0)\<rparr>"

definition legacy_shim :: "kernel shim" where
  "legacy_shim = demo_shim\<lparr>proc := \<lparr>errno = 0, kern = legacy_kernel\<rparr>\<rparr>"

definition demo_proc :: "kernel proc" where
  "demo_proc = \<lparr>errno = 0, kern = demo_kernel\<rparr>"

text \<open>
  Two variations of the reference system. In \<open>clobbering\<close> every \<^verbatim>\<open>close\<close> clears
  \<^verbatim>\<open>errno\<close>. In \<open>racing\<close> another process appends one byte to inode 0 while a call
  of \<^verbatim>\<open>open\<close> creates a file.
\<close>

definition clobbering :: "kernel os" where
  "clobbering = posix\<lparr>sys_close := (\<lambda>fd s. case px_close fd s of (r, s') \<Rightarrow> (r, s'\<lparr>errno := 0\<rparr>))\<rparr>"

definition racing :: "kernel os" where
  "racing = posix\<lparr>sys_open := (\<lambda>p fl m s.
     case px_open p fl m s of
       (r, s') \<Rightarrow>
         (r, if fl AND O_CREAT \<noteq> 0
             then s'\<lparr>kern := (kern s')\<lparr>inodes := (inodes (kern s'))
                    [0 := (inodes (kern s') ! 0)\<lparr>i_data := i_data (inodes (kern s') ! 0) @ ''!''\<rparr>]\<rparr>\<rparr>
             else s'))\<rparr>"

text \<open>
  The states after one and after two calls of \<^verbatim>\<open>rename\<close> (of the missing \<^verbatim>\<open>c\<close>) on the
  observed \<open>demo_shim\<close>, and after one and two calls of \<^verbatim>\<open>renameat2\<close> with flag 1 on
  the observed \<open>legacy_shim\<close>.
\<close>

definition demo_once :: "kernel logged shim" where
  "demo_once = state_after (logged_shim demo_shim)
     (rename (traced posix) (Some ''c'') (Some ''b'') (logged_shim demo_shim))"

definition demo_twice :: "kernel logged shim" where
  "demo_twice = state_after demo_once (rename (traced posix) (Some ''c'') (Some ''b'') demo_once)"

definition legacy_once :: "kernel logged shim" where
  "legacy_once = state_after (logged_shim legacy_shim)
     (renameat2 (traced posix) AT_FDCWD (Some ''a'') AT_FDCWD (Some ''b'') 1 (logged_shim legacy_shim))"

definition legacy_twice :: "kernel logged shim" where
  "legacy_twice = state_after legacy_once
     (renameat2 (traced posix) AT_FDCWD (Some ''a'') AT_FDCWD (Some ''b'') 1 legacy_once)"


text \<open>The state a fallback function leaves (the state before it if it does not return).\<close>

definition proc_after :: "'k proc \<Rightarrow> (int \<times> 'k proc) option \<Rightarrow> 'k proc" where
  "proc_after s x = (case x of Some (r, s') \<Rightarrow> s' | None \<Rightarrow> s)"


text \<open>
  The demo process with two open descriptors: 0 on \<^verbatim>\<open>a\<close>, positioned at byte 3, and 1
  on \<^verbatim>\<open>b\<close>, positioned at its start.
\<close>

definition seeking_proc :: "kernel proc" where
  "seeking_proc = \<lparr>errno = 0, kern = demo_kernel\<lparr>
      ofiles := [\<lparr>of_ino = 0, of_pos = 3\<rparr>, \<lparr>of_ino = 1, of_pos = 0\<rparr>],
      fdtab := [Some 0, Some 1]\<rparr>\<rparr>"

definition seeking_shim :: "kernel shim" where
  "seeking_shim = demo_shim\<lparr>proc := seeking_proc\<rparr>"


text \<open>
  A system for the copier alone. Its state counts the transfers made; the source has
  \<open>len\<close> bytes, and the n-th call of \<^verbatim>\<open>sendfile\<close> returns \<open>xs n\<close>: that many
  bytes moved, or, when negative, the failure with error code \<open>- xs n\<close>. \<open>stalled\<close> is
  the sequence of transfers that never move a byte, \<open>by_twos\<close> the one that moves two
  bytes every time.
\<close>

definition scripted :: "int \<Rightarrow> (nat \<Rightarrow> int) \<Rightarrow> nat os" where
  "scripted len xs =
     \<lparr>sys_open = (\<lambda>p fl m s. (0, s)),
      sys_openat = (\<lambda>d p fl m s. (0, s)),
      sys_fstat = (\<lambda>fd s. ((0, \<lparr>st_size = len, st_mode = 0\<rparr>), s)),
      sys_close = (\<lambda>fd s. (0, s)),
      sys_dup = (\<lambda>fd s. (0, s)),
      sys_unlink = (\<lambda>p s. (0, s)),
      sys_unlinkat = (\<lambda>d p fl s. (0, s)),
      sys_sendfile = (\<lambda>out_fd in_fd off n s.
        if xs (kern s) < 0
        then ((- 1, off), s\<lparr>errno := - xs (kern s), kern := Suc (kern s)\<rparr>)
        else ((xs (kern s), off + xs (kern s)), s\<lparr>kern := Suc (kern s)\<rparr>)),
      dlsym_next = (\<lambda>name s. (0, s)),
      call_pp = (\<lambda>a p q s. (0, s)),
      call_at = (\<lambda>a d p e q s. (0, s)),
      call_atf = (\<lambda>a d p e q fl s. (0, s))\<rparr>"

definition stalled :: "nat \<Rightarrow> int" where
  "stalled n = 0"

definition by_twos :: "nat \<Rightarrow> int" where
  "by_twos n = 2"

section \<open>Properties\<close>

lemmas demo_simps = demo_shim_def demo_kernel_def legacy_shim_def legacy_kernel_def
  posix_def resolve_def px_dlsym_def px_call_pp_def
  px_call_at_def px_call_atf_def native_linkat_def native_renameat_def native_renameat2_def
  lookup_def fail_def AT_FDCWD_def EXDEV_def EEXIST_def ENOSYS_def returned_def

subsection \<open>Pass-through of the genuine result\<close>

text \<open>
  C1. Take any of the five entry points, and let \<open>f\<close> be the address of its genuine
  implementation as the entry point resolves it (not null). If the genuine call returns
  0, or leaves an error code other than \<^verbatim>\<open>EXDEV\<close>, the entry point returns the
  genuine return value, and the process state is exactly the one the genuine call left:
  \<^verbatim>\<open>errno\<close> is unchanged, and no call of the fallback has touched the kernel.
\<close>

theorem genuine_result_passes_through:
  assumes "f \<noteq> 0" and "result = 0 \<or> errno p2 \<noteq> EXDEV"
  shows
    "(resolve os ''link'' (real_link sh) (proc sh) = (f, p1) \<and>
        call_pp os f oldpath newpath p1 = (result, p2) \<longrightarrow>
      link os oldpath newpath sh = Returns (result, sh\<lparr>real_link := f, proc := p2\<rparr>)) \<and>
     (resolve os ''linkat'' (real_linkat sh) (proc sh) = (f, p1) \<and>
        call_atf os f olddirfd oldpath newdirfd newpath flags p1 = (result, p2) \<longrightarrow>
      linkat os olddirfd oldpath newdirfd newpath flags sh =
        Returns (result, sh\<lparr>real_linkat := f, proc := p2\<rparr>)) \<and>
     (resolve os ''rename'' (real_rename sh) (proc sh) = (f, p1) \<and>
        call_pp os f oldpath newpath p1 = (result, p2) \<longrightarrow>
      rename os oldpath newpath sh = Returns (result, sh\<lparr>real_rename := f, proc := p2\<rparr>)) \<and>
     (resolve os ''renameat'' (real_renameat sh) (proc sh) = (f, p1) \<and>
        call_at os f olddirfd oldpath newdirfd newpath p1 = (result, p2) \<longrightarrow>
      renameat os olddirfd oldpath newdirfd newpath sh =
        Returns (result, sh\<lparr>real_renameat := f, proc := p2\<rparr>)) \<and>
     (resolve os ''renameat2'' (real_renameat2 sh) (proc sh) = (f, p1) \<and>
        call_atf os f olddirfd oldpath newdirfd newpath flags p1 = (result, p2) \<longrightarrow>
      renameat2 os olddirfd oldpath newdirfd newpath flags sh =
        Returns (result, sh\<lparr>real_renameat2 := f, proc := p2\<rparr>))"
  using assms
  by (auto simp: link_def linkat_def rename_def renameat_def renameat2_def)

text \<open>
  C1, at concrete inputs. Linking \<^verbatim>\<open>a\<close> to the existing \<^verbatim>\<open>b\<close> fails in the genuine
  \<^verbatim>\<open>link\<close> and \<^verbatim>\<open>linkat\<close> with \<^verbatim>\<open>EEXIST\<close>; renaming the missing \<^verbatim>\<open>c\<close> fails in the
  genuine \<^verbatim>\<open>rename\<close> with \<^verbatim>\<open>ENOENT\<close>; renaming \<^verbatim>\<open>b\<close> to \<^verbatim>\<open>c\<close> on the same device
  succeeds in the genuine \<^verbatim>\<open>renameat\<close> and \<^verbatim>\<open>renameat2\<close>. Each entry point returns
  just that.
\<close>

theorem genuine_result_passes_through_witness:
  "link posix (Some ''a'') (Some ''b'') demo_shim =
     Returns (- 1, demo_shim\<lparr>real_link := 1, proc := \<lparr>errno = EEXIST, kern = demo_kernel\<rparr>\<rparr>) \<and>
   linkat posix AT_FDCWD (Some ''a'') AT_FDCWD (Some ''b'') 0 demo_shim =
     Returns (- 1, demo_shim\<lparr>real_linkat := 2, proc := \<lparr>errno = EEXIST, kern = demo_kernel\<rparr>\<rparr>) \<and>
   rename posix (Some ''c'') (Some ''b'') demo_shim =
     Returns (- 1, demo_shim\<lparr>real_rename := 3, proc := \<lparr>errno = ENOENT, kern = demo_kernel\<rparr>\<rparr>) \<and>
   renameat posix AT_FDCWD (Some ''b'') AT_FDCWD (Some ''c'') demo_shim =
     Returns (0, demo_shim\<lparr>real_renameat := 4, proc := \<lparr>errno = 0, kern = demo_kernel
       \<lparr>entries := (entries demo_kernel)((AT_FDCWD, ''c'') \<mapsto> 1, (AT_FDCWD, ''b'') := None)\<rparr>\<rparr>\<rparr>) \<and>
   renameat2 posix AT_FDCWD (Some ''b'') AT_FDCWD (Some ''c'') 0 demo_shim =
     Returns (0, demo_shim\<lparr>real_renameat2 := 5, proc := \<lparr>errno = 0, kern = demo_kernel
       \<lparr>entries := (entries demo_kernel)((AT_FDCWD, ''c'') \<mapsto> 1, (AT_FDCWD, ''b'') := None)\<rparr>\<rparr>\<rparr>)"
proof -
  let ?k = "demo_kernel\<lparr>entries := (entries demo_kernel)((AT_FDCWD, ''c'') \<mapsto> 1, (AT_FDCWD, ''b'') := None)\<rparr>"
  have 1: "link posix (Some ''a'') (Some ''b'') demo_shim =
     Returns (- 1, demo_shim\<lparr>real_link := 1, proc := \<lparr>errno = EEXIST, kern = demo_kernel\<rparr>\<rparr>)"
    using genuine_result_passes_through [of 1 "- 1" "\<lparr>errno = EEXIST, kern = demo_kernel\<rparr>" posix
      demo_shim "proc demo_shim" "Some ''a''" "Some ''b''"]
    by (simp add: demo_simps)
  have 2: "linkat posix AT_FDCWD (Some ''a'') AT_FDCWD (Some ''b'') 0 demo_shim =
     Returns (- 1, demo_shim\<lparr>real_linkat := 2, proc := \<lparr>errno = EEXIST, kern = demo_kernel\<rparr>\<rparr>)"
    using genuine_result_passes_through [of 2 "- 1" "\<lparr>errno = EEXIST, kern = demo_kernel\<rparr>" posix
      demo_shim "proc demo_shim" "Some ''a''" "Some ''b''" AT_FDCWD AT_FDCWD 0]
    by (simp add: demo_simps AT_EMPTY_PATH_def)
  have 3: "rename posix (Some ''c'') (Some ''b'') demo_shim =
     Returns (- 1, demo_shim\<lparr>real_rename := 3, proc := \<lparr>errno = ENOENT, kern = demo_kernel\<rparr>\<rparr>)"
    using genuine_result_passes_through [of 3 "- 1" "\<lparr>errno = ENOENT, kern = demo_kernel\<rparr>" posix
      demo_shim "proc demo_shim" "Some ''c''" "Some ''b''"]
    by (simp add: demo_simps ENOENT_def)
  have 4: "renameat posix AT_FDCWD (Some ''b'') AT_FDCWD (Some ''c'') demo_shim =
     Returns (0, demo_shim\<lparr>real_renameat := 4, proc := \<lparr>errno = 0, kern = ?k\<rparr>\<rparr>)"
    using genuine_result_passes_through [of 4 0 "\<lparr>errno = 0, kern = ?k\<rparr>" posix
      demo_shim "proc demo_shim" "Some ''b''" "Some ''c''" AT_FDCWD AT_FDCWD]
    by (simp add: demo_simps)
  have 5: "renameat2 posix AT_FDCWD (Some ''b'') AT_FDCWD (Some ''c'') 0 demo_shim =
     Returns (0, demo_shim\<lparr>real_renameat2 := 5, proc := \<lparr>errno = 0, kern = ?k\<rparr>\<rparr>)"
    using genuine_result_passes_through [of 5 0 "\<lparr>errno = 0, kern = ?k\<rparr>" posix
      demo_shim "proc demo_shim" "Some ''b''" "Some ''c''" AT_FDCWD AT_FDCWD 0]
    by (simp add: demo_simps)
  from 1 2 3 4 5 show ?thesis by blast
qed

subsection \<open>The flagged rename across devices\<close>

text \<open>
  C5. Let the genuine \<^verbatim>\<open>renameat2\<close> exist (\<open>f\<close> is not null) and fail with \<^verbatim>\<open>EXDEV\<close>.
  With any non-zero flags the entry point returns the genuine return value and leaves
  the process state, \<^verbatim>\<open>errno\<close> included, as the genuine call left it: no fallback has
  run. With flags equal to zero the result is that of the move-semantics fallback.
\<close>

theorem renameat2_flags_no_fallback:
  assumes "resolve os ''renameat2'' (real_renameat2 sh) (proc sh) = (f, p1)"
    and "f \<noteq> 0"
    and "call_atf os f olddirfd oldpath newdirfd newpath flags p1 = (result, p2)"
    and "result \<noteq> 0" and "errno p2 = EXDEV"
  shows
    "(flags \<noteq> 0 \<longrightarrow>
        renameat2 os olddirfd oldpath newdirfd newpath flags sh =
          Returns (result, sh\<lparr>real_renameat2 := f, proc := p2\<rparr>)) \<and>
     (flags = 0 \<longrightarrow>
        renameat2 os olddirfd oldpath newdirfd newpath flags sh =
          in_shim (sh\<lparr>real_renameat2 := f, proc := p1\<rparr>)
            (fallback_move_at os olddirfd oldpath newdirfd newpath p2))"
  using assms by (auto simp: renameat2_def)

text \<open>
  C5, at a concrete input: \<^verbatim>\<open>renameat2\<close> of \<^verbatim>\<open>a\<close> (device 0) to \<^verbatim>\<open>b\<close> (device 1) with
  flag 1 (\<^verbatim>\<open>RENAME_NOREPLACE\<close>) returns -1 with \<^verbatim>\<open>EXDEV\<close>, the kernel untouched.
\<close>

theorem renameat2_flags_no_fallback_witness:
  "renameat2 posix AT_FDCWD (Some ''a'') AT_FDCWD (Some ''b'') 1 demo_shim =
     Returns (- 1, demo_shim\<lparr>real_renameat2 := 5, proc := \<lparr>errno = EXDEV, kern = demo_kernel\<rparr>\<rparr>)"
  using renameat2_flags_no_fallback [of posix demo_shim 5 "proc demo_shim" AT_FDCWD "Some ''a''"
    AT_FDCWD "Some ''b''" 1 "- 1" "\<lparr>errno = EXDEV, kern = demo_kernel\<rparr>"]
  by (simp add: demo_simps)

subsection \<open>A null address from symbol resolution\<close>

text \<open>
  C7, as the code has it. Only \<^verbatim>\<open>renameat2\<close> tests the resolved address. When the
  resolution of \<^verbatim>\<open>renameat2\<close> yields the null address, the entry point does not call
  through it: with non-zero flags it returns -1 with \<^verbatim>\<open>errno\<close> set to \<^verbatim>\<open>ENOSYS\<close>, and
  with flags equal to zero it does not signal anything but behaves as the \<^verbatim>\<open>renameat\<close>
  entry point on the same arguments.
\<close>

theorem null_renameat2_delegates_or_enosys:
  assumes "resolve os ''renameat2'' (real_renameat2 sh) (proc sh) = (0, p1)"
  shows
    "(flags \<noteq> 0 \<longrightarrow>
        renameat2 os olddirfd oldpath newdirfd newpath flags sh =
          Returns (- 1, sh\<lparr>real_renameat2 := 0, proc := p1\<lparr>errno := ENOSYS\<rparr>\<rparr>)) \<and>
     (flags = 0 \<longrightarrow>
        renameat2 os olddirfd oldpath newdirfd newpath flags sh =
          renameat os olddirfd oldpath newdirfd newpath (sh\<lparr>real_renameat2 := 0, proc := p1\<rparr>))"
  using assms by (auto simp: renameat2_def)

text \<open>
  C7 as amended, at a concrete input: on the system without \<^verbatim>\<open>renameat2\<close>, a call with
  flag 2 (\<^verbatim>\<open>RENAME_EXCHANGE\<close>) returns -1 with \<^verbatim>\<open>ENOSYS\<close>.
\<close>

theorem null_renameat2_delegates_or_enosys_witness:
  "renameat2 posix AT_FDCWD (Some ''a'') AT_FDCWD (Some ''b'') 2 legacy_shim =
     Returns (- 1, legacy_shim\<lparr>proc := \<lparr>errno = ENOSYS, kern = legacy_kernel\<rparr>\<rparr>)"
  using null_renameat2_delegates_or_enosys [of posix legacy_shim "proc legacy_shim" 2 AT_FDCWD
    "Some ''a''" AT_FDCWD "Some ''b''"]
  by (simp add: demo_simps)

text \<open>
  C7 as stated fails. On the system without \<^verbatim>\<open>renameat2\<close>, the call with flags 0 that
  renames \<^verbatim>\<open>b\<close> to \<^verbatim>\<open>c\<close> (same device) does not signal "operation unsupported": it
  returns 0, and \<^verbatim>\<open>errno\<close> stays 0. And where \<^verbatim>\<open>link\<close> resolves to the null address,
  the \<^verbatim>\<open>link\<close> entry point calls through it.
\<close>

theorem null_address_counterexample:
  "returned (renameat2 posix AT_FDCWD (Some ''b'') AT_FDCWD (Some ''c'') 0 legacy_shim) = Some (0, 0) \<and>
   link posix (Some ''a'') (Some ''c'') legacy_shim = NullCall"
  by (simp add: demo_simps renameat2_def renameat_def link_def)
subsection \<open>The calls of a run\<close>

text \<open>
  Every call of \<open>traced os\<close> appends exactly one event, which holds the call, the
  value it returned and the error code it left.
\<close>

lemma traced_open:
  "sys_open (traced os) p f m s = (r, s') \<Longrightarrow>
   history (kern s') = history (kern s) @ [\<lparr>ev_call = Sys_open p f m, ev_ret = r, ev_errno = errno s'\<rparr>]"
  by (auto simp: traced_def relog_def split: prod.splits)

lemma traced_openat:
  "sys_openat (traced os) d p f m s = (r, s') \<Longrightarrow>
   history (kern s') = history (kern s) @ [\<lparr>ev_call = Sys_openat d p f m, ev_ret = r, ev_errno = errno s'\<rparr>]"
  by (auto simp: traced_def relog_def split: prod.splits)

lemma traced_fstat:
  "sys_fstat (traced os) fd s = ((r, st), s') \<Longrightarrow>
   history (kern s') = history (kern s) @ [\<lparr>ev_call = Sys_fstat fd st, ev_ret = r, ev_errno = errno s'\<rparr>]"
  by (auto simp: traced_def relog_def split: prod.splits)

lemma traced_close:
  "sys_close (traced os) fd s = (r, s') \<Longrightarrow>
   history (kern s') = history (kern s) @ [\<lparr>ev_call = Sys_close fd, ev_ret = r, ev_errno = errno s'\<rparr>]"
  by (auto simp: traced_def relog_def split: prod.splits)

lemma traced_dup:
  "sys_dup (traced os) fd s = (r, s') \<Longrightarrow>
   history (kern s') = history (kern s) @ [\<lparr>ev_call = Sys_dup fd, ev_ret = r, ev_errno = errno s'\<rparr>]"
  by (auto simp: traced_def relog_def split: prod.splits)

lemma traced_unlink:
  "sys_unlink (traced os) p s = (r, s') \<Longrightarrow>
   history (kern s') = history (kern s) @ [\<lparr>ev_call = Sys_unlink p, ev_ret = r, ev_errno = errno s'\<rparr>]"
  by (auto simp: traced_def relog_def split: prod.splits)

lemma traced_unlinkat:
  "sys_unlinkat (traced os) d p f s = (r, s') \<Longrightarrow>
   history (kern s') = history (kern s) @ [\<lparr>ev_call = Sys_unlinkat d p f, ev_ret = r, ev_errno = errno s'\<rparr>]"
  by (auto simp: traced_def relog_def split: prod.splits)

lemma traced_sendfile:
  "sys_sendfile (traced os) b a off n s = ((r, off'), s') \<Longrightarrow>
   history (kern s') = history (kern s) @ [\<lparr>ev_call = Sys_sendfile b a off n, ev_ret = r, ev_errno = errno s'\<rparr>]"
  by (auto simp: traced_def relog_def split: prod.splits)

lemma copy_loop_trace_aux:
  assumes run: "copy_loop tos a b off rem s = Some y"
  shows "tos = traced os \<longrightarrow>
   (\<exists>evs. history (kern (snd y)) = history (kern s) @ evs \<and>
     (\<forall>e\<in>set evs. \<exists>off n. ev_call e = Sys_sendfile b a off n) \<and>
     (evs \<noteq> [] \<longrightarrow> ev_call (hd evs) = Sys_sendfile b a off rem) \<and>
     (fst y \<noteq> 0 \<longrightarrow> fst y = - 1 \<and> evs \<noteq> [] \<and> ev_ret (last evs) < 0 \<and>
        ev_errno (last evs) = errno (snd y)) \<and>
     (fst y = 0 \<and> evs = [] \<longrightarrow> rem \<le> 0))"
proof (rule copy_loop.raw_induct [OF _ run, where P = "\<lambda>tos a b off rem s y. tos = traced os \<longrightarrow>
   (\<exists>evs. history (kern (snd y)) = history (kern s) @ evs \<and>
     (\<forall>e\<in>set evs. \<exists>off n. ev_call e = Sys_sendfile b a off n) \<and>
     (evs \<noteq> [] \<longrightarrow> ev_call (hd evs) = Sys_sendfile b a off rem) \<and>
     (fst y \<noteq> 0 \<longrightarrow> fst y = - 1 \<and> evs \<noteq> [] \<and> ev_ret (last evs) < 0 \<and>
        ev_errno (last evs) = errno (snd y)) \<and>
     (fst y = 0 \<and> evs = [] \<longrightarrow> rem \<le> 0))"], intro impI)
  fix f tos a b off rem s y
  assume IH: "\<And>tos a b off rem s y. f tos a b off rem s = Some y \<Longrightarrow> tos = traced os \<longrightarrow>
   (\<exists>evs. history (kern (snd y)) = history (kern s) @ evs \<and>
     (\<forall>e\<in>set evs. \<exists>off n. ev_call e = Sys_sendfile b a off n) \<and>
     (evs \<noteq> [] \<longrightarrow> ev_call (hd evs) = Sys_sendfile b a off rem) \<and>
     (fst y \<noteq> 0 \<longrightarrow> fst y = - 1 \<and> evs \<noteq> [] \<and> ev_ret (last evs) < 0 \<and>
        ev_errno (last evs) = errno (snd y)) \<and>
     (fst y = 0 \<and> evs = [] \<longrightarrow> rem \<le> 0))"
  and body: "(if 0 < rem
      then case sys_sendfile tos b a off rem s of
           ((sent, offset'), s') \<Rightarrow>
             if sent < 0 then Some (- 1, s')
             else f tos a b offset' (rem - sent) s'
      else Some (0, s)) = Some y"
  and tr: "tos = traced os"
  show "\<exists>evs. history (kern (snd y)) = history (kern s) @ evs \<and>
     (\<forall>e\<in>set evs. \<exists>off n. ev_call e = Sys_sendfile b a off n) \<and>
     (evs \<noteq> [] \<longrightarrow> ev_call (hd evs) = Sys_sendfile b a off rem) \<and>
     (fst y \<noteq> 0 \<longrightarrow> fst y = - 1 \<and> evs \<noteq> [] \<and> ev_ret (last evs) < 0 \<and>
        ev_errno (last evs) = errno (snd y)) \<and>
     (fst y = 0 \<and> evs = [] \<longrightarrow> rem \<le> 0)"
  proof (cases "rem > 0")
    case False
    with body show ?thesis by auto
  next
    case True
    obtain sent off' s1 where sf: "sys_sendfile tos b a off rem s = ((sent, off'), s1)"
      by (metis prod.exhaust)
    note h1 = traced_sendfile [OF sf [unfolded tr]]
    let ?e = "\<lparr>ev_call = Sys_sendfile b a off rem, ev_ret = sent, ev_errno = errno s1\<rparr>"
    show ?thesis
    proof (cases "sent < 0")
      case True
      with body \<open>rem > 0\<close> sf have "y = (- 1, s1)" by simp
      with h1 True show ?thesis by (intro exI [of _ "[?e]"]) simp
    next
      case False
      with body \<open>rem > 0\<close> sf have rec: "f tos a b off' (rem - sent) s1 = Some y"
        by simp
      from IH [OF rec] tr obtain evs where
        evs: "history (kern (snd y)) = history (kern s1) @ evs"
          "(\<forall>e\<in>set evs. \<exists>off n. ev_call e = Sys_sendfile b a off n)"
          "fst y \<noteq> 0 \<longrightarrow> fst y = - 1 \<and> evs \<noteq> [] \<and> ev_ret (last evs) < 0 \<and>
             ev_errno (last evs) = errno (snd y)"
        by blast
      have "history (kern (snd y)) = history (kern s) @ (?e # evs)"
        using evs(1) h1 by simp
      moreover have "(\<forall>e\<in>set (?e # evs). \<exists>off n. ev_call e = Sys_sendfile b a off n)" using evs(2) by simp
      ultimately show ?thesis using evs(3)
        by (intro exI [of _ "?e # evs"]) auto
    qed
  qed
qed


lemma copy_loop_trace:
  assumes "copy_loop (traced os) a b off rem s = Some (r, s')"
  obtains evs where "history (kern s') = history (kern s) @ evs"
    and "\<forall>e\<in>set evs. \<exists>off n. ev_call e = Sys_sendfile b a off n"
    and "evs \<noteq> [] \<Longrightarrow> ev_call (hd evs) = Sys_sendfile b a off rem"
    and "r \<noteq> 0 \<Longrightarrow> r = - 1 \<and> evs \<noteq> [] \<and> ev_ret (last evs) < 0 \<and> ev_errno (last evs) = errno s'"
    and "r = 0 \<Longrightarrow> evs = [] \<Longrightarrow> rem \<le> 0"
  using copy_loop_trace_aux [OF assms, of os] by auto

lemma copy_fd_trace:
  assumes "copy_fd (traced os) a b s = Some (r, s')"
  obtains st q xs where "history (kern s') = history (kern s) @ q # xs"
    and "ev_call q = Sys_fstat a st"
    and "\<forall>e\<in>set xs. \<exists>off n. ev_call e = Sys_sendfile b a off n"
    and "r \<noteq> 0 \<Longrightarrow> r = - 1 \<and> failed (last (q # xs)) \<and> ev_errno (last (q # xs)) = errno s'"
    and "r = 0 \<Longrightarrow> ev_ret q = 0 \<and>
           (case xs of [] \<Rightarrow> st_size st \<le> 0 | x # _ \<Rightarrow> ev_call x = Sys_sendfile b a 0 (st_size st))"
proof -
  obtain q st s1 where f: "sys_fstat (traced os) a s = ((q, st), s1)"
    by (metis prod.exhaust)
  note h = traced_fstat [OF f]
  let ?q = "\<lparr>ev_call = Sys_fstat a st, ev_ret = q, ev_errno = errno s1\<rparr>"
  show thesis
  proof (cases "q = 0")
    case False
    with assms f have "r = - 1" "s' = s1" by (auto simp: copy_fd_def)
    with h False show thesis by (intro that [of ?q "[]" st]) auto
  next
    case True
    with assms f have l: "copy_loop (traced os) a b 0 (st_size st) s1 = Some (r, s')"
      by (auto simp: copy_fd_def)
    from copy_loop_trace [OF l] obtain evs where
      evs: "history (kern s') = history (kern s1) @ evs"
        "\<forall>e\<in>set evs. \<exists>off n. ev_call e = Sys_sendfile b a off n"
        "evs \<noteq> [] \<Longrightarrow> ev_call (hd evs) = Sys_sendfile b a 0 (st_size st)"
        "r \<noteq> 0 \<Longrightarrow> r = - 1 \<and> evs \<noteq> [] \<and> ev_ret (last evs) < 0 \<and> ev_errno (last evs) = errno s'"
        "r = 0 \<Longrightarrow> evs = [] \<Longrightarrow> st_size st \<le> 0"
      by blast
    show thesis
    proof (rule that [of ?q evs st])
      show "history (kern s') = history (kern s) @ ?q # evs" using evs(1) h by simp
      show "ev_call ?q = Sys_fstat a st" by simp
      show "\<forall>e\<in>set evs. \<exists>off n. ev_call e = Sys_sendfile b a off n" by (rule evs(2))
      show "r = - 1 \<and> failed (last (?q # evs)) \<and> ev_errno (last (?q # evs)) = errno s'" if "r \<noteq> 0"
      proof -
        from evs(4) [OF that] have ne: "evs \<noteq> []" and l: "ev_ret (last evs) < 0"
          and e: "ev_errno (last evs) = errno s'" and r: "r = - 1" by auto
        from ne evs(2) obtain off n where "ev_call (last evs) = Sys_sendfile b a off n"
          using last_in_set by blast
        with ne l e r show ?thesis by simp
      qed
      show "ev_ret ?q = 0 \<and>
           (case evs of [] \<Rightarrow> st_size st \<le> 0 | x # _ \<Rightarrow> ev_call x = Sys_sendfile b a 0 (st_size st))"
        if "r = 0"
        using True evs(3) evs(5) [OF that] by (cases evs) auto
    qed
  qed
qed

lemma close_saving_trace:
  assumes "close_saving (traced os) fd s = Some (r, s')"
  obtains c where "history (kern s') = history (kern s) @ [c]" and "ev_call c = Sys_close fd"
    and "r = - 1" and "errno s' = errno s"
proof -
  obtain q s1 where f: "sys_close (traced os) fd s = (q, s1)"
    by (metis prod.exhaust)
  note h = traced_close [OF f]
  from assms f have "r = - 1" "s' = s1\<lparr>errno := errno s\<rparr>" by (auto simp: close_saving_def)
  with h show thesis by (intro that [of "\<lparr>ev_call = Sys_close fd, ev_ret = q, ev_errno = errno s1\<rparr>"]) auto
qed

lemma finish_copy_trace:
  assumes "finish_copy (traced os) a b s = Some (r, s')"
  obtains st q xs c1 c2 where "history (kern s') = history (kern s) @ q # xs @ [c1, c2]"
    and "ev_call q = Sys_fstat a st"
    and "\<forall>e\<in>set xs. \<exists>off n. ev_call e = Sys_sendfile b a off n"
    and "ev_call c1 = Sys_close a" and "ev_call c2 = Sys_close b"
    and "r \<noteq> 0 \<Longrightarrow> r = - 1 \<and> failed (last (q # xs)) \<and> ev_errno (last (q # xs)) = errno s'"
    and "r = 0 \<Longrightarrow> ev_ret q = 0 \<and>
           (case xs of [] \<Rightarrow> st_size st \<le> 0 | x # _ \<Rightarrow> ev_call x = Sys_sendfile b a 0 (st_size st))"
proof -
  from assms obtain r1 s1 where c: "copy_fd (traced os) a b s = Some (r1, s1)"
    by (auto simp: finish_copy_def split: option.splits)
  obtain q1 s2 where f1: "sys_close (traced os) a s1 = (q1, s2)" by (metis prod.exhaust)
  obtain q2 s3 where f2: "sys_close (traced os) b s2 = (q2, s3)" by (metis prod.exhaust)
  note h1 = traced_close [OF f1] and h2 = traced_close [OF f2]
  from assms c f1 f2 have res: "r = (if r1 \<noteq> 0 then - 1 else 0)"
    "s' = (if r1 \<noteq> 0 then s3\<lparr>errno := errno s1\<rparr> else s3)"
    by (auto simp: finish_copy_def split: if_splits)
  show thesis
  proof (rule copy_fd_trace [OF c])
    fix st q xs
    assume t: "history (kern s1) = history (kern s) @ q # xs"
      "ev_call q = Sys_fstat a st"
      "\<forall>e\<in>set xs. \<exists>off n. ev_call e = Sys_sendfile b a off n"
      "r1 \<noteq> 0 \<Longrightarrow> r1 = - 1 \<and> failed (last (q # xs)) \<and> ev_errno (last (q # xs)) = errno s1"
      "r1 = 0 \<Longrightarrow> ev_ret q = 0 \<and>
           (case xs of [] \<Rightarrow> st_size st \<le> 0 | x # _ \<Rightarrow> ev_call x = Sys_sendfile b a 0 (st_size st))"
    show thesis
    proof (rule that [of q xs "\<lparr>ev_call = Sys_close a, ev_ret = q1, ev_errno = errno s2\<rparr>"
          "\<lparr>ev_call = Sys_close b, ev_ret = q2, ev_errno = errno s3\<rparr>" st])
      show "history (kern s') = history (kern s) @ q # xs @
         [\<lparr>ev_call = Sys_close a, ev_ret = q1, ev_errno = errno s2\<rparr>,
          \<lparr>ev_call = Sys_close b, ev_ret = q2, ev_errno = errno s3\<rparr>]"
        using res(2) h1 h2 t(1) by simp
      show "r = - 1 \<and> failed (last (q # xs)) \<and> ev_errno (last (q # xs)) = errno s'" if "r \<noteq> 0"
      proof -
        from that res(1) have "r1 \<noteq> 0" by (simp split: if_splits)
        with t(4) res show ?thesis by simp
      qed
      show "ev_ret q = 0 \<and>
             (case xs of [] \<Rightarrow> st_size st \<le> 0 | x # _ \<Rightarrow> ev_call x = Sys_sendfile b a 0 (st_size st))"
        if "r = 0"
      proof -
        from that res(1) have "r1 = 0" by (simp split: if_splits)
        with t(5) show ?thesis by simp
      qed
      show "ev_call q = Sys_fstat a st" by (rule t(2))
      show "\<forall>e\<in>set xs. \<exists>off n. ev_call e = Sys_sendfile b a off n" by (rule t(3))
    qed simp_all
  qed
qed

text \<open>Reading the failing step and the status queries off a history of a known shape.\<close>

lemma failing_step_snoc_close: "is_close c \<Longrightarrow> failing_step (evs @ [c]) = failing_step evs"
  by (simp add: failing_step_def)

lemma failing_step_snoc: "\<not> is_close e \<Longrightarrow> failing_step (evs @ [e]) = Some e"
  by (simp add: failing_step_def)

lemma failing_step_last:
  assumes "xs \<noteq> []" and "\<not> is_close (last xs)"
  shows "failing_step (pre @ xs) = Some (last xs)"
proof -
  have "pre @ xs = (pre @ butlast xs) @ [last xs]" using assms(1) by simp
  then show ?thesis using failing_step_snoc [OF assms(2)] by metis
qed

lemma reports_after_copy:
  assumes "ev_call q = Sys_fstat a st"
    and "\<forall>e\<in>set xs. \<exists>off n. ev_call e = Sys_sendfile b a off n"
    and "ev_call c1 = Sys_close a'" and "ev_call c2 = Sys_close b'"
    and "failed (last (q # xs))" and "ev_errno (last (q # xs)) = err"
  shows "reports_failing_step (pre @ q # xs @ [c1, c2]) err"
proof -
  have "last (q # xs) \<in> set (q # xs)" by (rule last_in_set) simp
  with assms(1,2) have nc: "\<not> is_close (last (q # xs))" by auto
  have "failing_step (pre @ q # xs @ [c1, c2]) = failing_step (((pre @ q # xs) @ [c1]) @ [c2])"
    by simp
  also have "\<dots> = failing_step (pre @ q # xs)"
    using assms(3,4) by (simp only: failing_step_snoc_close is_close.simps syscall.case)
  also have "\<dots> = Some (last (q # xs))"
    by (rule failing_step_last [OF _ nc]) simp
  finally show ?thesis using assms(5,6) by (simp add: reports_failing_step_def)
qed

lemma map_filter_none: "\<forall>x\<in>set xs. f x = None \<Longrightarrow> List.map_filter f xs = []"
  by (induction xs) (auto simp: List.map_filter_simps)

lemma map_filter_app: "List.map_filter f (xs @ ys) = List.map_filter f xs @ List.map_filter f ys"
  by (simp add: List.map_filter_def)

lemma two_status_queries_shape:
  assumes o1: "ev_ret o1 = fd" "stat_query o1 = None" "created_mode o1 = None" "transfer_request o1 = None"
    and q1: "ev_call q1 = Sys_fstat fd st1"
    and mid: "\<forall>e\<in>set mid. stat_query e = None \<and> created_mode e = None \<and> transfer_request e = None"
    and o2: "created_mode o2 = Some (st_mode st1 AND 511)"
    and q2: "ev_call q2 = Sys_fstat fd st2"
    and xs: "\<forall>e\<in>set xs. \<exists>off n. ev_call e = Sys_sendfile b a off n"
    and post: "\<forall>e\<in>set post. stat_query e = None \<and> created_mode e = None \<and> transfer_request e = None"
    and size: "case xs of [] \<Rightarrow> st_size st2 \<le> 0 | x # _ \<Rightarrow> ev_call x = Sys_sendfile b a 0 (st_size st2)"
  shows "two_status_queries (2 + length mid) ([o1, q1] @ mid @ [o2] @ q2 # xs @ post)"
proof -
  let ?evs = "[o1, q1] @ mid @ [o2] @ q2 # xs @ post"
  have n1: "?evs ! 1 = q1" by simp
  have ni: "?evs ! (2 + length mid) = o2" by (simp add: nth_append)
  have nq: "?evs ! Suc (2 + length mid) = q2" by (simp add: nth_append)
  have nx: "xs \<noteq> [] \<Longrightarrow> ?evs ! (2 + length mid + 2) = hd xs"
    by (cases xs) (simp_all add: nth_append)
  have o2': "stat_query o2 = None" "transfer_request o2 = None"
    using o2 by (auto split: syscall.splits)
  have mq: "List.map_filter stat_query mid = []" "List.map_filter created_mode mid = []"
    "List.map_filter transfer_request mid = []"
    using mid by (simp_all add: map_filter_none)
  have pq: "List.map_filter stat_query post = []" "List.map_filter created_mode post = []"
    "List.map_filter transfer_request post = []"
    using post by (simp_all add: map_filter_none)
  have xq: "List.map_filter stat_query xs = []" "List.map_filter created_mode xs = []"
    using xs by (auto intro!: map_filter_none)
  have sq: "List.map_filter stat_query ?evs = [(fd, st1), (fd, st2)]"
    using o1 q1 o2' q2 by (simp add: map_filter_app List.map_filter_simps mq pq xq)
  have cq: "List.map_filter created_mode ?evs = [st_mode st1 AND 511]"
    using o1 q1 o2 q2 by (simp add: map_filter_app List.map_filter_simps mq pq xq)
  have tq: "List.map_filter transfer_request ?evs = List.map_filter transfer_request xs"
    using o1 q1 o2' q2 by (simp add: map_filter_app List.map_filter_simps mq pq xq)
  have tx: "case List.map_filter transfer_request xs of
              [] \<Rightarrow> st_size st2 \<le> 0
            | (off, n) # _ \<Rightarrow> off = 0 \<and> n = st_size st2 \<and>
                transfer_request (?evs ! (2 + length mid + 2)) = Some (off, n)"
  proof (cases xs)
    case Nil
    with size show ?thesis by (simp add: List.map_filter_simps)
  next
    case (Cons x xs')
    with size nx show ?thesis by (simp add: List.map_filter_simps)
  qed
  show ?thesis
    unfolding two_status_queries_def
    using n1 ni nq q1 q2 o1(1) sq cq o2 tx
    by (simp only: tq) (simp add: nth_append)
qed

lemmas flag_defs = O_RDONLY_def O_WRONLY_def O_CREAT_def O_EXCL_def O_TRUNC_def O_CLOEXEC_def

lemma reports_single: "failed e \<Longrightarrow> \<not> is_close e \<Longrightarrow> ev_errno e = err \<Longrightarrow>
    reports_failing_step (pre @ [e]) err"
  by (simp add: reports_failing_step_def failing_step_snoc)

lemma reports_then_close: "is_close c \<Longrightarrow> reports_failing_step evs err \<Longrightarrow>
    reports_failing_step (evs @ [c]) err"
  by (simp add: reports_failing_step_def failing_step_snoc_close)

lemma new_events_app: "history (kern s') = history (kern s) @ evs \<Longrightarrow> new_events s s' = evs"
  by (simp add: new_events_def)

text \<open>
  The events of each of the five copying bodies of the source: the four fallback
  functions and the inline body of \<^verbatim>\<open>linkat\<close>. Every event is a call on the file
  system; a run that fails reports its failing step; a run that succeeds has made two
  status queries.
\<close>

lemma fallback_copy_from_path_trace:
  assumes run: "fallback_copy_from_path (traced os) old new s = Some (r, s')"
  shows "\<exists>evs. history (kern s') = history (kern s) @ evs \<and> (\<forall>e\<in>set evs. fs_call e) \<and>
     (r \<noteq> 0 \<longrightarrow> reports_failing_step evs (errno s')) \<and>
     (r = 0 \<longrightarrow> two_status_queries 2 evs)"
proof -
  obtain fd s1 where o: "sys_open (traced os) old (O_RDONLY OR O_CLOEXEC) 0 s = (fd, s1)"
    by (metis prod.exhaust)
  let ?o = "\<lparr>ev_call = Sys_open old (O_RDONLY OR O_CLOEXEC) 0, ev_ret = fd, ev_errno = errno s1\<rparr>"
  note ho = traced_open [OF o]
  show ?thesis
  proof (cases "fd < 0")
    case True
    with run o have "r = - 1" "s' = s1" by (auto simp: fallback_copy_from_path_def)
    with ho True show ?thesis
      by (intro exI [of _ "[?o]"]) (simp add: reports_single [of _ _ "[]", simplified])
  next
    case open_ok: False
    obtain q st s2 where f: "sys_fstat (traced os) fd s1 = ((q, st), s2)"
      by (metis prod.exhaust)
    let ?q = "\<lparr>ev_call = Sys_fstat fd st, ev_ret = q, ev_errno = errno s2\<rparr>"
    note hf = traced_fstat [OF f]
    show ?thesis
    proof (cases "q = 0")
      case False
      with run o open_ok f have cs: "close_saving (traced os) fd s2 = Some (r, s')"
        by (simp add: fallback_copy_from_path_def)
      show ?thesis
      proof (rule close_saving_trace [OF cs])
        fix c assume c: "history (kern s') = history (kern s2) @ [c]" "ev_call c = Sys_close fd"
          "r = - 1" "errno s' = errno s2"
        have "reports_failing_step (([?o] @ [?q]) @ [c]) (errno s')"
          using False c by (intro reports_then_close reports_single) simp_all
        with c ho hf show ?thesis by (intro exI [of _ "[?o, ?q, c]"]) simp
      qed
    next
      case stat_ok: True
      obtain dfd s3 where d: "sys_open (traced os) new (O_WRONLY OR O_CREAT OR O_EXCL OR O_CLOEXEC)
          (st_mode st AND 511) s2 = (dfd, s3)"
        by (metis prod.exhaust)
      let ?d = "\<lparr>ev_call = Sys_open new (O_WRONLY OR O_CREAT OR O_EXCL OR O_CLOEXEC) (st_mode st AND 511),
          ev_ret = dfd, ev_errno = errno s3\<rparr>"
      note hd = traced_open [OF d]
      show ?thesis
      proof (cases "dfd < 0")
        case True
        with run o open_ok f stat_ok d have cs: "close_saving (traced os) fd s3 = Some (r, s')"
          by (simp add: fallback_copy_from_path_def)
        show ?thesis
        proof (rule close_saving_trace [OF cs])
          fix c assume c: "history (kern s') = history (kern s3) @ [c]" "ev_call c = Sys_close fd"
            "r = - 1" "errno s' = errno s3"
          have "reports_failing_step (([?o, ?q] @ [?d]) @ [c]) (errno s')"
            using True c by (intro reports_then_close reports_single) simp_all
          with c ho hf hd show ?thesis by (intro exI [of _ "[?o, ?q, ?d, c]"]) simp
        qed
      next
        case False
        with run o open_ok f stat_ok d have fc: "finish_copy (traced os) fd dfd s3 = Some (r, s')"
          by (simp add: fallback_copy_from_path_def)
        show ?thesis
        proof (rule finish_copy_trace [OF fc])
          fix st2 q2 xs c1 c2
          assume t: "history (kern s') = history (kern s3) @ q2 # xs @ [c1, c2]"
            "ev_call q2 = Sys_fstat fd st2"
            "\<forall>e\<in>set xs. \<exists>off n. ev_call e = Sys_sendfile dfd fd off n"
            "ev_call c1 = Sys_close fd" "ev_call c2 = Sys_close dfd"
            "r \<noteq> 0 \<Longrightarrow> r = - 1 \<and> failed (last (q2 # xs)) \<and> ev_errno (last (q2 # xs)) = errno s'"
            "r = 0 \<Longrightarrow> ev_ret q2 = 0 \<and>
               (case xs of [] \<Rightarrow> st_size st2 \<le> 0 | x # _ \<Rightarrow> ev_call x = Sys_sendfile dfd fd 0 (st_size st2))"
          let ?evs = "[?o, ?q, ?d] @ q2 # xs @ [c1, c2]"
          have 1: "history (kern s') = history (kern s) @ ?evs"
            using t(1) ho hf hd by simp
          have 2: "\<forall>e\<in>set ?evs. fs_call e"
            using t(2-5) by auto
          have 3: "reports_failing_step ?evs (errno s')" if "r \<noteq> 0"
            using t(6) [OF that] by (intro reports_after_copy [OF t(2) t(3) t(4) t(5)]) simp_all
          have 4: "two_status_queries 2 ?evs" if "r = 0"
            using two_status_queries_shape [of ?o fd ?q st "[]" ?d q2 st2 xs dfd fd "[c1, c2]"]
              t(2-5) t(7) [OF that]
            by (simp add: flag_defs)
          from 1 2 3 4 show ?thesis by blast
        qed
      qed
    qed
  qed
qed

lemma fallback_copy_from_fd_trace:
  assumes run: "fallback_copy_from_fd (traced os) fd_in nd new s = Some (r, s')"
  shows "\<exists>evs. history (kern s') = history (kern s) @ evs \<and> (\<forall>e\<in>set evs. fs_call e) \<and>
     (r \<noteq> 0 \<longrightarrow> reports_failing_step evs (errno s')) \<and>
     (r = 0 \<longrightarrow> two_status_queries 2 evs)"
proof -
  obtain fd s1 where o: "sys_dup (traced os) fd_in s = (fd, s1)"
    by (metis prod.exhaust)
  let ?o = "\<lparr>ev_call = Sys_dup fd_in, ev_ret = fd, ev_errno = errno s1\<rparr>"
  note ho = traced_dup [OF o]
  show ?thesis
  proof (cases "fd < 0")
    case True
    with run o have "r = - 1" "s' = s1" by (auto simp: fallback_copy_from_fd_def)
    with ho True show ?thesis
      by (intro exI [of _ "[?o]"]) (simp add: reports_single [of _ _ "[]", simplified])
  next
    case open_ok: False
    obtain q st s2 where f: "sys_fstat (traced os) fd s1 = ((q, st), s2)"
      by (metis prod.exhaust)
    let ?q = "\<lparr>ev_call = Sys_fstat fd st, ev_ret = q, ev_errno = errno s2\<rparr>"
    note hf = traced_fstat [OF f]
    show ?thesis
    proof (cases "q = 0")
      case False
      with run o open_ok f have cs: "close_saving (traced os) fd s2 = Some (r, s')"
        by (simp add: fallback_copy_from_fd_def)
      show ?thesis
      proof (rule close_saving_trace [OF cs])
        fix c assume c: "history (kern s') = history (kern s2) @ [c]" "ev_call c = Sys_close fd"
          "r = - 1" "errno s' = errno s2"
        have "reports_failing_step (([?o] @ [?q]) @ [c]) (errno s')"
          using False c by (intro reports_then_close reports_single) simp_all
        with c ho hf show ?thesis by (intro exI [of _ "[?o, ?q, c]"]) simp
      qed
    next
      case stat_ok: True
      obtain dfd s3 where d: "sys_openat (traced os) nd new (O_WRONLY OR O_CREAT OR O_EXCL OR O_CLOEXEC)
          (st_mode st AND 511) s2 = (dfd, s3)"
        by (metis prod.exhaust)
      let ?d = "\<lparr>ev_call = Sys_openat nd new (O_WRONLY OR O_CREAT OR O_EXCL OR O_CLOEXEC) (st_mode st AND 511),
          ev_ret = dfd, ev_errno = errno s3\<rparr>"
      note hd = traced_openat [OF d]
      show ?thesis
      proof (cases "dfd < 0")
        case True
        with run o open_ok f stat_ok d have cs: "close_saving (traced os) fd s3 = Some (r, s')"
          by (simp add: fallback_copy_from_fd_def)
        show ?thesis
        proof (rule close_saving_trace [OF cs])
          fix c assume c: "history (kern s') = history (kern s3) @ [c]" "ev_call c = Sys_close fd"
            "r = - 1" "errno s' = errno s3"
          have "reports_failing_step (([?o, ?q] @ [?d]) @ [c]) (errno s')"
            using True c by (intro reports_then_close reports_single) simp_all
          with c ho hf hd show ?thesis by (intro exI [of _ "[?o, ?q, ?d, c]"]) simp
        qed
      next
        case False
        with run o open_ok f stat_ok d have fc: "finish_copy (traced os) fd dfd s3 = Some (r, s')"
          by (simp add: fallback_copy_from_fd_def)
        show ?thesis
        proof (rule finish_copy_trace [OF fc])
          fix st2 q2 xs c1 c2
          assume t: "history (kern s') = history (kern s3) @ q2 # xs @ [c1, c2]"
            "ev_call q2 = Sys_fstat fd st2"
            "\<forall>e\<in>set xs. \<exists>off n. ev_call e = Sys_sendfile dfd fd off n"
            "ev_call c1 = Sys_close fd" "ev_call c2 = Sys_close dfd"
            "r \<noteq> 0 \<Longrightarrow> r = - 1 \<and> failed (last (q2 # xs)) \<and> ev_errno (last (q2 # xs)) = errno s'"
            "r = 0 \<Longrightarrow> ev_ret q2 = 0 \<and>
               (case xs of [] \<Rightarrow> st_size st2 \<le> 0 | x # _ \<Rightarrow> ev_call x = Sys_sendfile dfd fd 0 (st_size st2))"
          let ?evs = "[?o, ?q, ?d] @ q2 # xs @ [c1, c2]"
          have 1: "history (kern s') = history (kern s) @ ?evs"
            using t(1) ho hf hd by simp
          have 2: "\<forall>e\<in>set ?evs. fs_call e"
            using t(2-5) by auto
          have 3: "reports_failing_step ?evs (errno s')" if "r \<noteq> 0"
            using t(6) [OF that] by (intro reports_after_copy [OF t(2) t(3) t(4) t(5)]) simp_all
          have 4: "two_status_queries 2 ?evs" if "r = 0"
            using two_status_queries_shape [of ?o fd ?q st "[]" ?d q2 st2 xs dfd fd "[c1, c2]"]
              t(2-5) t(7) [OF that]
            by (simp add: flag_defs)
          from 1 2 3 4 show ?thesis by blast
        qed
      qed
    qed
  qed
qed

lemma linkat_body_trace:
  assumes run: "(case sys_openat (traced os) od old (O_RDONLY OR O_CLOEXEC) 0 s of
             (src_fd, s1) \<Rightarrow>
               if src_fd < 0 then Some (- 1, s1)
               else (case sys_fstat (traced os) src_fd s1 of
                 ((r, st), s2) \<Rightarrow>
                   if r \<noteq> 0 then close_saving (traced os) src_fd s2
                   else (case sys_openat (traced os) nd new
                                (O_WRONLY OR O_CREAT OR O_EXCL OR O_CLOEXEC)
                                (st_mode st AND 511) s2 of
                     (dst_fd, s3) \<Rightarrow>
                       if dst_fd < 0 then close_saving (traced os) src_fd s3
                       else finish_copy (traced os) src_fd dst_fd s3))) = Some (r, s')"
  shows "\<exists>evs. history (kern s') = history (kern s) @ evs \<and> (\<forall>e\<in>set evs. fs_call e) \<and>
     (r \<noteq> 0 \<longrightarrow> reports_failing_step evs (errno s')) \<and>
     (r = 0 \<longrightarrow> two_status_queries 2 evs)"
proof -
  obtain fd s1 where o: "sys_openat (traced os) od old (O_RDONLY OR O_CLOEXEC) 0 s = (fd, s1)"
    by (metis prod.exhaust)
  let ?o = "\<lparr>ev_call = Sys_openat od old (O_RDONLY OR O_CLOEXEC) 0, ev_ret = fd, ev_errno = errno s1\<rparr>"
  note ho = traced_openat [OF o]
  show ?thesis
  proof (cases "fd < 0")
    case True
    with run o have "r = - 1" "s' = s1" by auto
    with ho True show ?thesis
      by (intro exI [of _ "[?o]"]) (simp add: reports_single [of _ _ "[]", simplified])
  next
    case open_ok: False
    obtain q st s2 where f: "sys_fstat (traced os) fd s1 = ((q, st), s2)"
      by (metis prod.exhaust)
    let ?q = "\<lparr>ev_call = Sys_fstat fd st, ev_ret = q, ev_errno = errno s2\<rparr>"
    note hf = traced_fstat [OF f]
    show ?thesis
    proof (cases "q = 0")
      case False
      with run o open_ok f have cs: "close_saving (traced os) fd s2 = Some (r, s')"
        by simp
      show ?thesis
      proof (rule close_saving_trace [OF cs])
        fix c assume c: "history (kern s') = history (kern s2) @ [c]" "ev_call c = Sys_close fd"
          "r = - 1" "errno s' = errno s2"
        have "reports_failing_step (([?o] @ [?q]) @ [c]) (errno s')"
          using False c by (intro reports_then_close reports_single) simp_all
        with c ho hf show ?thesis by (intro exI [of _ "[?o, ?q, c]"]) simp
      qed
    next
      case stat_ok: True
      obtain dfd s3 where d: "sys_openat (traced os) nd new (O_WRONLY OR O_CREAT OR O_EXCL OR O_CLOEXEC)
          (st_mode st AND 511) s2 = (dfd, s3)"
        by (metis prod.exhaust)
      let ?d = "\<lparr>ev_call = Sys_openat nd new (O_WRONLY OR O_CREAT OR O_EXCL OR O_CLOEXEC) (st_mode st AND 511),
          ev_ret = dfd, ev_errno = errno s3\<rparr>"
      note hd = traced_openat [OF d]
      show ?thesis
      proof (cases "dfd < 0")
        case True
        with run o open_ok f stat_ok d have cs: "close_saving (traced os) fd s3 = Some (r, s')"
          by simp
        show ?thesis
        proof (rule close_saving_trace [OF cs])
          fix c assume c: "history (kern s') = history (kern s3) @ [c]" "ev_call c = Sys_close fd"
            "r = - 1" "errno s' = errno s3"
          have "reports_failing_step (([?o, ?q] @ [?d]) @ [c]) (errno s')"
            using True c by (intro reports_then_close reports_single) simp_all
          with c ho hf hd show ?thesis by (intro exI [of _ "[?o, ?q, ?d, c]"]) simp
        qed
      next
        case False
        with run o open_ok f stat_ok d have fc: "finish_copy (traced os) fd dfd s3 = Some (r, s')"
          by simp
        show ?thesis
        proof (rule finish_copy_trace [OF fc])
          fix st2 q2 xs c1 c2
          assume t: "history (kern s') = history (kern s3) @ q2 # xs @ [c1, c2]"
            "ev_call q2 = Sys_fstat fd st2"
            "\<forall>e\<in>set xs. \<exists>off n. ev_call e = Sys_sendfile dfd fd off n"
            "ev_call c1 = Sys_close fd" "ev_call c2 = Sys_close dfd"
            "r \<noteq> 0 \<Longrightarrow> r = - 1 \<and> failed (last (q2 # xs)) \<and> ev_errno (last (q2 # xs)) = errno s'"
            "r = 0 \<Longrightarrow> ev_ret q2 = 0 \<and>
               (case xs of [] \<Rightarrow> st_size st2 \<le> 0 | x # _ \<Rightarrow> ev_call x = Sys_sendfile dfd fd 0 (st_size st2))"
          let ?evs = "[?o, ?q, ?d] @ q2 # xs @ [c1, c2]"
          have 1: "history (kern s') = history (kern s) @ ?evs"
            using t(1) ho hf hd by simp
          have 2: "\<forall>e\<in>set ?evs. fs_call e"
            using t(2-5) by auto
          have 3: "reports_failing_step ?evs (errno s')" if "r \<noteq> 0"
            using t(6) [OF that] by (intro reports_after_copy [OF t(2) t(3) t(4) t(5)]) simp_all
          have 4: "two_status_queries 2 ?evs" if "r = 0"
            using two_status_queries_shape [of ?o fd ?q st "[]" ?d q2 st2 xs dfd fd "[c1, c2]"]
              t(2-5) t(7) [OF that]
            by (simp add: flag_defs)
          from 1 2 3 4 show ?thesis by blast
        qed
      qed
    qed
  qed
qed

lemma fallback_move_from_path_trace:
  assumes run: "fallback_move_from_path (traced os) old new s = Some (r, s')"
  shows "\<exists>evs. history (kern s') = history (kern s) @ evs \<and> (\<forall>e\<in>set evs. fs_call e) \<and>
     (r \<noteq> 0 \<longrightarrow> reports_failing_step evs (errno s')) \<and>
     (r = 0 \<longrightarrow> two_status_queries 3 evs)"
proof -
  obtain fd s1 where o: "sys_open (traced os) old (O_RDONLY OR O_CLOEXEC) 0 s = (fd, s1)"
    by (metis prod.exhaust)
  let ?o = "\<lparr>ev_call = Sys_open old (O_RDONLY OR O_CLOEXEC) 0, ev_ret = fd, ev_errno = errno s1\<rparr>"
  note ho = traced_open [OF o]
  show ?thesis
  proof (cases "fd < 0")
    case True
    with run o have "r = - 1" "s' = s1" by (auto simp: fallback_move_from_path_def)
    with ho True show ?thesis
      by (intro exI [of _ "[?o]"]) (simp add: reports_single [of _ _ "[]", simplified])
  next
    case open_ok: False
    obtain q st s2 where f: "sys_fstat (traced os) fd s1 = ((q, st), s2)"
      by (metis prod.exhaust)
    let ?q = "\<lparr>ev_call = Sys_fstat fd st, ev_ret = q, ev_errno = errno s2\<rparr>"
    note hf = traced_fstat [OF f]
    show ?thesis
    proof (cases "q = 0")
      case False
      with run o open_ok f have cs: "close_saving (traced os) fd s2 = Some (r, s')"
        by (simp add: fallback_move_from_path_def)
      show ?thesis
      proof (rule close_saving_trace [OF cs])
        fix c assume c: "history (kern s') = history (kern s2) @ [c]" "ev_call c = Sys_close fd"
          "r = - 1" "errno s' = errno s2"
        have "reports_failing_step (([?o] @ [?q]) @ [c]) (errno s')"
          using False c by (intro reports_then_close reports_single) simp_all
        with c ho hf show ?thesis by (intro exI [of _ "[?o, ?q, c]"]) simp
      qed
    next
      case stat_ok: True
      obtain u s3 where un: "sys_unlink (traced os) new s2 = (u, s3)"
        by (metis prod.exhaust)
      let ?u = "\<lparr>ev_call = Sys_unlink new, ev_ret = u, ev_errno = errno s3\<rparr>"
      note hu = traced_unlink [OF un]
      show ?thesis
      proof (cases "u \<noteq> 0 \<and> errno s3 \<noteq> ENOENT")
        case True
        with run o open_ok f stat_ok un have cs: "close_saving (traced os) fd s3 = Some (r, s')"
          by (simp add: fallback_move_from_path_def)
        show ?thesis
        proof (rule close_saving_trace [OF cs])
          fix c assume c: "history (kern s') = history (kern s3) @ [c]" "ev_call c = Sys_close fd"
            "r = - 1" "errno s' = errno s3"
          have "reports_failing_step (([?o, ?q] @ [?u]) @ [c]) (errno s')"
            using True c by (intro reports_then_close reports_single) simp_all
          with c ho hf hu show ?thesis by (intro exI [of _ "[?o, ?q, ?u, c]"]) simp
        qed
      next
        case unlink_ok: False
        obtain dfd s4 where d: "sys_open (traced os) new (O_WRONLY OR O_CREAT OR O_TRUNC OR O_CLOEXEC)
            (st_mode st AND 511) s3 = (dfd, s4)"
          by (metis prod.exhaust)
        let ?d = "\<lparr>ev_call = Sys_open new (O_WRONLY OR O_CREAT OR O_TRUNC OR O_CLOEXEC) (st_mode st AND 511),
            ev_ret = dfd, ev_errno = errno s4\<rparr>"
        note hd = traced_open [OF d]
        show ?thesis
        proof (cases "dfd < 0")
          case True
          with run o open_ok f stat_ok un unlink_ok d
          have cs: "close_saving (traced os) fd s4 = Some (r, s')"
            by (simp add: fallback_move_from_path_def)
          show ?thesis
          proof (rule close_saving_trace [OF cs])
            fix c assume c: "history (kern s') = history (kern s4) @ [c]" "ev_call c = Sys_close fd"
              "r = - 1" "errno s' = errno s4"
            have "reports_failing_step (([?o, ?q, ?u] @ [?d]) @ [c]) (errno s')"
              using True c by (intro reports_then_close reports_single) simp_all
            with c ho hf hu hd show ?thesis by (intro exI [of _ "[?o, ?q, ?u, ?d, c]"]) simp
          qed
        next
          case False
          with run o open_ok f stat_ok un unlink_ok d
          obtain r1 s5 where fc: "finish_copy (traced os) fd dfd s4 = Some (r1, s5)"
            by (cases "finish_copy (traced os) fd dfd s4") (auto simp: fallback_move_from_path_def)
          obtain u2 s6 where un2: "sys_unlink (traced os) old s5 = (u2, s6)"
            by (metis prod.exhaust)
          let ?u2 = "\<lparr>ev_call = Sys_unlink old, ev_ret = u2, ev_errno = errno s6\<rparr>"
          note hu2 = traced_unlink [OF un2]
          from run o open_ok f stat_ok un unlink_ok d False fc un2
          have res: "r = (if r1 \<noteq> 0 \<or> u2 \<noteq> 0 then - 1 else 0)"
            "s' = (if r1 \<noteq> 0 then s5 else s6)"
            by (auto simp: fallback_move_from_path_def split: if_splits)
          show ?thesis
          proof (rule finish_copy_trace [OF fc])
            fix st2 q2 xs c1 c2
            assume t: "history (kern s5) = history (kern s4) @ q2 # xs @ [c1, c2]"
              "ev_call q2 = Sys_fstat fd st2"
              "\<forall>e\<in>set xs. \<exists>off n. ev_call e = Sys_sendfile dfd fd off n"
              "ev_call c1 = Sys_close fd" "ev_call c2 = Sys_close dfd"
              "r1 \<noteq> 0 \<Longrightarrow> r1 = - 1 \<and> failed (last (q2 # xs)) \<and> ev_errno (last (q2 # xs)) = errno s5"
              "r1 = 0 \<Longrightarrow> ev_ret q2 = 0 \<and>
                 (case xs of [] \<Rightarrow> st_size st2 \<le> 0 | x # _ \<Rightarrow> ev_call x = Sys_sendfile dfd fd 0 (st_size st2))"
            let ?evs = "[?o, ?q, ?u, ?d] @ q2 # xs @ [c1, c2]"
            have fs: "\<forall>e\<in>set ?evs. fs_call e"
              using t(2-5) by auto
            show ?thesis
            proof (cases "r1 = 0")
              case False
              have "reports_failing_step ?evs (errno s5)"
                using t(6) [OF False]
                by (intro reports_after_copy [OF t(2) t(3) t(4) t(5)]) simp_all
              moreover have "history (kern s') = history (kern s) @ ?evs"
                using False res t(1) ho hf hu hd by simp
              ultimately show ?thesis using False res fs by (intro exI [of _ ?evs]) simp
            next
              case copied: True
              have h: "history (kern s') = history (kern s) @ ?evs @ [?u2]"
                using copied res t(1) ho hf hu hd hu2 by simp
              have fs2: "\<forall>e\<in>set (?evs @ [?u2]). fs_call e" using fs by simp
              have 3: "reports_failing_step (?evs @ [?u2]) (errno s')" if "r \<noteq> 0"
                using that copied res by (intro reports_single) (simp_all split: if_splits)
              have 4: "two_status_queries 3 (?evs @ [?u2])" if "r = 0"
                using two_status_queries_shape [of ?o fd ?q st "[?u]" ?d q2 st2 xs dfd fd "[c1, c2, ?u2]"]
                  t(2-5) t(7) [OF copied]
                by (simp add: flag_defs)
              from h fs2 3 4 show ?thesis by blast
            qed
          qed
        qed
      qed
    qed
  qed
qed

lemma fallback_move_at_trace:
  assumes run: "fallback_move_at (traced os) od old nd new s = Some (r, s')"
  shows "\<exists>evs. history (kern s') = history (kern s) @ evs \<and> (\<forall>e\<in>set evs. fs_call e) \<and>
     (r \<noteq> 0 \<longrightarrow> reports_failing_step evs (errno s')) \<and>
     (r = 0 \<longrightarrow> two_status_queries 3 evs)"
proof -
  obtain fd s1 where o: "sys_openat (traced os) od old (O_RDONLY OR O_CLOEXEC) 0 s = (fd, s1)"
    by (metis prod.exhaust)
  let ?o = "\<lparr>ev_call = Sys_openat od old (O_RDONLY OR O_CLOEXEC) 0, ev_ret = fd, ev_errno = errno s1\<rparr>"
  note ho = traced_openat [OF o]
  show ?thesis
  proof (cases "fd < 0")
    case True
    with run o have "r = - 1" "s' = s1" by (auto simp: fallback_move_at_def)
    with ho True show ?thesis
      by (intro exI [of _ "[?o]"]) (simp add: reports_single [of _ _ "[]", simplified])
  next
    case open_ok: False
    obtain q st s2 where f: "sys_fstat (traced os) fd s1 = ((q, st), s2)"
      by (metis prod.exhaust)
    let ?q = "\<lparr>ev_call = Sys_fstat fd st, ev_ret = q, ev_errno = errno s2\<rparr>"
    note hf = traced_fstat [OF f]
    show ?thesis
    proof (cases "q = 0")
      case False
      with run o open_ok f have cs: "close_saving (traced os) fd s2 = Some (r, s')"
        by (simp add: fallback_move_at_def)
      show ?thesis
      proof (rule close_saving_trace [OF cs])
        fix c assume c: "history (kern s') = history (kern s2) @ [c]" "ev_call c = Sys_close fd"
          "r = - 1" "errno s' = errno s2"
        have "reports_failing_step (([?o] @ [?q]) @ [c]) (errno s')"
          using False c by (intro reports_then_close reports_single) simp_all
        with c ho hf show ?thesis by (intro exI [of _ "[?o, ?q, c]"]) simp
      qed
    next
      case stat_ok: True
      obtain u s3 where un: "sys_unlinkat (traced os) nd new 0 s2 = (u, s3)"
        by (metis prod.exhaust)
      let ?u = "\<lparr>ev_call = Sys_unlinkat nd new 0, ev_ret = u, ev_errno = errno s3\<rparr>"
      note hu = traced_unlinkat [OF un]
      show ?thesis
      proof (cases "u \<noteq> 0 \<and> errno s3 \<noteq> ENOENT")
        case True
        with run o open_ok f stat_ok un have cs: "close_saving (traced os) fd s3 = Some (r, s')"
          by (simp add: fallback_move_at_def)
        show ?thesis
        proof (rule close_saving_trace [OF cs])
          fix c assume c: "history (kern s') = history (kern s3) @ [c]" "ev_call c = Sys_close fd"
            "r = - 1" "errno s' = errno s3"
          have "reports_failing_step (([?o, ?q] @ [?u]) @ [c]) (errno s')"
            using True c by (intro reports_then_close reports_single) simp_all
          with c ho hf hu show ?thesis by (intro exI [of _ "[?o, ?q, ?u, c]"]) simp
        qed
      next
        case unlink_ok: False
        obtain dfd s4 where d: "sys_openat (traced os) nd new (O_WRONLY OR O_CREAT OR O_TRUNC OR O_CLOEXEC)
            (st_mode st AND 511) s3 = (dfd, s4)"
          by (metis prod.exhaust)
        let ?d = "\<lparr>ev_call = Sys_openat nd new (O_WRONLY OR O_CREAT OR O_TRUNC OR O_CLOEXEC) (st_mode st AND 511),
            ev_ret = dfd, ev_errno = errno s4\<rparr>"
        note hd = traced_openat [OF d]
        show ?thesis
        proof (cases "dfd < 0")
          case True
          with run o open_ok f stat_ok un unlink_ok d
          have cs: "close_saving (traced os) fd s4 = Some (r, s')"
            by (simp add: fallback_move_at_def)
          show ?thesis
          proof (rule close_saving_trace [OF cs])
            fix c assume c: "history (kern s') = history (kern s4) @ [c]" "ev_call c = Sys_close fd"
              "r = - 1" "errno s' = errno s4"
            have "reports_failing_step (([?o, ?q, ?u] @ [?d]) @ [c]) (errno s')"
              using True c by (intro reports_then_close reports_single) simp_all
            with c ho hf hu hd show ?thesis by (intro exI [of _ "[?o, ?q, ?u, ?d, c]"]) simp
          qed
        next
          case False
          with run o open_ok f stat_ok un unlink_ok d
          obtain r1 s5 where fc: "finish_copy (traced os) fd dfd s4 = Some (r1, s5)"
            by (cases "finish_copy (traced os) fd dfd s4") (auto simp: fallback_move_at_def)
          obtain u2 s6 where un2: "sys_unlinkat (traced os) od old 0 s5 = (u2, s6)"
            by (metis prod.exhaust)
          let ?u2 = "\<lparr>ev_call = Sys_unlinkat od old 0, ev_ret = u2, ev_errno = errno s6\<rparr>"
          note hu2 = traced_unlinkat [OF un2]
          from run o open_ok f stat_ok un unlink_ok d False fc un2
          have res: "r = (if r1 \<noteq> 0 \<or> u2 \<noteq> 0 then - 1 else 0)"
            "s' = (if r1 \<noteq> 0 then s5 else s6)"
            by (auto simp: fallback_move_at_def split: if_splits)
          show ?thesis
          proof (rule finish_copy_trace [OF fc])
            fix st2 q2 xs c1 c2
            assume t: "history (kern s5) = history (kern s4) @ q2 # xs @ [c1, c2]"
              "ev_call q2 = Sys_fstat fd st2"
              "\<forall>e\<in>set xs. \<exists>off n. ev_call e = Sys_sendfile dfd fd off n"
              "ev_call c1 = Sys_close fd" "ev_call c2 = Sys_close dfd"
              "r1 \<noteq> 0 \<Longrightarrow> r1 = - 1 \<and> failed (last (q2 # xs)) \<and> ev_errno (last (q2 # xs)) = errno s5"
              "r1 = 0 \<Longrightarrow> ev_ret q2 = 0 \<and>
                 (case xs of [] \<Rightarrow> st_size st2 \<le> 0 | x # _ \<Rightarrow> ev_call x = Sys_sendfile dfd fd 0 (st_size st2))"
            let ?evs = "[?o, ?q, ?u, ?d] @ q2 # xs @ [c1, c2]"
            have fs: "\<forall>e\<in>set ?evs. fs_call e"
              using t(2-5) by auto
            show ?thesis
            proof (cases "r1 = 0")
              case False
              have "reports_failing_step ?evs (errno s5)"
                using t(6) [OF False]
                by (intro reports_after_copy [OF t(2) t(3) t(4) t(5)]) simp_all
              moreover have "history (kern s') = history (kern s) @ ?evs"
                using False res t(1) ho hf hu hd by simp
              ultimately show ?thesis using False res fs by (intro exI [of _ ?evs]) simp
            next
              case copied: True
              have h: "history (kern s') = history (kern s) @ ?evs @ [?u2]"
                using copied res t(1) ho hf hu hd hu2 by simp
              have fs2: "\<forall>e\<in>set (?evs @ [?u2]). fs_call e" using fs by simp
              have 3: "reports_failing_step (?evs @ [?u2]) (errno s')" if "r \<noteq> 0"
                using that copied res by (intro reports_single) (simp_all split: if_splits)
              have 4: "two_status_queries 3 (?evs @ [?u2])" if "r = 0"
                using two_status_queries_shape [of ?o fd ?q st "[?u]" ?d q2 st2 xs dfd fd "[c1, c2, ?u2]"]
                  t(2-5) t(7) [OF copied]
                by (simp add: flag_defs)
              from h fs2 3 4 show ?thesis by blast
            qed
          qed
        qed
      qed
    qed
  qed
qed

text \<open>The loader queries of the entry points.\<close>

lemma traced_dlsym:
  "dlsym_next (traced os) name s = (a, s') \<Longrightarrow>
   history (kern s') = history (kern s) @ [\<lparr>ev_call = Dlsym name, ev_ret = int a, ev_errno = errno s'\<rparr>]"
  by (auto simp: traced_def relog_def split: prod.splits)

lemma traced_call_pp:
  "call_pp (traced os) a p q s = (r, s') \<Longrightarrow>
   history (kern s') = history (kern s) @ [\<lparr>ev_call = Call_ptr a, ev_ret = r, ev_errno = errno s'\<rparr>]"
  by (auto simp: traced_def relog_def split: prod.splits)

lemma traced_call_at:
  "call_at (traced os) a d p e q s = (r, s') \<Longrightarrow>
   history (kern s') = history (kern s) @ [\<lparr>ev_call = Call_ptr a, ev_ret = r, ev_errno = errno s'\<rparr>]"
  by (auto simp: traced_def relog_def split: prod.splits)

lemma traced_call_atf:
  "call_atf (traced os) a d p e q f s = (r, s') \<Longrightarrow>
   history (kern s') = history (kern s) @ [\<lparr>ev_call = Call_ptr a, ev_ret = r, ev_errno = errno s'\<rparr>]"
  by (auto simp: traced_def relog_def split: prod.splits)

lemma resolve_trace:
  assumes "resolve (traced os) name cached p = (f, p1)"
  shows "\<exists>dl. history (kern p1) = history (kern p) @ dl \<and>
     queries_for name dl = (if cached = 0 then [int f] else []) \<and>
     (\<forall>n. n \<noteq> name \<longrightarrow> queries_for n dl = []) \<and>
     (cached \<noteq> 0 \<longrightarrow> f = cached)"
proof (cases "cached = 0")
  case True
  with assms have d: "dlsym_next (traced os) name p = (f, p1)" by (simp add: resolve_def)
  from traced_dlsym [OF d] True show ?thesis
    by (intro exI [of _ "[\<lparr>ev_call = Dlsym name, ev_ret = int f, ev_errno = errno p1\<rparr>]"])
      (simp add: queries_for_def)
next
  case False
  with assms show ?thesis by (intro exI [of _ "[]"]) (simp add: resolve_def queries_for_def)
qed

lemma queries_for_app: "queries_for n (xs @ ys) = queries_for n xs @ queries_for n ys"
  by (simp add: queries_for_def)

lemma queries_for_fs: "\<forall>e\<in>set evs. fs_call e \<Longrightarrow> queries_for n evs = []"
  by (auto simp: queries_for_def filter_empty_conv)

lemma queries_for_call: "queries_for n [\<lparr>ev_call = Call_ptr a, ev_ret = r, ev_errno = e\<rparr>] = []"
  by (simp add: queries_for_def)

text \<open>What an entry point adds after its resolver block holds no loader query.\<close>

lemma in_shim_Returns:
  "in_shim sh x = Returns (r, sh') \<Longrightarrow> \<exists>p. x = Some (r, p) \<and> sh' = sh\<lparr>proc := p\<rparr>"
  by (auto simp: in_shim_def split: option.splits)

lemma link_queries:
  assumes run: "link (traced os) old new sh = Returns (r, sh')"
  shows "\<exists>evs. history (kern (proc sh')) = history (kern (proc sh)) @ evs \<and>
     queries_for ''link'' evs = (if real_link sh = 0 then [int (real_link sh')] else []) \<and>
     (\<forall>n. n \<noteq> ''link'' \<longrightarrow> queries_for n evs = []) \<and>
     (real_link sh \<noteq> 0 \<longrightarrow> real_link sh' = real_link sh) \<and>
     sh' = sh\<lparr>real_link := real_link sh', proc := proc sh'\<rparr>"
proof -
  obtain f p1 where rs: "resolve (traced os) ''link'' (real_link sh) (proc sh) = (f, p1)"
    by (metis prod.exhaust)
  from resolve_trace [OF rs] obtain dl where dl:
    "history (kern p1) = history (kern (proc sh)) @ dl"
    "queries_for ''link'' dl = (if real_link sh = 0 then [int f] else [])"
    "\<forall>n. n \<noteq> ''link'' \<longrightarrow> queries_for n dl = []"
    "real_link sh \<noteq> 0 \<longrightarrow> f = real_link sh"
    by (elim exE conjE)
  from run rs have f0: "f \<noteq> 0" by (auto simp: link_def Let_def split: if_splits)
  obtain result p2 where c: "call_pp (traced os) f old new p1 = (result, p2)"
    by (metis prod.exhaust)
  note hc = traced_call_pp [OF c]
  let ?c = "\<lparr>ev_call = Call_ptr f, ev_ret = result, ev_errno = errno p2\<rparr>"
  have tail: ?thesis if fb: "fb = Some (r, p3)"
    and sh': "sh' = sh\<lparr>real_link := f, proc := p1\<rparr>\<lparr>proc := p3\<rparr>"
    and tr: "\<exists>evs. history (kern p3) = history (kern p2) @ evs \<and> (\<forall>e\<in>set evs. fs_call e)"
    for fb p3
  proof -
    from tr obtain evs where
      evs: "history (kern p3) = history (kern p2) @ evs" "\<forall>e\<in>set evs. fs_call e"
      by (elim exE conjE)
    have "queries_for n evs = []" for n using evs(2) by (rule queries_for_fs)
    then have q: "queries_for n (?c # evs) = []" for n by (simp add: queries_for_def)
    from dl hc evs(1) sh' show ?thesis
      by (intro exI [of _ "dl @ ?c # evs"]) (simp add: queries_for_app q)
  qed
  show ?thesis
  proof (cases "result = 0 \<or> errno p2 \<noteq> EXDEV")
    case True
    with run rs c f0 have "sh' = sh\<lparr>real_link := f, proc := p2\<rparr>"
      by (auto simp: link_def Let_def)
    with dl hc show ?thesis
      by (intro exI [of _ "dl @ [?c]"]) (simp add: queries_for_app queries_for_call)
  next
    case exdev: False
    with run rs c f0 have "in_shim (sh\<lparr>real_link := f, proc := p1\<rparr>)
        (fallback_copy_from_path (traced os) old new p2) = Returns (r, sh')"
      by (auto simp: link_def Let_def)
    from in_shim_Returns [OF this] obtain p3
      where fb: "(fallback_copy_from_path (traced os) old new p2) = Some (r, p3)"
      and sh': "sh' = sh\<lparr>real_link := f, proc := p1\<rparr>\<lparr>proc := p3\<rparr>" by (elim exE conjE)
    from fallback_copy_from_path_trace [OF fb] have "\<exists>evs. history (kern p3) = history (kern p2) @ evs \<and> (\<forall>e\<in>set evs. fs_call e)"
      by blast
    from tail [OF fb sh' this] show ?thesis .
  qed
qed

lemma linkat_queries:
  assumes run: "linkat (traced os) od old nd new fl sh = Returns (r, sh')"
  shows "\<exists>evs. history (kern (proc sh')) = history (kern (proc sh)) @ evs \<and>
     queries_for ''linkat'' evs = (if real_linkat sh = 0 then [int (real_linkat sh')] else []) \<and>
     (\<forall>n. n \<noteq> ''linkat'' \<longrightarrow> queries_for n evs = []) \<and>
     (real_linkat sh \<noteq> 0 \<longrightarrow> real_linkat sh' = real_linkat sh) \<and>
     sh' = sh\<lparr>real_linkat := real_linkat sh', proc := proc sh'\<rparr>"
proof -
  obtain f p1 where rs: "resolve (traced os) ''linkat'' (real_linkat sh) (proc sh) = (f, p1)"
    by (metis prod.exhaust)
  from resolve_trace [OF rs] obtain dl where dl:
    "history (kern p1) = history (kern (proc sh)) @ dl"
    "queries_for ''linkat'' dl = (if real_linkat sh = 0 then [int f] else [])"
    "\<forall>n. n \<noteq> ''linkat'' \<longrightarrow> queries_for n dl = []"
    "real_linkat sh \<noteq> 0 \<longrightarrow> f = real_linkat sh"
    by (elim exE conjE)
  from run rs have f0: "f \<noteq> 0" by (auto simp: linkat_def Let_def split: if_splits)
  obtain result p2 where c: "call_atf (traced os) f od old nd new fl p1 = (result, p2)"
    by (metis prod.exhaust)
  note hc = traced_call_atf [OF c]
  let ?c = "\<lparr>ev_call = Call_ptr f, ev_ret = result, ev_errno = errno p2\<rparr>"
  have tail: ?thesis if fb: "fb = Some (r, p3)"
    and sh': "sh' = sh\<lparr>real_linkat := f, proc := p1\<rparr>\<lparr>proc := p3\<rparr>"
    and tr: "\<exists>evs. history (kern p3) = history (kern p2) @ evs \<and> (\<forall>e\<in>set evs. fs_call e)"
    for fb p3
  proof -
    from tr obtain evs where
      evs: "history (kern p3) = history (kern p2) @ evs" "\<forall>e\<in>set evs. fs_call e"
      by (elim exE conjE)
    have "queries_for n evs = []" for n using evs(2) by (rule queries_for_fs)
    then have q: "queries_for n (?c # evs) = []" for n by (simp add: queries_for_def)
    from dl hc evs(1) sh' show ?thesis
      by (intro exI [of _ "dl @ ?c # evs"]) (simp add: queries_for_app q)
  qed
  show ?thesis
  proof (cases "result = 0 \<or> errno p2 \<noteq> EXDEV")
    case True
    with run rs c f0 have "sh' = sh\<lparr>real_linkat := f, proc := p2\<rparr>"
      by (auto simp: linkat_def Let_def)
    with dl hc show ?thesis
      by (intro exI [of _ "dl @ [?c]"]) (simp add: queries_for_app queries_for_call)
  next
    case exdev: False
    show ?thesis
    proof (cases "fl AND AT_EMPTY_PATH \<noteq> 0 \<and> (old = None \<or> old = Some [])")
      case True
      with exdev run rs c f0 have "in_shim (sh\<lparr>real_linkat := f, proc := p1\<rparr>)
          (fallback_copy_from_fd (traced os) od nd new p2) = Returns (r, sh')"
        by (auto simp: linkat_def Let_def)
      from in_shim_Returns [OF this] obtain p3
        where fb: "(fallback_copy_from_fd (traced os) od nd new p2) = Some (r, p3)"
        and sh': "sh' = sh\<lparr>real_linkat := f, proc := p1\<rparr>\<lparr>proc := p3\<rparr>" by (elim exE conjE)
      from fallback_copy_from_fd_trace [OF fb] have "\<exists>evs. history (kern p3) = history (kern p2) @ evs \<and> (\<forall>e\<in>set evs. fs_call e)"
        by blast
      from tail [OF fb sh' this] show ?thesis .
    next
      case False
      with exdev run rs c f0 have "in_shim (sh\<lparr>real_linkat := f, proc := p1\<rparr>)
          (case sys_openat (traced os) od old (O_RDONLY OR O_CLOEXEC) 0 p2 of
             (src_fd, s1) \<Rightarrow>
               if src_fd < 0 then Some (- 1, s1)
               else (case sys_fstat (traced os) src_fd s1 of
                 ((r, st), s2) \<Rightarrow>
                   if r \<noteq> 0 then close_saving (traced os) src_fd s2
                   else (case sys_openat (traced os) nd new
                                (O_WRONLY OR O_CREAT OR O_EXCL OR O_CLOEXEC)
                                (st_mode st AND 511) s2 of
                     (dst_fd, s3) \<Rightarrow>
                       if dst_fd < 0 then close_saving (traced os) src_fd s3
                       else finish_copy (traced os) src_fd dst_fd s3))) = Returns (r, sh')"
        by (auto simp: linkat_def Let_def)
      from in_shim_Returns [OF this] obtain p3
        where fb: "(case sys_openat (traced os) od old (O_RDONLY OR O_CLOEXEC) 0 p2 of
             (src_fd, s1) \<Rightarrow>
               if src_fd < 0 then Some (- 1, s1)
               else (case sys_fstat (traced os) src_fd s1 of
                 ((r, st), s2) \<Rightarrow>
                   if r \<noteq> 0 then close_saving (traced os) src_fd s2
                   else (case sys_openat (traced os) nd new
                                (O_WRONLY OR O_CREAT OR O_EXCL OR O_CLOEXEC)
                                (st_mode st AND 511) s2 of
                     (dst_fd, s3) \<Rightarrow>
                       if dst_fd < 0 then close_saving (traced os) src_fd s3
                       else finish_copy (traced os) src_fd dst_fd s3))) = Some (r, p3)"
        and sh': "sh' = sh\<lparr>real_linkat := f, proc := p1\<rparr>\<lparr>proc := p3\<rparr>" by (elim exE conjE)
      from linkat_body_trace [OF fb] have "\<exists>evs. history (kern p3) = history (kern p2) @ evs \<and> (\<forall>e\<in>set evs. fs_call e)"
        by blast
      from tail [OF fb sh' this] show ?thesis .
    qed
  qed
qed

lemma rename_queries:
  assumes run: "rename (traced os) old new sh = Returns (r, sh')"
  shows "\<exists>evs. history (kern (proc sh')) = history (kern (proc sh)) @ evs \<and>
     queries_for ''rename'' evs = (if real_rename sh = 0 then [int (real_rename sh')] else []) \<and>
     (\<forall>n. n \<noteq> ''rename'' \<longrightarrow> queries_for n evs = []) \<and>
     (real_rename sh \<noteq> 0 \<longrightarrow> real_rename sh' = real_rename sh) \<and>
     sh' = sh\<lparr>real_rename := real_rename sh', proc := proc sh'\<rparr>"
proof -
  obtain f p1 where rs: "resolve (traced os) ''rename'' (real_rename sh) (proc sh) = (f, p1)"
    by (metis prod.exhaust)
  from resolve_trace [OF rs] obtain dl where dl:
    "history (kern p1) = history (kern (proc sh)) @ dl"
    "queries_for ''rename'' dl = (if real_rename sh = 0 then [int f] else [])"
    "\<forall>n. n \<noteq> ''rename'' \<longrightarrow> queries_for n dl = []"
    "real_rename sh \<noteq> 0 \<longrightarrow> f = real_rename sh"
    by (elim exE conjE)
  from run rs have f0: "f \<noteq> 0" by (auto simp: rename_def Let_def split: if_splits)
  obtain result p2 where c: "call_pp (traced os) f old new p1 = (result, p2)"
    by (metis prod.exhaust)
  note hc = traced_call_pp [OF c]
  let ?c = "\<lparr>ev_call = Call_ptr f, ev_ret = result, ev_errno = errno p2\<rparr>"
  have tail: ?thesis if fb: "fb = Some (r, p3)"
    and sh': "sh' = sh\<lparr>real_rename := f, proc := p1\<rparr>\<lparr>proc := p3\<rparr>"
    and tr: "\<exists>evs. history (kern p3) = history (kern p2) @ evs \<and> (\<forall>e\<in>set evs. fs_call e)"
    for fb p3
  proof -
    from tr obtain evs where
      evs: "history (kern p3) = history (kern p2) @ evs" "\<forall>e\<in>set evs. fs_call e"
      by (elim exE conjE)
    have "queries_for n evs = []" for n using evs(2) by (rule queries_for_fs)
    then have q: "queries_for n (?c # evs) = []" for n by (simp add: queries_for_def)
    from dl hc evs(1) sh' show ?thesis
      by (intro exI [of _ "dl @ ?c # evs"]) (simp add: queries_for_app q)
  qed
  show ?thesis
  proof (cases "result = 0 \<or> errno p2 \<noteq> EXDEV")
    case True
    with run rs c f0 have "sh' = sh\<lparr>real_rename := f, proc := p2\<rparr>"
      by (auto simp: rename_def Let_def)
    with dl hc show ?thesis
      by (intro exI [of _ "dl @ [?c]"]) (simp add: queries_for_app queries_for_call)
  next
    case exdev: False
    with run rs c f0 have "in_shim (sh\<lparr>real_rename := f, proc := p1\<rparr>)
        (fallback_move_from_path (traced os) old new p2) = Returns (r, sh')"
      by (auto simp: rename_def Let_def)
    from in_shim_Returns [OF this] obtain p3
      where fb: "(fallback_move_from_path (traced os) old new p2) = Some (r, p3)"
      and sh': "sh' = sh\<lparr>real_rename := f, proc := p1\<rparr>\<lparr>proc := p3\<rparr>" by (elim exE conjE)
    from fallback_move_from_path_trace [OF fb] have "\<exists>evs. history (kern p3) = history (kern p2) @ evs \<and> (\<forall>e\<in>set evs. fs_call e)"
      by blast
    from tail [OF fb sh' this] show ?thesis .
  qed
qed

lemma renameat_queries:
  assumes run: "renameat (traced os) od old nd new sh = Returns (r, sh')"
  shows "\<exists>evs. history (kern (proc sh')) = history (kern (proc sh)) @ evs \<and>
     queries_for ''renameat'' evs = (if real_renameat sh = 0 then [int (real_renameat sh')] else []) \<and>
     (\<forall>n. n \<noteq> ''renameat'' \<longrightarrow> queries_for n evs = []) \<and>
     (real_renameat sh \<noteq> 0 \<longrightarrow> real_renameat sh' = real_renameat sh) \<and>
     sh' = sh\<lparr>real_renameat := real_renameat sh', proc := proc sh'\<rparr>"
proof -
  obtain f p1 where rs: "resolve (traced os) ''renameat'' (real_renameat sh) (proc sh) = (f, p1)"
    by (metis prod.exhaust)
  from resolve_trace [OF rs] obtain dl where dl:
    "history (kern p1) = history (kern (proc sh)) @ dl"
    "queries_for ''renameat'' dl = (if real_renameat sh = 0 then [int f] else [])"
    "\<forall>n. n \<noteq> ''renameat'' \<longrightarrow> queries_for n dl = []"
    "real_renameat sh \<noteq> 0 \<longrightarrow> f = real_renameat sh"
    by (elim exE conjE)
  from run rs have f0: "f \<noteq> 0" by (auto simp: renameat_def Let_def split: if_splits)
  obtain result p2 where c: "call_at (traced os) f od old nd new p1 = (result, p2)"
    by (metis prod.exhaust)
  note hc = traced_call_at [OF c]
  let ?c = "\<lparr>ev_call = Call_ptr f, ev_ret = result, ev_errno = errno p2\<rparr>"
  have tail: ?thesis if fb: "fb = Some (r, p3)"
    and sh': "sh' = sh\<lparr>real_renameat := f, proc := p1\<rparr>\<lparr>proc := p3\<rparr>"
    and tr: "\<exists>evs. history (kern p3) = history (kern p2) @ evs \<and> (\<forall>e\<in>set evs. fs_call e)"
    for fb p3
  proof -
    from tr obtain evs where
      evs: "history (kern p3) = history (kern p2) @ evs" "\<forall>e\<in>set evs. fs_call e"
      by (elim exE conjE)
    have "queries_for n evs = []" for n using evs(2) by (rule queries_for_fs)
    then have q: "queries_for n (?c # evs) = []" for n by (simp add: queries_for_def)
    from dl hc evs(1) sh' show ?thesis
      by (intro exI [of _ "dl @ ?c # evs"]) (simp add: queries_for_app q)
  qed
  show ?thesis
  proof (cases "result = 0 \<or> errno p2 \<noteq> EXDEV")
    case True
    with run rs c f0 have "sh' = sh\<lparr>real_renameat := f, proc := p2\<rparr>"
      by (auto simp: renameat_def Let_def)
    with dl hc show ?thesis
      by (intro exI [of _ "dl @ [?c]"]) (simp add: queries_for_app queries_for_call)
  next
    case exdev: False
    with run rs c f0 have "in_shim (sh\<lparr>real_renameat := f, proc := p1\<rparr>)
        (fallback_move_at (traced os) od old nd new p2) = Returns (r, sh')"
      by (auto simp: renameat_def Let_def)
    from in_shim_Returns [OF this] obtain p3
      where fb: "(fallback_move_at (traced os) od old nd new p2) = Some (r, p3)"
      and sh': "sh' = sh\<lparr>real_renameat := f, proc := p1\<rparr>\<lparr>proc := p3\<rparr>" by (elim exE conjE)
    from fallback_move_at_trace [OF fb] have "\<exists>evs. history (kern p3) = history (kern p2) @ evs \<and> (\<forall>e\<in>set evs. fs_call e)"
      by blast
    from tail [OF fb sh' this] show ?thesis .
  qed
qed

lemma renameat2_queries:
  assumes run: "renameat2 (traced os) od old nd new fl sh = Returns (r, sh')"
  shows "\<exists>evs. history (kern (proc sh')) = history (kern (proc sh)) @ evs \<and>
     queries_for ''renameat2'' evs = (if real_renameat2 sh = 0 then [int (real_renameat2 sh')] else []) \<and>
     (real_renameat2 sh \<noteq> 0 \<longrightarrow> real_renameat2 sh' = real_renameat2 sh)"
proof -
  obtain f p1 where rs: "resolve (traced os) ''renameat2'' (real_renameat2 sh) (proc sh) = (f, p1)"
    by (metis prod.exhaust)
  from resolve_trace [OF rs] obtain dl where dl:
    "history (kern p1) = history (kern (proc sh)) @ dl"
    "queries_for ''renameat2'' dl = (if real_renameat2 sh = 0 then [int f] else [])"
    "real_renameat2 sh \<noteq> 0 \<longrightarrow> f = real_renameat2 sh"
    by (elim exE conjE)
  show ?thesis
  proof (cases "f = 0")
    case absent: True
    show ?thesis
    proof (cases "fl = 0")
      case True
      with run rs absent have "renameat (traced os) od old nd new
          (sh\<lparr>real_renameat2 := f, proc := p1\<rparr>) = Returns (r, sh')"
        by (auto simp: renameat2_def Let_def)
      from renameat_queries [OF this] obtain evs where
        evs: "history (kern (proc sh')) = history (kern p1) @ evs"
          "\<forall>n. n \<noteq> ''renameat'' \<longrightarrow> queries_for n evs = []"
          "sh' = sh\<lparr>real_renameat2 := f, proc := p1\<rparr>\<lparr>real_renameat := real_renameat sh', proc := proc sh'\<rparr>"
        by auto
      from evs(3) have "real_renameat2 sh' = f"
        by (metis (no_types) shim.select_convs(5) shim.surjective shim.update_convs(4,5,6))
      moreover from evs(2) have "queries_for ''renameat2'' evs = []" by simp
      ultimately show ?thesis using dl evs(1)
        by (intro exI [of _ "dl @ evs"]) (simp add: queries_for_app)
    next
      case False
      with run rs absent have "sh' = sh\<lparr>real_renameat2 := f, proc := p1\<lparr>errno := ENOSYS\<rparr>\<rparr>"
        by (auto simp: renameat2_def Let_def)
      with dl show ?thesis by (intro exI [of _ dl]) simp
    qed
  next
    case f0: False
    obtain result p2 where c: "call_atf (traced os) f od old nd new fl p1 = (result, p2)"
      by (metis prod.exhaust)
    note hc = traced_call_atf [OF c]
    let ?c = "\<lparr>ev_call = Call_ptr f, ev_ret = result, ev_errno = errno p2\<rparr>"
    show ?thesis
    proof (cases "result = 0 \<or> errno p2 \<noteq> EXDEV \<or> fl \<noteq> 0")
      case True
      with run rs c f0 have "sh' = sh\<lparr>real_renameat2 := f, proc := p2\<rparr>"
        by (auto simp: renameat2_def Let_def split: if_splits)
      with dl hc show ?thesis
        by (intro exI [of _ "dl @ [?c]"]) (simp add: queries_for_app queries_for_call)
    next
      case False
      with run rs c f0 have "in_shim (sh\<lparr>real_renameat2 := f, proc := p1\<rparr>)
          (fallback_move_at (traced os) od old nd new p2) = Returns (r, sh')"
        by (auto simp: renameat2_def Let_def)
      from in_shim_Returns [OF this] obtain p3
        where fb: "fallback_move_at (traced os) od old nd new p2 = Some (r, p3)"
        and sh': "sh' = sh\<lparr>real_renameat2 := f, proc := p1\<rparr>\<lparr>proc := p3\<rparr>" by (elim exE conjE)
      from fallback_move_at_trace [OF fb] obtain evs where
        evs: "history (kern p3) = history (kern p2) @ evs" "\<forall>e\<in>set evs. fs_call e"
        by (elim exE conjE)
      have "queries_for n evs = []" for n using evs(2) by (rule queries_for_fs)
      then have q: "queries_for n (?c # evs) = []" for n by (simp add: queries_for_def)
      from dl hc evs(1) sh' show ?thesis
        by (intro exI [of _ "dl @ ?c # evs"]) (simp add: queries_for_app q)
    qed
  qed
qed
subsection \<open>The error code of the failing step\<close>

text \<open>
  C6. Run any of the fallback bodies (the four fallback functions, and the body of
  \<^verbatim>\<open>linkat\<close> after a genuine call that failed with \<^verbatim>\<open>EXDEV\<close>) on any system, and
  let it return a non-zero value. Then the last call it made that is not a \<^verbatim>\<open>close\<close>
  is a call that failed, and \<^verbatim>\<open>errno\<close> at the return is the error code that call
  left, whatever the \<^verbatim>\<open>close\<close> calls after it did to \<^verbatim>\<open>errno\<close>.
\<close>

theorem failing_step_errno_observed:
  "(fallback_copy_from_path (traced os) oldpath newpath s = Some (r, s') \<and> r \<noteq> 0 \<longrightarrow>
      reports_failing_step (new_events s s') (errno s')) \<and>
   (fallback_copy_from_fd (traced os) src_fd_in newdirfd newpath s = Some (r, s') \<and> r \<noteq> 0 \<longrightarrow>
      reports_failing_step (new_events s s') (errno s')) \<and>
   (fallback_move_from_path (traced os) oldpath newpath s = Some (r, s') \<and> r \<noteq> 0 \<longrightarrow>
      reports_failing_step (new_events s s') (errno s')) \<and>
   (fallback_move_at (traced os) olddirfd oldpath newdirfd newpath s = Some (r, s') \<and> r \<noteq> 0 \<longrightarrow>
      reports_failing_step (new_events s s') (errno s')) \<and>
   (linkat (traced os) olddirfd oldpath newdirfd newpath flags sh = Returns (r, sh') \<and> r \<noteq> 0 \<and>
    resolve (traced os) ''linkat'' (real_linkat sh) (proc sh) = (f, p1) \<and>
    call_atf (traced os) f olddirfd oldpath newdirfd newpath flags p1 = (result, s) \<and>
    result \<noteq> 0 \<and> errno s = EXDEV \<longrightarrow>
      reports_failing_step (new_events s (proc sh')) (errno (proc sh')))"
proof (intro conjI impI)
  assume "fallback_copy_from_path (traced os) oldpath newpath s = Some (r, s') \<and> r \<noteq> 0"
  then show "reports_failing_step (new_events s s') (errno s')"
    using fallback_copy_from_path_trace [of os oldpath newpath s r s'] by (auto simp: new_events_app)
next
  assume "fallback_copy_from_fd (traced os) src_fd_in newdirfd newpath s = Some (r, s') \<and> r \<noteq> 0"
  then show "reports_failing_step (new_events s s') (errno s')"
    using fallback_copy_from_fd_trace [of os src_fd_in newdirfd newpath s r s']
    by (auto simp: new_events_app)
next
  assume "fallback_move_from_path (traced os) oldpath newpath s = Some (r, s') \<and> r \<noteq> 0"
  then show "reports_failing_step (new_events s s') (errno s')"
    using fallback_move_from_path_trace [of os oldpath newpath s r s'] by (auto simp: new_events_app)
next
  assume "fallback_move_at (traced os) olddirfd oldpath newdirfd newpath s = Some (r, s') \<and> r \<noteq> 0"
  then show "reports_failing_step (new_events s s') (errno s')"
    using fallback_move_at_trace [of os olddirfd oldpath newdirfd newpath s r s']
    by (auto simp: new_events_app)
next
  assume a: "linkat (traced os) olddirfd oldpath newdirfd newpath flags sh = Returns (r, sh') \<and> r \<noteq> 0 \<and>
    resolve (traced os) ''linkat'' (real_linkat sh) (proc sh) = (f, p1) \<and>
    call_atf (traced os) f olddirfd oldpath newdirfd newpath flags p1 = (result, s) \<and>
    result \<noteq> 0 \<and> errno s = EXDEV"
  show "reports_failing_step (new_events s (proc sh')) (errno (proc sh'))"
  proof (cases "flags AND AT_EMPTY_PATH \<noteq> 0 \<and> (oldpath = None \<or> oldpath = Some [])")
    case True
    with a have "fallback_copy_from_fd (traced os) olddirfd newdirfd newpath s = Some (r, proc sh')"
      by (auto simp: linkat_def in_shim_def Let_def split: if_splits option.splits)
    with a show ?thesis
      using fallback_copy_from_fd_trace [of os olddirfd newdirfd newpath s r "proc sh'"]
      by (auto simp: new_events_app)
  next
    case False
    with a have "(case sys_openat (traced os) olddirfd oldpath (O_RDONLY OR O_CLOEXEC) 0 s of
             (src_fd, s1) \<Rightarrow>
               if src_fd < 0 then Some (- 1, s1)
               else (case sys_fstat (traced os) src_fd s1 of
                 ((r, st), s2) \<Rightarrow>
                   if r \<noteq> 0 then close_saving (traced os) src_fd s2
                   else (case sys_openat (traced os) newdirfd newpath
                                (O_WRONLY OR O_CREAT OR O_EXCL OR O_CLOEXEC)
                                (st_mode st AND 511) s2 of
                     (dst_fd, s3) \<Rightarrow>
                       if dst_fd < 0 then close_saving (traced os) src_fd s3
                       else finish_copy (traced os) src_fd dst_fd s3))) = Some (r, proc sh')"
      by (auto simp: linkat_def in_shim_def Let_def split: if_splits option.splits)
    from linkat_body_trace [OF this] a show ?thesis
      by (auto simp: new_events_app)
  qed
qed

text \<open>
  C6, at a concrete input, on the system whose \<^verbatim>\<open>close\<close> clears \<^verbatim>\<open>errno\<close>: copying
  \<^verbatim>\<open>a\<close> to the existing \<^verbatim>\<open>b\<close> fails in the exclusive create with \<^verbatim>\<open>EEXIST\<close>; the
  \<^verbatim>\<open>close\<close> after it leaves \<^verbatim>\<open>errno\<close> 0, and the caller still observes \<^verbatim>\<open>EEXIST\<close>.
\<close>

theorem failing_step_errno_observed_witness:
  "observed (fallback_copy_from_path (traced clobbering) (Some ''a'') (Some ''b'') (logged demo_proc))
     = Some (- 1, EEXIST) \<and>
   map ev_errno (run_events (logged demo_proc)
     (fallback_copy_from_path (traced clobbering) (Some ''a'') (Some ''b'') (logged demo_proc)))
     = [0, 0, EEXIST, 0] \<and>
   reports_failing_step (run_events (logged demo_proc)
     (fallback_copy_from_path (traced clobbering) (Some ''a'') (Some ''b'') (logged demo_proc))) EEXIST"
proof -
  let ?run = "fallback_copy_from_path (traced clobbering) (Some ''a'') (Some ''b'') (logged demo_proc)"
  have ob: "observed ?run = Some (- 1, EEXIST)" by code_simp
  have er: "map ev_errno (run_events (logged demo_proc) ?run) = [0, 0, EEXIST, 0]" by code_simp
  from ob obtain s' where run: "?run = Some (- 1, s')" and e: "errno s' = EEXIST"
    by (auto simp: observed_def)
  from failing_step_errno_observed [of clobbering "Some ''a''" "Some ''b''" "logged demo_proc" "- 1" s'] run
  have "reports_failing_step (new_events (logged demo_proc) s') (errno s')" by simp
  with ob er run e show ?thesis by (simp add: run_events_def)
qed

subsection \<open>The status queries of a fallback\<close>

text \<open>
  C8, as the code has it. A fallback that succeeds has made two status queries on the
  source descriptor, not one. The first is made right after the source is opened, and
  its mode, masked to 0777, is the mode the destination is created with. The second is
  made by the copier, right after the destination is opened, and its size is what the
  first transfer asks for: the size of the first query is never used.
\<close>

theorem status_queried_twice:
  "(fallback_copy_from_path (traced os) oldpath newpath s = Some (0, s') \<longrightarrow>
      two_status_queries 2 (new_events s s')) \<and>
   (fallback_copy_from_fd (traced os) src_fd_in newdirfd newpath s = Some (0, s') \<longrightarrow>
      two_status_queries 2 (new_events s s')) \<and>
   (fallback_move_from_path (traced os) oldpath newpath s = Some (0, s') \<longrightarrow>
      two_status_queries 3 (new_events s s')) \<and>
   (fallback_move_at (traced os) olddirfd oldpath newdirfd newpath s = Some (0, s') \<longrightarrow>
      two_status_queries 3 (new_events s s')) \<and>
   (linkat (traced os) olddirfd oldpath newdirfd newpath flags sh = Returns (0, sh') \<and>
    resolve (traced os) ''linkat'' (real_linkat sh) (proc sh) = (f, p1) \<and>
    call_atf (traced os) f olddirfd oldpath newdirfd newpath flags p1 = (result, s) \<and>
    result \<noteq> 0 \<and> errno s = EXDEV \<longrightarrow>
      two_status_queries 2 (new_events s (proc sh')))"
proof (intro conjI impI)
  assume a: "fallback_copy_from_path (traced os) oldpath newpath s = Some (0, s')"
  from fallback_copy_from_path_trace [OF a] show "two_status_queries 2 (new_events s s')"
    by (auto simp: new_events_app)
next
  assume a: "fallback_copy_from_fd (traced os) src_fd_in newdirfd newpath s = Some (0, s')"
  from fallback_copy_from_fd_trace [OF a] show "two_status_queries 2 (new_events s s')"
    by (auto simp: new_events_app)
next
  assume a: "fallback_move_from_path (traced os) oldpath newpath s = Some (0, s')"
  from fallback_move_from_path_trace [OF a] show "two_status_queries 3 (new_events s s')"
    by (auto simp: new_events_app)
next
  assume a: "fallback_move_at (traced os) olddirfd oldpath newdirfd newpath s = Some (0, s')"
  from fallback_move_at_trace [OF a] show "two_status_queries 3 (new_events s s')"
    by (auto simp: new_events_app)
next
  assume a: "linkat (traced os) olddirfd oldpath newdirfd newpath flags sh = Returns (0, sh') \<and>
    resolve (traced os) ''linkat'' (real_linkat sh) (proc sh) = (f, p1) \<and>
    call_atf (traced os) f olddirfd oldpath newdirfd newpath flags p1 = (result, s) \<and>
    result \<noteq> 0 \<and> errno s = EXDEV"
  show "two_status_queries 2 (new_events s (proc sh'))"
  proof (cases "flags AND AT_EMPTY_PATH \<noteq> 0 \<and> (oldpath = None \<or> oldpath = Some [])")
    case True
    with a have "fallback_copy_from_fd (traced os) olddirfd newdirfd newpath s = Some (0, proc sh')"
      by (auto simp: linkat_def in_shim_def Let_def split: if_splits option.splits)
    from fallback_copy_from_fd_trace [OF this] show ?thesis
      by (auto simp: new_events_app)
  next
    case False
    with a have "(case sys_openat (traced os) olddirfd oldpath (O_RDONLY OR O_CLOEXEC) 0 s of
             (src_fd, s1) \<Rightarrow>
               if src_fd < 0 then Some (- 1, s1)
               else (case sys_fstat (traced os) src_fd s1 of
                 ((r, st), s2) \<Rightarrow>
                   if r \<noteq> 0 then close_saving (traced os) src_fd s2
                   else (case sys_openat (traced os) newdirfd newpath
                                (O_WRONLY OR O_CREAT OR O_EXCL OR O_CLOEXEC)
                                (st_mode st AND 511) s2 of
                     (dst_fd, s3) \<Rightarrow>
                       if dst_fd < 0 then close_saving (traced os) src_fd s3
                       else finish_copy (traced os) src_fd dst_fd s3))) = Some (0, proc sh')"
      by (auto simp: linkat_def in_shim_def Let_def split: if_splits option.splits)
    from linkat_body_trace [OF this] show ?thesis
      by (auto simp: new_events_app)
  qed
qed

text \<open>
  C8 as amended, at a concrete input: copying \<^verbatim>\<open>a\<close> to the new name \<^verbatim>\<open>c\<close> on the
  system where the source grows while the destination is created.
\<close>

theorem status_queried_twice_witness:
  "observed (fallback_copy_from_path (traced racing) (Some ''a'') (Some ''c'') (logged demo_proc))
     = Some (0, 0) \<and>
   two_status_queries 2 (run_events (logged demo_proc)
     (fallback_copy_from_path (traced racing) (Some ''a'') (Some ''c'') (logged demo_proc)))"
proof -
  let ?run = "fallback_copy_from_path (traced racing) (Some ''a'') (Some ''c'') (logged demo_proc)"
  have ob: "observed ?run = Some (0, 0)" by code_simp
  then obtain s' where run: "?run = Some (0, s')"
    by (auto simp: observed_def)
  from status_queried_twice [of racing "Some ''a''" "Some ''c''" "logged demo_proc" s'] run
  have "two_status_queries 2 (new_events (logged demo_proc) s')" by simp
  with ob run show ?thesis by (simp add: run_events_def)
qed

text \<open>
  C8 as stated fails. On that system the run makes two status queries; they report the
  sizes 5 and 6, and the transfers ask for 6 bytes, the size of the second query: the
  snapshot taken right after opening the source does not size the copy loop.
\<close>

theorem single_status_query_counterexample:
  "observed (fallback_copy_from_path (traced racing) (Some ''a'') (Some ''c'') (logged demo_proc))
     = Some (0, 0) \<and>
   List.map_filter stat_query (run_events (logged demo_proc)
     (fallback_copy_from_path (traced racing) (Some ''a'') (Some ''c'') (logged demo_proc)))
     = [(0, \<lparr>st_size = 5, st_mode = 33188\<rparr>), (0, \<lparr>st_size = 6, st_mode = 33188\<rparr>)] \<and>
   List.map_filter transfer_request (run_events (logged demo_proc)
     (fallback_copy_from_path (traced racing) (Some ''a'') (Some ''c'') (logged demo_proc)))
     = [(0, 6), (2, 4), (4, 2)]"
  by code_simp

subsection \<open>Queries to the dynamic loader\<close>

text \<open>
  C9, as the code has it. An invocation of an entry point that returns has queried the
  loader for its name exactly when the cached pointer was null at entry, once, and the
  pointer after the call is the answer to that query; when the cached pointer was not
  null it has made no query and the pointer is unchanged. So a non-null answer is
  cached for the rest of the process, and a null answer is not: the null pointer is
  also the mark of "not yet resolved", and the next invocation queries again.
\<close>

theorem loader_queried_while_null:
  "(link (traced os) oldpath newpath sh = Returns (r, sh') \<longrightarrow>
      queries_for ''link'' (new_events (proc sh) (proc sh')) =
        (if real_link sh = 0 then [int (real_link sh')] else []) \<and>
      (real_link sh \<noteq> 0 \<longrightarrow> real_link sh' = real_link sh)) \<and>
   (linkat (traced os) olddirfd oldpath newdirfd newpath flags sh = Returns (r, sh') \<longrightarrow>
      queries_for ''linkat'' (new_events (proc sh) (proc sh')) =
        (if real_linkat sh = 0 then [int (real_linkat sh')] else []) \<and>
      (real_linkat sh \<noteq> 0 \<longrightarrow> real_linkat sh' = real_linkat sh)) \<and>
   (rename (traced os) oldpath newpath sh = Returns (r, sh') \<longrightarrow>
      queries_for ''rename'' (new_events (proc sh) (proc sh')) =
        (if real_rename sh = 0 then [int (real_rename sh')] else []) \<and>
      (real_rename sh \<noteq> 0 \<longrightarrow> real_rename sh' = real_rename sh)) \<and>
   (renameat (traced os) olddirfd oldpath newdirfd newpath sh = Returns (r, sh') \<longrightarrow>
      queries_for ''renameat'' (new_events (proc sh) (proc sh')) =
        (if real_renameat sh = 0 then [int (real_renameat sh')] else []) \<and>
      (real_renameat sh \<noteq> 0 \<longrightarrow> real_renameat sh' = real_renameat sh)) \<and>
   (renameat2 (traced os) olddirfd oldpath newdirfd newpath uflags sh = Returns (r, sh') \<longrightarrow>
      queries_for ''renameat2'' (new_events (proc sh) (proc sh')) =
        (if real_renameat2 sh = 0 then [int (real_renameat2 sh')] else []) \<and>
      (real_renameat2 sh \<noteq> 0 \<longrightarrow> real_renameat2 sh' = real_renameat2 sh))"
proof (intro conjI impI)
  assume a: "link (traced os) oldpath newpath sh = Returns (r, sh')"
  from link_queries [OF a]
  show "queries_for ''link'' (new_events (proc sh) (proc sh')) =
        (if real_link sh = 0 then [int (real_link sh')] else [])"
    by (auto simp: new_events_app)
  assume "real_link sh \<noteq> 0"
  with link_queries [OF a] show "real_link sh' = real_link sh" by blast
next
  assume a: "linkat (traced os) olddirfd oldpath newdirfd newpath flags sh = Returns (r, sh')"
  from linkat_queries [OF a]
  show "queries_for ''linkat'' (new_events (proc sh) (proc sh')) =
        (if real_linkat sh = 0 then [int (real_linkat sh')] else [])"
    by (auto simp: new_events_app)
  assume "real_linkat sh \<noteq> 0"
  with linkat_queries [OF a] show "real_linkat sh' = real_linkat sh" by blast
next
  assume a: "rename (traced os) oldpath newpath sh = Returns (r, sh')"
  from rename_queries [OF a]
  show "queries_for ''rename'' (new_events (proc sh) (proc sh')) =
        (if real_rename sh = 0 then [int (real_rename sh')] else [])"
    by (auto simp: new_events_app)
  assume "real_rename sh \<noteq> 0"
  with rename_queries [OF a] show "real_rename sh' = real_rename sh" by blast
next
  assume a: "renameat (traced os) olddirfd oldpath newdirfd newpath sh = Returns (r, sh')"
  from renameat_queries [OF a]
  show "queries_for ''renameat'' (new_events (proc sh) (proc sh')) =
        (if real_renameat sh = 0 then [int (real_renameat sh')] else [])"
    by (auto simp: new_events_app)
  assume "real_renameat sh \<noteq> 0"
  with renameat_queries [OF a] show "real_renameat sh' = real_renameat sh" by blast
next
  assume a: "renameat2 (traced os) olddirfd oldpath newdirfd newpath uflags sh = Returns (r, sh')"
  from renameat2_queries [OF a]
  show "queries_for ''renameat2'' (new_events (proc sh) (proc sh')) =
        (if real_renameat2 sh = 0 then [int (real_renameat2 sh')] else [])"
    by (auto simp: new_events_app)
  assume "real_renameat2 sh \<noteq> 0"
  with renameat2_queries [OF a] show "real_renameat2 sh' = real_renameat2 sh" by blast
qed

text \<open>
  C9 as amended, at a concrete input: the first call of \<^verbatim>\<open>rename\<close> queries the loader
  and caches the answer, address 3; the second call makes no query.
\<close>

theorem loader_queried_while_null_witness:
  "queries_for ''rename'' (new_events (proc (logged_shim demo_shim)) (proc demo_once)) = [3] \<and>
   real_rename demo_once = 3 \<and>
   queries_for ''rename'' (new_events (proc demo_once) (proc demo_twice)) = [] \<and>
   real_rename demo_twice = 3"
proof -
  let ?x1 = "rename (traced posix) (Some ''c'') (Some ''b'') (logged_shim demo_shim)"
  let ?x2 = "rename (traced posix) (Some ''c'') (Some ''b'') demo_once"
  have r1: "returned ?x1 = Some (- 1, ENOENT)" by code_simp
  have r2: "returned ?x2 = Some (- 1, ENOENT)" by code_simp
  have c0: "real_rename (logged_shim demo_shim) = 0" by code_simp
  have c1: "real_rename demo_once = 3" by code_simp
  from r1 have x1: "?x1 = Returns (- 1, demo_once)"
    by (auto simp: returned_def demo_once_def state_after_def split: outcome.splits)
  from r2 have x2: "?x2 = Returns (- 1, demo_twice)"
    by (auto simp: returned_def demo_twice_def state_after_def split: outcome.splits)
  from loader_queried_while_null [of posix "Some ''c''" "Some ''b''" "logged_shim demo_shim" "- 1" demo_once]
    x1 c0 c1
  have q1: "queries_for ''rename'' (new_events (proc (logged_shim demo_shim)) (proc demo_once)) = [3]"
    by simp
  from loader_queried_while_null [of posix "Some ''c''" "Some ''b''" demo_once "- 1" demo_twice]
    x2 c1
  have q2: "queries_for ''rename'' (new_events (proc demo_once) (proc demo_twice)) = []"
    and c2: "real_rename demo_twice = 3"
    by simp_all
  from q1 c1 q2 c2 show ?thesis by simp
qed

text \<open>
  C9 as stated fails when the first query returns the null address. On the system
  without \<^verbatim>\<open>renameat2\<close>, two calls of \<^verbatim>\<open>renameat2\<close> with flag 1 both return -1 with
  \<^verbatim>\<open>ENOSYS\<close>, and each of them has queried the loader: the history holds two queries
  for \<^verbatim>\<open>renameat2\<close>, both answered with the null address.
\<close>

theorem loader_requeried_counterexample:
  "returned (renameat2 (traced posix) AT_FDCWD (Some ''a'') AT_FDCWD (Some ''b'') 1 (logged_shim legacy_shim))
     = Some (- 1, ENOSYS) \<and>
   queries_for ''renameat2'' (history (kern (proc legacy_once))) = [0] \<and>
   returned (renameat2 (traced posix) AT_FDCWD (Some ''a'') AT_FDCWD (Some ''b'') 1 legacy_once)
     = Some (- 1, ENOSYS) \<and>
   queries_for ''renameat2'' (history (kern (proc legacy_twice))) = [0, 0]"
  by code_simp

subsection \<open>The copy loop, one round at a time\<close>

lemma copy_loop_done: "remaining \<le> 0 \<Longrightarrow> copy_loop os a b off remaining s = Some (0, s)"
  by (subst copy_loop.simps) simp

lemma copy_loop_fail:
  "0 < remaining \<Longrightarrow> sys_sendfile os b a off remaining s = ((sent, off'), s') \<Longrightarrow> sent < 0 \<Longrightarrow>
   copy_loop os a b off remaining s = Some (- 1, s')"
  by (subst copy_loop.simps) simp

lemma copy_loop_step:
  "0 < remaining \<Longrightarrow> sys_sendfile os b a off remaining s = ((sent, off'), s') \<Longrightarrow> 0 \<le> sent \<Longrightarrow>
   copy_loop os a b off remaining s = copy_loop os a b off' (remaining - sent) s'"
  by (subst copy_loop.simps) simp

subsection \<open>When the copier returns\<close>

lemma scripted_returns:
  "xs (i + n) < 0 \<or> rem \<le> (\<Sum>m<n. xs (i + m)) \<Longrightarrow>
   copy_loop (scripted len xs) a b off rem \<lparr>errno = e, kern = i\<rparr> \<noteq> None"
proof (induction n arbitrary: i rem off e)
  case 0
  show ?case
  proof (cases "rem \<le> 0")
    case True
    then show ?thesis by (simp add: copy_loop_done)
  next
    case False
    with 0 have neg: "xs i < 0" by simp
    have "sys_sendfile (scripted len xs) b a off rem \<lparr>errno = e, kern = i\<rparr> =
        ((- 1, off), \<lparr>errno = - xs i, kern = Suc i\<rparr>)"
      using neg by (simp add: scripted_def)
    from copy_loop_fail [OF _ this] False show ?thesis by simp
  qed
next
  case (Suc n)
  show ?case
  proof (cases "rem \<le> 0")
    case True
    then show ?thesis by (simp add: copy_loop_done)
  next
    case pos: False
    show ?thesis
    proof (cases "xs i < 0")
      case True
      have "sys_sendfile (scripted len xs) b a off rem \<lparr>errno = e, kern = i\<rparr> =
          ((- 1, off), \<lparr>errno = - xs i, kern = Suc i\<rparr>)"
        using True by (simp add: scripted_def)
      from copy_loop_fail [OF _ this] pos show ?thesis by simp
    next
      case False
      have sf: "sys_sendfile (scripted len xs) b a off rem \<lparr>errno = e, kern = i\<rparr> =
          ((xs i, off + xs i), \<lparr>errno = e, kern = Suc i\<rparr>)"
        using False by (simp add: scripted_def)
      have "(\<Sum>m<Suc n. xs (i + m)) = xs i + (\<Sum>m<n. xs (Suc i + m))"
        using sum.lessThan_Suc_shift [of "\<lambda>m. xs (i + m)" n] by simp
      with Suc.prems have "xs (Suc i + n) < 0 \<or> rem - xs i \<le> (\<Sum>m<n. xs (Suc i + m))"
        by auto
      from Suc.IH [OF this] have "copy_loop (scripted len xs) a b (off + xs i) (rem - xs i)
          \<lparr>errno = e, kern = Suc i\<rparr> \<noteq> None" .
      moreover from copy_loop_step [OF _ sf] pos False
      have "copy_loop (scripted len xs) a b off rem \<lparr>errno = e, kern = i\<rparr> =
          copy_loop (scripted len xs) a b (off + xs i) (rem - xs i) \<lparr>errno = e, kern = Suc i\<rparr>"
        by simp
      ultimately show ?thesis by simp
    qed
  qed
qed

lemma scripted_returned:
  assumes run: "copy_loop os a b off rem s = Some y"
  shows "os = scripted len xs \<longrightarrow>
    (\<exists>n. xs (kern s + n) < 0 \<or> rem \<le> (\<Sum>m<n. xs (kern s + m)))"
proof (rule copy_loop.raw_induct [OF _ run, where P = "\<lambda>os a b off rem s y. os = scripted len xs \<longrightarrow>
    (\<exists>n. xs (kern s + n) < 0 \<or> rem \<le> (\<Sum>m<n. xs (kern s + m)))"], intro impI)
  fix f os a b off rem s y
  assume IH: "\<And>os a b off rem s y. f os a b off rem s = Some y \<Longrightarrow> os = scripted len xs \<longrightarrow>
    (\<exists>n. xs (kern s + n) < 0 \<or> rem \<le> (\<Sum>m<n. xs (kern s + m)))"
  and body: "(if 0 < rem
      then case sys_sendfile os b a off rem s of
           ((sent, offset'), s') \<Rightarrow>
             if sent < 0 then Some (- 1, s')
             else f os a b offset' (rem - sent) s'
      else Some (0, s)) = Some y"
  and os: "os = scripted len xs"
  show "\<exists>n. xs (kern s + n) < 0 \<or> rem \<le> (\<Sum>m<n. xs (kern s + m))"
  proof (cases "rem \<le> 0 \<or> xs (kern s) < 0")
    case True
    then show ?thesis by (intro exI [of _ 0]) auto
  next
    case False
    then have sf: "sys_sendfile os b a off rem s =
        ((xs (kern s), off + xs (kern s)), s\<lparr>kern := Suc (kern s)\<rparr>)"
      by (simp add: os scripted_def)
    with body False have "f os a b (off + xs (kern s)) (rem - xs (kern s)) (s\<lparr>kern := Suc (kern s)\<rparr>) = Some y"
      by simp
    from IH [OF this] os obtain n where
      "xs (Suc (kern s) + n) < 0 \<or> rem - xs (kern s) \<le> (\<Sum>m<n. xs (Suc (kern s) + m))"
      by auto
    moreover have "(\<Sum>m<Suc n. xs (kern s + m)) = xs (kern s) + (\<Sum>m<n. xs (Suc (kern s) + m))"
      using sum.lessThan_Suc_shift [of "\<lambda>m. xs (kern s + m)" n] by simp
    ultimately show ?thesis by (intro exI [of _ "Suc n"]) auto
  qed
qed

lemma copy_fd_scripted:
  "(copy_fd (scripted len xs) a b \<lparr>errno = e, kern = 0\<rparr> \<noteq> None) =
   (\<exists>n. xs n < 0 \<or> len \<le> (\<Sum>m<n. xs m))"
proof
  assume "copy_fd (scripted len xs) a b \<lparr>errno = e, kern = 0\<rparr> \<noteq> None"
  then obtain y where "copy_loop (scripted len xs) a b 0 len \<lparr>errno = e, kern = 0\<rparr> = Some y"
    by (auto simp: copy_fd_def scripted_def)
  from scripted_returned [OF this, of len xs] show "\<exists>n. xs n < 0 \<or> len \<le> (\<Sum>m<n. xs m)"
    by simp
next
  assume "\<exists>n. xs n < 0 \<or> len \<le> (\<Sum>m<n. xs m)"
  then obtain n where "xs (0 + n) < 0 \<or> len \<le> (\<Sum>m<n. xs (0 + m))" by auto
  from scripted_returns [OF this, of len a b 0 e]
  show "copy_fd (scripted len xs) a b \<lparr>errno = e, kern = 0\<rparr> \<noteq> None"
    by (simp add: copy_fd_def scripted_def)
qed

text \<open>
  C4, as the code has it. On the system whose n-th transfer returns \<open>xs n\<close>, the copier
  of a source of \<open>len\<close> bytes returns exactly when some transfer fails or the bytes moved
  by the transfers so far reach \<open>len\<close>. One round of the loop: with nothing remaining it
  returns 0 without a transfer; a transfer that does not fail, whether it moves nothing,
  a part or all, is followed by the loop on the remaining count reduced by what was
  moved; a transfer that fails ends the copy with -1 in the state the transfer left, so
  with the error code the transfer set.
\<close>

theorem copier_returns_iff_error_or_all_moved:
  "((copy_fd (scripted len xs) src_fd dst_fd \<lparr>errno = e, kern = 0\<rparr> \<noteq> None) =
      (\<exists>n. xs n < 0 \<or> len \<le> (\<Sum>m<n. xs m))) \<and>
   (remaining \<le> 0 \<longrightarrow> copy_loop os src_fd dst_fd offset remaining s = Some (0, s)) \<and>
   (0 < remaining \<and> sys_sendfile os dst_fd src_fd offset remaining s = ((sent, offset'), s') \<and>
    0 \<le> sent \<longrightarrow>
      copy_loop os src_fd dst_fd offset remaining s =
        copy_loop os src_fd dst_fd offset' (remaining - sent) s') \<and>
   (0 < remaining \<and> sys_sendfile os dst_fd src_fd offset remaining s = ((sent, offset'), s') \<and>
    sent < 0 \<longrightarrow>
      copy_loop os src_fd dst_fd offset remaining s = Some (- 1, s'))"
  using copy_fd_scripted [of len xs src_fd dst_fd e]
  by (auto simp: copy_loop_done copy_loop_step copy_loop_fail)

text \<open>
  C4 as amended, at concrete inputs: a source of 5 bytes moved two bytes at a time
  (three transfers, the result 0), and the same with a second transfer that fails with
  error code 5 (the result -1, the error code 5).
\<close>

theorem copier_returns_iff_error_or_all_moved_witness:
  "copy_fd (scripted 5 by_twos) 3 4 \<lparr>errno = 0, kern = 0\<rparr> \<noteq> None \<and>
   copy_loop (scripted 5 by_twos) 3 4 6 (- 1) \<lparr>errno = 0, kern = 3\<rparr>
     = Some (0, \<lparr>errno = 0, kern = 3\<rparr>) \<and>
   copy_loop (scripted 5 by_twos) 3 4 0 5 \<lparr>errno = 0, kern = 0\<rparr>
     = copy_loop (scripted 5 by_twos) 3 4 2 3 \<lparr>errno = 0, kern = 1\<rparr> \<and>
   copy_loop (scripted 5 (by_twos(1 := - 5))) 3 4 2 3 \<lparr>errno = 0, kern = 1\<rparr>
     = Some (- 1, \<lparr>errno = 5, kern = 2\<rparr>) \<and>
   copy_fd (scripted 5 by_twos) 3 4 \<lparr>errno = 0, kern = 0\<rparr> = Some (0, \<lparr>errno = 0, kern = 3\<rparr>) \<and>
   copy_fd (scripted 5 (by_twos(1 := - 5))) 3 4 \<lparr>errno = 0, kern = 0\<rparr>
     = Some (- 1, \<lparr>errno = 5, kern = 2\<rparr>)"
proof -
  note T = copier_returns_iff_error_or_all_moved
  have "by_twos 0 < 0 \<or> 5 \<le> (\<Sum>m<3. by_twos m)"
    by (simp add: by_twos_def)
  then have "\<exists>n. by_twos n < 0 \<or> 5 \<le> (\<Sum>m<n. by_twos m)" by blast
  with T [of 5 by_twos 3 4 0, THEN conjunct1]
  have 1: "copy_fd (scripted 5 by_twos) 3 4 \<lparr>errno = 0, kern = 0\<rparr> \<noteq> None" by blast
  from T [where remaining = "- 1" and os = "scripted 5 by_twos" and src_fd = 3 and dst_fd = 4
      and offset = 6 and s = "\<lparr>errno = 0, kern = 3\<rparr>", THEN conjunct2, THEN conjunct1]
  have 2: "copy_loop (scripted 5 by_twos) 3 4 6 (- 1) \<lparr>errno = 0, kern = 3\<rparr>
     = Some (0, \<lparr>errno = 0, kern = 3\<rparr>)"
    by simp
  have sf: "sys_sendfile (scripted 5 by_twos) 4 3 0 5 \<lparr>errno = 0, kern = 0\<rparr>
      = ((2, 2), \<lparr>errno = 0, kern = 1\<rparr>)"
    by (simp add: scripted_def by_twos_def)
  from T [where remaining = 5 and os = "scripted 5 by_twos" and src_fd = 3 and dst_fd = 4
      and offset = 0 and s = "\<lparr>errno = 0, kern = 0\<rparr>" and sent = 2 and offset' = 2
      and s' = "\<lparr>errno = 0, kern = 1\<rparr>", THEN conjunct2, THEN conjunct2, THEN conjunct1] sf
  have 3: "copy_loop (scripted 5 by_twos) 3 4 0 5 \<lparr>errno = 0, kern = 0\<rparr>
     = copy_loop (scripted 5 by_twos) 3 4 2 3 \<lparr>errno = 0, kern = 1\<rparr>"
    by simp
  have sf': "sys_sendfile (scripted 5 (by_twos(1 := - 5))) 4 3 2 3 \<lparr>errno = 0, kern = 1\<rparr>
      = ((- 1, 2), \<lparr>errno = 5, kern = 2\<rparr>)"
    by (simp add: scripted_def by_twos_def)
  from T [where remaining = 3 and os = "scripted 5 (by_twos(1 := - 5))" and src_fd = 3 and dst_fd = 4
      and offset = 2 and s = "\<lparr>errno = 0, kern = 1\<rparr>" and sent = "- 1" and offset' = 2
      and s' = "\<lparr>errno = 5, kern = 2\<rparr>", THEN conjunct2, THEN conjunct2, THEN conjunct2] sf'
  have 4: "copy_loop (scripted 5 (by_twos(1 := - 5))) 3 4 2 3 \<lparr>errno = 0, kern = 1\<rparr>
     = Some (- 1, \<lparr>errno = 5, kern = 2\<rparr>)"
    by simp
  have 5: "copy_fd (scripted 5 by_twos) 3 4 \<lparr>errno = 0, kern = 0\<rparr> = Some (0, \<lparr>errno = 0, kern = 3\<rparr>)"
    by (simp add: copy_fd_def scripted_def by_twos_def copy_loop_done copy_loop_step)
  have 6: "copy_fd (scripted 5 (by_twos(1 := - 5))) 3 4 \<lparr>errno = 0, kern = 0\<rparr> =
      Some (- 1, \<lparr>errno = 5, kern = 2\<rparr>)"
    by (simp add: copy_fd_def scripted_def by_twos_def copy_loop_done copy_loop_step copy_loop_fail)
  from 1 2 3 4 5 6 show ?thesis by (intro conjI)
qed

text \<open>
  C4 as stated fails: the copier does not return for every sequence of transfer
  results. When every transfer moves zero bytes without an error, as \<^verbatim>\<open>sendfile\<close> does
  at the end of a source that was truncated after the snapshot, the copy of a source
  of one byte never returns.
\<close>

theorem copier_never_returns_counterexample:
  "copy_fd (scripted 1 stalled) 3 4 \<lparr>errno = 0, kern = 0\<rparr> = None"
proof -
  have "\<not> (\<exists>n. stalled n < 0 \<or> 1 \<le> (\<Sum>m<n. stalled m))"
    by (simp add: stalled_def)
  with copy_fd_scripted [of 1 stalled 3 4 0]
  have "\<not> copy_fd (scripted 1 stalled) 3 4 \<lparr>errno = 0, kern = 0\<rparr> \<noteq> None" by blast
  then show ?thesis by blast
qed

subsection \<open>The fallbacks on the reference file system\<close>

lemma file_of_valid:
  "file_of k fd = Some j \<Longrightarrow>
   0 \<le> fd \<and> nat fd < length (fdtab k) \<and> fdtab k ! nat fd = Some j \<and> j < length (ofiles k) \<and>
   of_ino (ofiles k ! j) < length (inodes k)"
  by (auto simp: file_of_def split: if_splits option.splits)

lemma file_of_frame:
  assumes "fdtab k' = fdtab k" "length (ofiles k') = length (ofiles k)"
    "\<And>j. j < length (ofiles k) \<Longrightarrow> of_ino (ofiles k' ! j) = of_ino (ofiles k ! j)"
    "length (inodes k') = length (inodes k)"
  shows "file_of k' fd = file_of k fd"
  using assms by (auto simp: file_of_def split: option.splits)

lemma overwrite_append:
  "overwrite (q + length A) B (overwrite q A old) = overwrite q (A @ B) old"
proof (cases "A = [] \<or> B = []")
  case True
  then show ?thesis by (auto simp: overwrite_def)
next
  case False
  define P where "P = take q old @ replicate (q - length old) (CHR 0x00)"
  define D where "D = drop (q + length A) old"
  have lp: "length P = q" by (auto simp: P_def)
  have x: "overwrite q A old = P @ A @ D"
    using False by (simp add: overwrite_def P_def D_def)
  have t: "take (q + length A) (P @ A @ D) = P @ A"
    using lp by simp
  have r: "q + length A - length (P @ A @ D) = 0"
    using lp by simp
  have d: "drop (q + length A + length B) (P @ A @ D) = drop (length B) D"
    using lp by simp
  have dd: "drop (length B) D = drop (q + length (A @ B)) old"
    by (simp add: D_def add.commute add.left_commute)
  have "overwrite (q + length A) B (P @ A @ D) =
      take (q + length A) (P @ A @ D) @ replicate (q + length A - length (P @ A @ D)) (CHR 0x00) @
      B @ drop (q + length A + length B) (P @ A @ D)"
  proof -
    from False have "B \<noteq> []" by simp
    then show ?thesis by (simp only: overwrite_def if_False)
  qed
  also have "\<dots> = P @ A @ B @ drop (q + length (A @ B)) old"
    by (simp only: t r d dd) simp
  also have "\<dots> = overwrite q (A @ B) old"
    using False by (simp add: overwrite_def P_def)
  finally show ?thesis by (simp only: x)
qed

lemma overwrite_nothing: "overwrite q [] old = old"
  by (simp add: overwrite_def)

lemma overwrite_fresh: "overwrite 0 A [] = A"
  by (simp add: overwrite_def)

lemma px_sendfile_fail:
  assumes rf: "reference_fs os" and "file_of (kern s) b = Some jb" "file_of (kern s) a = Some ja"
    "transfers (kern s) (ticks (kern s)) = Fail e"
  shows "sys_sendfile os b a off n s =
    ((- 1, off), s\<lparr>errno := e, kern := (kern s)\<lparr>ticks := Suc (ticks (kern s))\<rparr>\<rparr>)"
  using assms by (simp add: reference_fs_def px_sendfile_def Let_def)

lemma px_sendfile_upto:
  assumes rf: "reference_fs os" and "file_of (kern s) b = Some jb" "file_of (kern s) a = Some ja"
    "transfers (kern s) (ticks (kern s)) = Upto cap"
    "chunk = take (min cap (nat n)) (drop (nat off) (i_data (inodes (kern s) ! of_ino (ofiles (kern s) ! ja))))"
  shows "sys_sendfile os b a off n s =
    ((int (length chunk), off + int (length chunk)),
     s\<lparr>kern := (kern s)\<lparr>inodes := (inodes (kern s))[of_ino (ofiles (kern s) ! jb) :=
            (inodes (kern s) ! of_ino (ofiles (kern s) ! jb))\<lparr>i_data :=
               overwrite (of_pos (ofiles (kern s) ! jb)) chunk
                 (i_data (inodes (kern s) ! of_ino (ofiles (kern s) ! jb)))\<rparr>],
          ofiles := (ofiles (kern s))[jb := (ofiles (kern s) ! jb)\<lparr>of_pos :=
             of_pos (ofiles (kern s) ! jb) + length chunk\<rparr>],
          ticks := Suc (ticks (kern s))\<rparr>\<rparr>)"
  using assms by (simp add: reference_fs_def px_sendfile_def Let_def)

text \<open>The state a run of the copy loop leaves: only the destination's bytes and position,
  the transfer count and errno differ.\<close>

lemma px_copy_loop_aux:
  assumes run: "copy_loop os a b off rem s = Some y"
  shows "reference_fs os \<longrightarrow> file_of (kern s) a = Some ja \<longrightarrow> file_of (kern s) b = Some jb \<longrightarrow>
     of_ino (ofiles (kern s) ! ja) \<noteq> of_ino (ofiles (kern s) ! jb) \<longrightarrow>
     0 \<le> off \<longrightarrow>
     rem = int (length (i_data (inodes (kern s) ! of_ino (ofiles (kern s) ! ja)))) - off \<longrightarrow>
     i_data (inodes (kern s) ! of_ino (ofiles (kern s) ! jb)) =
       overwrite q (take (nat off) (i_data (inodes (kern s) ! of_ino (ofiles (kern s) ! ja)))) old0 \<longrightarrow>
     of_pos (ofiles (kern s) ! jb) = q + nat off \<longrightarrow>
     (\<exists>D P T E. snd y = s\<lparr>errno := E, kern := (kern s)\<lparr>inodes := (inodes (kern s))
            [of_ino (ofiles (kern s) ! jb) := (inodes (kern s) ! of_ino (ofiles (kern s) ! jb))\<lparr>i_data := D\<rparr>],
          ofiles := (ofiles (kern s))[jb := (ofiles (kern s) ! jb)\<lparr>of_pos := P\<rparr>],
          ticks := T\<rparr>\<rparr> \<and>
        (fst y = 0 \<or> fst y = - 1) \<and>
        (fst y = 0 \<longrightarrow>
           D = overwrite q (i_data (inodes (kern s) ! of_ino (ofiles (kern s) ! ja))) old0 \<and>
           E = errno s))"
proof (rule copy_loop.raw_induct [OF _ run, where P = "\<lambda>os a b off rem s y.
     reference_fs os \<longrightarrow> file_of (kern s) a = Some ja \<longrightarrow> file_of (kern s) b = Some jb \<longrightarrow>
     of_ino (ofiles (kern s) ! ja) \<noteq> of_ino (ofiles (kern s) ! jb) \<longrightarrow>
     0 \<le> off \<longrightarrow>
     rem = int (length (i_data (inodes (kern s) ! of_ino (ofiles (kern s) ! ja)))) - off \<longrightarrow>
     i_data (inodes (kern s) ! of_ino (ofiles (kern s) ! jb)) =
       overwrite q (take (nat off) (i_data (inodes (kern s) ! of_ino (ofiles (kern s) ! ja)))) old0 \<longrightarrow>
     of_pos (ofiles (kern s) ! jb) = q + nat off \<longrightarrow>
     (\<exists>D P T E. snd y = s\<lparr>errno := E, kern := (kern s)\<lparr>inodes := (inodes (kern s))
            [of_ino (ofiles (kern s) ! jb) := (inodes (kern s) ! of_ino (ofiles (kern s) ! jb))\<lparr>i_data := D\<rparr>],
          ofiles := (ofiles (kern s))[jb := (ofiles (kern s) ! jb)\<lparr>of_pos := P\<rparr>],
          ticks := T\<rparr>\<rparr> \<and>
        (fst y = 0 \<or> fst y = - 1) \<and>
        (fst y = 0 \<longrightarrow>
           D = overwrite q (i_data (inodes (kern s) ! of_ino (ofiles (kern s) ! ja))) old0 \<and>
           E = errno s))"], intro impI)
  fix f os a b off rem s and y :: "int \<times> kernel proc"
  assume IH: "\<And>os a b off rem s y. f os a b off rem s = Some y \<Longrightarrow>
     reference_fs os \<longrightarrow> file_of (kern s) a = Some ja \<longrightarrow> file_of (kern s) b = Some jb \<longrightarrow>
     of_ino (ofiles (kern s) ! ja) \<noteq> of_ino (ofiles (kern s) ! jb) \<longrightarrow>
     0 \<le> off \<longrightarrow>
     rem = int (length (i_data (inodes (kern s) ! of_ino (ofiles (kern s) ! ja)))) - off \<longrightarrow>
     i_data (inodes (kern s) ! of_ino (ofiles (kern s) ! jb)) =
       overwrite q (take (nat off) (i_data (inodes (kern s) ! of_ino (ofiles (kern s) ! ja)))) old0 \<longrightarrow>
     of_pos (ofiles (kern s) ! jb) = q + nat off \<longrightarrow>
     (\<exists>D P T E. snd y = s\<lparr>errno := E, kern := (kern s)\<lparr>inodes := (inodes (kern s))
            [of_ino (ofiles (kern s) ! jb) := (inodes (kern s) ! of_ino (ofiles (kern s) ! jb))\<lparr>i_data := D\<rparr>],
          ofiles := (ofiles (kern s))[jb := (ofiles (kern s) ! jb)\<lparr>of_pos := P\<rparr>],
          ticks := T\<rparr>\<rparr> \<and>
        (fst y = 0 \<or> fst y = - 1) \<and>
        (fst y = 0 \<longrightarrow>
           D = overwrite q (i_data (inodes (kern s) ! of_ino (ofiles (kern s) ! ja))) old0 \<and>
           E = errno s))"
  and body: "(if 0 < rem
      then case sys_sendfile os b a off rem s of
           ((sent, offset'), s') \<Rightarrow>
             if sent < 0 then Some (- 1, s')
             else f os a b offset' (rem - sent) s'
      else Some (0, s)) = Some y"
  and os: "reference_fs os"
  and fa: "file_of (kern s) a = Some ja" and fb: "file_of (kern s) b = Some jb"
  and ne: "of_ino (ofiles (kern s) ! ja) \<noteq> of_ino (ofiles (kern s) ! jb)"
  and off0: "0 \<le> off"
  and rem: "rem = int (length (i_data (inodes (kern s) ! of_ino (ofiles (kern s) ! ja)))) - off"
  and data: "i_data (inodes (kern s) ! of_ino (ofiles (kern s) ! jb)) =
       overwrite q (take (nat off) (i_data (inodes (kern s) ! of_ino (ofiles (kern s) ! ja)))) old0"
  and pos: "of_pos (ofiles (kern s) ! jb) = q + nat off"
  define k where "k = kern s"
  define i where "i = of_ino (ofiles k ! ja)"
  define j where "j = of_ino (ofiles k ! jb)"
  define src where "src = i_data (inodes k ! i)"
  note va = file_of_valid [OF fa] and vb = file_of_valid [OF fb]
  have jlt: "j < length (inodes k)" and jblt: "jb < length (ofiles k)"
    and ilt: "i < length (inodes k)" and jalt: "ja < length (ofiles k)"
    using va vb by (simp_all add: i_def j_def k_def)
  have jajb: "ja \<noteq> jb" using ne by auto
  have ij: "i \<noteq> j" using ne by (simp add: i_def j_def k_def)
  have "\<exists>D P T E. snd y = s\<lparr>errno := E, kern := k\<lparr>inodes := (inodes k)
            [j := (inodes k ! j)\<lparr>i_data := D\<rparr>],
          ofiles := (ofiles k)[jb := (ofiles k ! jb)\<lparr>of_pos := P\<rparr>],
          ticks := T\<rparr>\<rparr> \<and>
        (fst y = 0 \<or> fst y = - 1) \<and>
        (fst y = 0 \<longrightarrow> D = overwrite q src old0 \<and> E = errno s)"
  proof (cases "0 < rem")
    case False
    with body have y: "y = (0, s)" by simp
    from False rem have "length src \<le> nat off" by (simp add: src_def i_def k_def)
    then have "take (nat off) src = src" by simp
    with data have d: "i_data (inodes k ! j) = overwrite q src old0"
      by (simp add: src_def i_def j_def k_def)
    have "(inodes k ! j)\<lparr>i_data := i_data (inodes k ! j)\<rparr> = inodes k ! j" by simp
    then have "(inodes k ! j)\<lparr>i_data := overwrite q src old0\<rparr> = inodes k ! j"
      unfolding d .
    then have "s\<lparr>errno := errno s, kern := k\<lparr>inodes := (inodes k)
            [j := (inodes k ! j)\<lparr>i_data := overwrite q src old0\<rparr>],
          ofiles := (ofiles k)[jb := (ofiles k ! jb)\<lparr>of_pos := of_pos (ofiles k ! jb)\<rparr>],
          ticks := ticks k\<rparr>\<rparr> = s"
      by (simp add: k_def)
    with y show ?thesis
      by - (rule exI [of _ "overwrite q src old0"], rule exI [of _ "of_pos (ofiles k ! jb)"], rule exI [of _ "ticks k"], rule exI [of _ "errno s"], simp)
  next
    case pos_rem: True
    show ?thesis
    proof (cases "transfers k (ticks k)")
      case (Fail e)
      from px_sendfile_fail [OF os fb fa Fail [unfolded k_def], of off rem] body pos_rem
      have y: "y = (- 1, s\<lparr>errno := e, kern := k\<lparr>ticks := Suc (ticks k)\<rparr>\<rparr>)"
        by (simp add: k_def)
      show ?thesis
        using y
        by - (rule exI [of _ "i_data (inodes k ! j)"], rule exI [of _ "of_pos (ofiles k ! jb)"], rule exI [of _ "Suc (ticks k)"], rule exI [of _ e], simp)
    next
      case (Upto cap)
      define chunk where "chunk = take (min cap (nat rem)) (drop (nat off) src)"
      define k1 where "k1 = k\<lparr>inodes := (inodes k)[j := (inodes k ! j)\<lparr>i_data :=
               overwrite (of_pos (ofiles k ! jb)) chunk (i_data (inodes k ! j))\<rparr>],
          ofiles := (ofiles k)[jb := (ofiles k ! jb)\<lparr>of_pos := of_pos (ofiles k ! jb) + length chunk\<rparr>],
          ticks := Suc (ticks k)\<rparr>"
      have sf: "sys_sendfile os b a off rem s =
          ((int (length chunk), off + int (length chunk)), s\<lparr>kern := k1\<rparr>)"
        using px_sendfile_upto [OF os fb fa Upto [unfolded k_def], of chunk rem off]
        by (simp add: chunk_def src_def i_def j_def k_def k1_def)
      with body pos_rem have rec: "f os a b (off + int (length chunk)) (rem - int (length chunk))
          (s\<lparr>kern := k1\<rparr>) = Some y"
        by simp
      have oj: "of_ino (ofiles k1 ! m) = of_ino (ofiles k ! m)" if "m < length (ofiles k)" for m
        using that by (cases "m = jb") (simp_all add: k1_def)
      have fa1: "file_of k1 a = Some ja" and fb1: "file_of k1 b = Some jb"
        using fa fb file_of_frame [of k1 k] oj by (simp_all add: k1_def k_def)
      have i1: "of_ino (ofiles k1 ! ja) = i" and j1: "of_ino (ofiles k1 ! jb) = j"
        using jalt jblt oj by (simp_all add: i_def j_def)
      have src1: "i_data (inodes k1 ! i) = src"
        using ij by (simp add: k1_def src_def)
      have offlt: "nat off \<le> length src" using pos_rem rem off0 by (simp add: src_def i_def k_def)
      have "overwrite (q + nat off) chunk (overwrite q (take (nat off) src) old0) =
          overwrite q (take (nat off) src @ chunk) old0"
        using overwrite_append [of q "take (nat off) src" chunk old0] offlt by simp
      moreover have "take (nat off) src @ chunk = take (nat off + length chunk) src"
        by (simp add: chunk_def take_add min_def)
      ultimately have data1: "i_data (inodes k1 ! j) =
          overwrite q (take (nat (off + int (length chunk))) src) old0"
        using jlt data pos off0
        by (simp add: k1_def nat_add_distrib src_def i_def j_def k_def)
      have pos1: "of_pos (ofiles k1 ! jb) = q + nat (off + int (length chunk))"
        using jblt pos off0 by (simp add: k1_def nat_add_distrib k_def)
      have rem1: "rem - int (length chunk) = int (length src) - (off + int (length chunk))"
        using rem by (simp add: src_def i_def k_def)
      from IH [OF rec] os fa1 fb1 i1 j1 ij src1 data1 pos1 rem1 off0
      obtain D P T E where
        y: "snd y = s\<lparr>kern := k1\<rparr>\<lparr>errno := E, kern := k1\<lparr>inodes := (inodes k1)
            [j := (inodes k1 ! j)\<lparr>i_data := D\<rparr>],
          ofiles := (ofiles k1)[jb := (ofiles k1 ! jb)\<lparr>of_pos := P\<rparr>], ticks := T\<rparr>\<rparr>"
        and r: "fst y = 0 \<or> fst y = - 1"
        and ok: "fst y = 0 \<longrightarrow> D = overwrite q src old0 \<and> E = errno s"
        by auto
      have "snd y = s\<lparr>errno := E, kern := k\<lparr>inodes := (inodes k)[j := (inodes k ! j)\<lparr>i_data := D\<rparr>],
          ofiles := (ofiles k)[jb := (ofiles k ! jb)\<lparr>of_pos := P\<rparr>], ticks := T\<rparr>\<rparr>"
        using y jlt jblt by (simp add: k1_def)
      with r ok show ?thesis
        by - (rule exI [of _ D], rule exI [of _ P], rule exI [of _ T], rule exI [of _ E], simp)
    qed
  qed
  then show "\<exists>D P T E. snd y = s\<lparr>errno := E, kern := (kern s)\<lparr>inodes := (inodes (kern s))
            [of_ino (ofiles (kern s) ! jb) := (inodes (kern s) ! of_ino (ofiles (kern s) ! jb))\<lparr>i_data := D\<rparr>],
          ofiles := (ofiles (kern s))[jb := (ofiles (kern s) ! jb)\<lparr>of_pos := P\<rparr>],
          ticks := T\<rparr>\<rparr> \<and>
        (fst y = 0 \<or> fst y = - 1) \<and>
        (fst y = 0 \<longrightarrow>
           D = overwrite q (i_data (inodes (kern s) ! of_ino (ofiles (kern s) ! ja))) old0 \<and>
           E = errno s)"
    unfolding src_def j_def i_def k_def .
qed

lemmas open_flag_defs = O_RDONLY_def O_WRONLY_def O_CREAT_def O_EXCL_def O_TRUNC_def O_CLOEXEC_def

lemma install_eq:
  "install i s = (int (length (fdtab (kern s))),
     s\<lparr>kern := (kern s)\<lparr>ofiles := ofiles (kern s) @ [\<lparr>of_ino = i, of_pos = 0\<rparr>],
                        fdtab := fdtab (kern s) @ [Some (length (ofiles (kern s)))]\<rparr>\<rparr>)"
  by (simp add: install_def Let_def)


lemma px_openat_missing:
  "reference_fs os \<Longrightarrow> lookup (kern s) d name = None \<Longrightarrow>
   sys_openat os d (Some name) (O_RDONLY OR O_CLOEXEC) m s = fail ENOENT s"
  by (simp add: reference_fs_def px_openat_def open_flag_defs Let_def)

lemma px_openat_null: "reference_fs os \<Longrightarrow> sys_openat os d None fl m s = fail EFAULT s"
  by (simp add: reference_fs_def px_openat_def)




lemma px_openat_create:
  assumes "reference_fs os" and "lookup (kern s) d name = None"
    and "fl = O_WRONLY OR O_CREAT OR O_EXCL OR O_CLOEXEC \<or> fl = O_WRONLY OR O_CREAT OR O_TRUNC OR O_CLOEXEC"
  shows "sys_openat os d (Some name) fl m s =
     install (length (inodes (kern s)))
       (s\<lparr>kern := (kern s)\<lparr>entries := (entries (kern s))((d, name) \<mapsto> length (inodes (kern s))),
             inodes := inodes (kern s) @
               [\<lparr>i_data = [], i_mode = m AND NOT (umask (kern s)), i_dev = device (kern s) (d, name)\<rparr>]\<rparr>\<rparr>)"
  using assms by (auto simp: reference_fs_def px_openat_def open_flag_defs Let_def)

lemma px_dup:
  "reference_fs os \<Longrightarrow> file_of (kern s) fd = Some j \<Longrightarrow>
   sys_dup os fd s = (int (length (fdtab (kern s))),
     s\<lparr>kern := (kern s)\<lparr>fdtab := fdtab (kern s) @ [Some j]\<rparr>\<rparr>)"
  by (simp add: reference_fs_def px_dup_def Let_def)

lemma px_dup_bad: "reference_fs os \<Longrightarrow> file_of (kern s) fd = None \<Longrightarrow> sys_dup os fd s = fail EBADF s"
  by (simp add: reference_fs_def px_dup_def Let_def)

lemma px_fstat:
  "reference_fs os \<Longrightarrow> file_of (kern s) fd = Some j \<Longrightarrow>
   sys_fstat os fd s =
     ((0, \<lparr>st_size = int (length (i_data (inodes (kern s) ! of_ino (ofiles (kern s) ! j)))),
           st_mode = i_mode (inodes (kern s) ! of_ino (ofiles (kern s) ! j))\<rparr>), s)"
  by (simp add: reference_fs_def px_fstat_def Let_def)

lemma px_close:
  "reference_fs os \<Longrightarrow> file_of (kern s) fd = Some j \<Longrightarrow>
   sys_close os fd s = (0, s\<lparr>kern := (kern s)\<lparr>fdtab := (fdtab (kern s))[nat fd := None]\<rparr>\<rparr>)"
  by (simp add: reference_fs_def px_close_def Let_def)

lemma px_unlinkat:
  "reference_fs os \<Longrightarrow> lookup (kern s) d name = Some i \<Longrightarrow>
   sys_unlinkat os d (Some name) fl s =
     (0, s\<lparr>kern := (kern s)\<lparr>entries := (entries (kern s))((d, name) := None)\<rparr>\<rparr>)"
  by (simp add: reference_fs_def px_unlinkat_def Let_def)


text \<open>Descriptors of a kernel whose tables have grown or changed.\<close>

lemma file_of_new:
  assumes "fdtab k' = tab @ [Some j]" "j < length (ofiles k')" "of_ino (ofiles k' ! j) < length (inodes k')"
  shows "file_of k' (int (length tab)) = Some j"
  using assms by (simp add: file_of_def)

lemma file_of_old:
  assumes "file_of k fd = Some j" "fdtab k' = fdtab k @ tab" "ofiles k' = ofiles k @ ofs"
    "length (inodes k) \<le> length (inodes k')"
  shows "file_of k' fd = Some j"
  using assms file_of_valid [OF assms(1)] by (auto simp: file_of_def nth_append)

lemma lookup_frame:
  "entries k' = entries k \<Longrightarrow> length (inodes k') = length (inodes k) \<Longrightarrow>
   lookup k' d name = lookup k d name"
  by (simp add: lookup_def split: option.splits)


text \<open>The copier on the reference kernel.\<close>

lemma px_copy_fd:
  assumes rf: "reference_fs os" and run: "copy_fd os a b s = Some (r, s')"
    and fa: "file_of (kern s) a = Some ja" and fb: "file_of (kern s) b = Some jb"
    and ne: "of_ino (ofiles (kern s) ! ja) \<noteq> of_ino (ofiles (kern s) ! jb)"
  shows "\<exists>D P T E. s' = s\<lparr>errno := E, kern := (kern s)\<lparr>inodes := (inodes (kern s))
            [of_ino (ofiles (kern s) ! jb) := (inodes (kern s) ! of_ino (ofiles (kern s) ! jb))\<lparr>i_data := D\<rparr>],
          ofiles := (ofiles (kern s))[jb := (ofiles (kern s) ! jb)\<lparr>of_pos := P\<rparr>],
          ticks := T\<rparr>\<rparr> \<and>
        (r = 0 \<or> r = - 1) \<and>
        (r = 0 \<longrightarrow>
           D = overwrite (of_pos (ofiles (kern s) ! jb))
                 (i_data (inodes (kern s) ! of_ino (ofiles (kern s) ! ja)))
                 (i_data (inodes (kern s) ! of_ino (ofiles (kern s) ! jb))) \<and>
           E = errno s)"
proof -
  from run px_fstat [OF rf fa]
  have l: "copy_loop os a b 0
      (int (length (i_data (inodes (kern s) ! of_ino (ofiles (kern s) ! ja))))) s = Some (r, s')"
    by (simp add: copy_fd_def)
  from px_copy_loop_aux [OF l, of ja jb "of_pos (ofiles (kern s) ! jb)"
      "i_data (inodes (kern s) ! of_ino (ofiles (kern s) ! jb))"] rf fa fb ne
  show ?thesis by (simp add: overwrite_nothing)
qed

lemma file_of_closed_other:
  assumes "file_of k b = Some jb" "fdtab k' = (fdtab k)[n := None]" "n \<noteq> nat b"
    "ofiles k' = ofiles k" "inodes k' = inodes k"
  shows "file_of k' b = Some jb"
  using assms file_of_valid [OF assms(1)] by (simp add: file_of_def)

lemma px_finish_copy:
  assumes rf: "reference_fs os" and run: "finish_copy os a b s = Some (r, s')"
    and fa: "file_of (kern s) a = Some ja" and fb: "file_of (kern s) b = Some jb"
    and ne: "of_ino (ofiles (kern s) ! ja) \<noteq> of_ino (ofiles (kern s) ! jb)"
  shows "\<exists>D P T E. s' = s\<lparr>errno := E, kern := (kern s)\<lparr>inodes := (inodes (kern s))
            [of_ino (ofiles (kern s) ! jb) := (inodes (kern s) ! of_ino (ofiles (kern s) ! jb))\<lparr>i_data := D\<rparr>],
          ofiles := (ofiles (kern s))[jb := (ofiles (kern s) ! jb)\<lparr>of_pos := P\<rparr>],
          fdtab := (fdtab (kern s))[nat a := None, nat b := None],
          ticks := T\<rparr>\<rparr> \<and>
        (r = 0 \<or> r = - 1) \<and>
        (r = 0 \<longrightarrow>
           D = overwrite (of_pos (ofiles (kern s) ! jb))
                 (i_data (inodes (kern s) ! of_ino (ofiles (kern s) ! ja)))
                 (i_data (inodes (kern s) ! of_ino (ofiles (kern s) ! jb))) \<and>
           E = errno s)"
proof -
  define k where "k = kern s"
  define j where "j = of_ino (ofiles k ! jb)"
  note va = file_of_valid [OF fa] and vb = file_of_valid [OF fb]
  have ab: "nat a \<noteq> nat b" using va vb ne by auto
  from run obtain r1 s1 where c: "copy_fd os a b s = Some (r1, s1)"
    by (auto simp: finish_copy_def split: option.splits)
  from px_copy_fd [OF rf c fa fb ne] obtain D P T E where
    s1: "s1 = s\<lparr>errno := E, kern := k\<lparr>inodes := (inodes k)[j := (inodes k ! j)\<lparr>i_data := D\<rparr>],
          ofiles := (ofiles k)[jb := (ofiles k ! jb)\<lparr>of_pos := P\<rparr>], ticks := T\<rparr>\<rparr>"
    and r1: "r1 = 0 \<or> r1 = - 1"
    and ok: "r1 = 0 \<longrightarrow> D = overwrite (of_pos (ofiles k ! jb))
                 (i_data (inodes k ! of_ino (ofiles k ! ja))) (i_data (inodes k ! j)) \<and> E = errno s"
    unfolding k_def j_def by blast
  have oj: "of_ino (ofiles (kern s1) ! m) = of_ino (ofiles k ! m)" if "m < length (ofiles k)" for m
    using that by (cases "m = jb") (simp_all add: s1)
  have fa1: "file_of (kern s1) a = Some ja" and fb1: "file_of (kern s1) b = Some jb"
    using fa fb file_of_frame [of "kern s1" k] oj by (simp_all add: s1 k_def)
  define s2 where "s2 = s1\<lparr>kern := (kern s1)\<lparr>fdtab := (fdtab (kern s1))[nat a := None]\<rparr>\<rparr>"
  have c1: "sys_close os a s1 = (0, s2)" using px_close [OF rf fa1] by (simp add: s2_def)
  have fb2: "file_of (kern s2) b = Some jb"
    using file_of_closed_other [OF fb1, of "kern s2" "nat a"] ab by (simp add: s2_def)
  define s3 where "s3 = s2\<lparr>kern := (kern s2)\<lparr>fdtab := (fdtab (kern s2))[nat b := None]\<rparr>\<rparr>"
  have c2: "sys_close os b s2 = (0, s3)" using px_close [OF rf fb2] by (simp add: s3_def)
  from run c c1 c2 have res: "r = (if r1 \<noteq> 0 then - 1 else 0)"
    "s' = (if r1 \<noteq> 0 then s3\<lparr>errno := errno s1\<rparr> else s3)"
    by (auto simp: finish_copy_def split: if_splits)
  have "s' = s\<lparr>errno := E, kern := k\<lparr>inodes := (inodes k)[j := (inodes k ! j)\<lparr>i_data := D\<rparr>],
          ofiles := (ofiles k)[jb := (ofiles k ! jb)\<lparr>of_pos := P\<rparr>],
          fdtab := (fdtab k)[nat a := None, nat b := None], ticks := T\<rparr>\<rparr>"
    using res(2) by (simp add: s3_def s2_def s1 k_def)
  with res(1) r1 ok have "\<exists>D P T E. s' = s\<lparr>errno := E, kern := k\<lparr>inodes := (inodes k)
            [j := (inodes k ! j)\<lparr>i_data := D\<rparr>],
          ofiles := (ofiles k)[jb := (ofiles k ! jb)\<lparr>of_pos := P\<rparr>],
          fdtab := (fdtab k)[nat a := None, nat b := None],
          ticks := T\<rparr>\<rparr> \<and>
        (r = 0 \<or> r = - 1) \<and>
        (r = 0 \<longrightarrow>
           D = overwrite (of_pos (ofiles k ! jb)) (i_data (inodes k ! of_ino (ofiles k ! ja)))
                 (i_data (inodes k ! j)) \<and>
           E = errno s)"
    by - (rule exI [of _ D], rule exI [of _ P], rule exI [of _ T], rule exI [of _ E], auto)
  then show ?thesis unfolding j_def k_def .
qed


lemma px_copy_rest_fresh:
  assumes rf: "reference_fs os" and fd: "file_of (kern s1) fd = Some jf"
    and dst: "lookup (kern s1) nd name = None"
    and fl: "fl = O_WRONLY OR O_CREAT OR O_EXCL OR O_CLOEXEC \<or> fl = O_WRONLY OR O_CREAT OR O_TRUNC OR O_CLOEXEC"
    and run: "(case sys_openat os nd (Some name) fl m s1 of
               (dst_fd, s3) \<Rightarrow>
                 if dst_fd < 0 then close_saving os fd s3
                 else finish_copy os fd dst_fd s3) = Some (r, s')"
  shows "\<exists>D P T E. s' = s1\<lparr>errno := E, kern := (kern s1)\<lparr>
            entries := (entries (kern s1))((nd, name) \<mapsto> length (inodes (kern s1))),
            inodes := inodes (kern s1) @
              [\<lparr>i_data = D, i_mode = m AND NOT (umask (kern s1)), i_dev = device (kern s1) (nd, name)\<rparr>],
            ofiles := ofiles (kern s1) @ [\<lparr>of_ino = length (inodes (kern s1)), of_pos = P\<rparr>],
            fdtab := (fdtab (kern s1) @ [Some (length (ofiles (kern s1)))])
              [nat fd := None, length (fdtab (kern s1)) := None],
            ticks := T\<rparr>\<rparr> \<and>
          (r = 0 \<or> r = - 1) \<and>
          (r = 0 \<longrightarrow> D = i_data (inodes (kern s1) ! of_ino (ofiles (kern s1) ! jf)) \<and> E = errno s1)"
proof -
  define k where "k = kern s1"
  define J where "J = length (inodes k)"
  define new where "new = \<lparr>i_data = [], i_mode = m AND NOT (umask k), i_dev = device k (nd, name)\<rparr>"
  define k3 where "k3 = k\<lparr>entries := (entries k)((nd, name) \<mapsto> J), inodes := inodes k @ [new],
      ofiles := ofiles k @ [\<lparr>of_ino = J, of_pos = 0\<rparr>],
      fdtab := fdtab k @ [Some (length (ofiles k))]\<rparr>"
  define dfd where "dfd = int (length (fdtab k))"
  note v = file_of_valid [OF fd, folded k_def]
  have op: "sys_openat os nd (Some name) fl m s1 = (dfd, s1\<lparr>kern := k3\<rparr>)"
    using px_openat_create [OF rf dst fl, of m]
    by (simp add: install_eq k3_def dfd_def new_def J_def k_def)
  with run have fc: "finish_copy os fd dfd (s1\<lparr>kern := k3\<rparr>) = Some (r, s')"
    by (simp add: dfd_def)
  have f1: "file_of k3 fd = Some jf"
    using v by (auto simp: file_of_def k3_def nth_append)
  have f2: "file_of k3 dfd = Some (length (ofiles k))"
    by (simp add: file_of_def k3_def dfd_def J_def)
  have i1: "of_ino (ofiles k3 ! jf) = of_ino (ofiles k ! jf)"
    using v by (simp add: k3_def nth_append)
  have j1: "of_ino (ofiles k3 ! length (ofiles k)) = J" by (simp add: k3_def)
  have ne: "of_ino (ofiles k3 ! jf) \<noteq> of_ino (ofiles k3 ! length (ofiles k))"
    using v by (simp add: i1 j1 J_def)
  have src: "inodes k3 ! of_ino (ofiles k ! jf) = inodes k ! of_ino (ofiles k ! jf)"
    using v by (simp add: k3_def nth_append)
  from px_finish_copy [of os fd dfd "s1\<lparr>kern := k3\<rparr>" r s' jf "length (ofiles k)"] rf fc f1 f2 ne
  obtain D P T E where
    s': "s' = s1\<lparr>kern := k3\<rparr>\<lparr>errno := E, kern := k3\<lparr>inodes := (inodes k3)
            [of_ino (ofiles k3 ! length (ofiles k)) :=
               (inodes k3 ! of_ino (ofiles k3 ! length (ofiles k)))\<lparr>i_data := D\<rparr>],
          ofiles := (ofiles k3)[length (ofiles k) := (ofiles k3 ! length (ofiles k))\<lparr>of_pos := P\<rparr>],
          fdtab := (fdtab k3)[nat fd := None, nat dfd := None],
          ticks := T\<rparr>\<rparr>"
    and r: "r = 0 \<or> r = - 1"
    and ok: "r = 0 \<longrightarrow>
           D = overwrite (of_pos (ofiles k3 ! length (ofiles k)))
                 (i_data (inodes k3 ! of_ino (ofiles k3 ! jf)))
                 (i_data (inodes k3 ! of_ino (ofiles k3 ! length (ofiles k)))) \<and>
           E = errno s1"
    by auto
  have D: "r = 0 \<longrightarrow> D = i_data (inodes k ! of_ino (ofiles k ! jf)) \<and> E = errno s1"
    using ok src by (simp add: i1 j1) (simp add: k3_def J_def new_def overwrite_def)
  have "s' = s1\<lparr>errno := E, kern := k\<lparr>
            entries := (entries k)((nd, name) \<mapsto> length (inodes k)),
            inodes := inodes k @ [\<lparr>i_data = D, i_mode = m AND NOT (umask k), i_dev = device k (nd, name)\<rparr>],
            ofiles := ofiles k @ [\<lparr>of_ino = length (inodes k), of_pos = P\<rparr>],
            fdtab := (fdtab k @ [Some (length (ofiles k))])[nat fd := None, length (fdtab k) := None],
            ticks := T\<rparr>\<rparr>"
    unfolding s' by (simp add: j1) (simp add: k3_def J_def new_def dfd_def)
  with r D have "\<exists>D P T E. s' = s1\<lparr>errno := E, kern := k\<lparr>
            entries := (entries k)((nd, name) \<mapsto> length (inodes k)),
            inodes := inodes k @ [\<lparr>i_data = D, i_mode = m AND NOT (umask k), i_dev = device k (nd, name)\<rparr>],
            ofiles := ofiles k @ [\<lparr>of_ino = length (inodes k), of_pos = P\<rparr>],
            fdtab := (fdtab k @ [Some (length (ofiles k))])[nat fd := None, length (fdtab k) := None],
            ticks := T\<rparr>\<rparr> \<and>
          (r = 0 \<or> r = - 1) \<and>
          (r = 0 \<longrightarrow> D = i_data (inodes k ! of_ino (ofiles k ! jf)) \<and> E = errno s1)"
    by - (rule exI [of _ D], rule exI [of _ P], rule exI [of _ T], rule exI [of _ E], simp)
  then show ?thesis unfolding k_def .
qed


lemma opened_by_dup:
  assumes src: "file_of (kern s) fd_in = Some jf"
  defines "s1 \<equiv> s\<lparr>kern := (kern s)\<lparr>fdtab := fdtab (kern s) @ [Some jf]\<rparr>\<rparr>"
  shows "file_of (kern s1) (int (length (fdtab (kern s)))) = Some jf"
    and "lookup (kern s1) d' name' = lookup (kern s) d' name'"
  using file_of_valid [OF src] by (simp_all add: s1_def file_of_def lookup_def split: option.splits)








lemma linkat_exdev:
  assumes "resolve os ''linkat'' (real_linkat sh) (proc sh) = (f, p1)" "f \<noteq> 0"
    "call_atf os f od oldp nd newp fl p1 = (result, s)" "result \<noteq> 0" "errno s = EXDEV"
  shows "linkat os od oldp nd newp fl sh =
     in_shim (sh\<lparr>real_linkat := f, proc := p1\<rparr>)
       (if fl AND AT_EMPTY_PATH \<noteq> 0 \<and> (oldp = None \<or> oldp = Some [])
        then fallback_copy_from_fd os od nd newp s
        else (case sys_openat os od oldp (O_RDONLY OR O_CLOEXEC) 0 s of
             (src_fd, s1) \<Rightarrow>
               if src_fd < 0 then Some (- 1, s1)
               else (case sys_fstat os src_fd s1 of
                 ((r, st), s2) \<Rightarrow>
                   if r \<noteq> 0 then close_saving os src_fd s2
                   else (case sys_openat os nd newp
                                (O_WRONLY OR O_CREAT OR O_EXCL OR O_CLOEXEC)
                                (st_mode st AND 511) s2 of
                     (dst_fd, s3) \<Rightarrow>
                       if dst_fd < 0 then close_saving os src_fd s3
                       else finish_copy os src_fd dst_fd s3))))"
  using assms by (simp add: linkat_def Let_def)

lemma reference_fs_posix: "reference_fs posix"
  by (simp add: reference_fs_def posix_def)


subsection \<open>The fallbacks return on the reference file system\<close>

text \<open>The copy loop returns when every transfer fails or may move a byte.\<close>

lemma px_copy_loop_returns:
  assumes rf: "reference_fs os"
    and progress: "\<forall>n. transfers (kern s) n \<noteq> Upto 0"
    and fa: "file_of (kern s) a = Some ja" and fb: "file_of (kern s) b = Some jb"
    and ne: "of_ino (ofiles (kern s) ! ja) \<noteq> of_ino (ofiles (kern s) ! jb)"
    and off0: "0 \<le> off"
    and rem: "rem \<le> int (length (i_data (inodes (kern s) ! of_ino (ofiles (kern s) ! ja)))) - off"
  shows "\<exists>r s'. copy_loop os a b off rem s = Some (r, s') \<and>
     (r \<noteq> 0 \<longrightarrow> (\<exists>n e. transfers (kern s) n = Fail e))"
  using progress fa fb ne off0 rem
proof (induction "nat rem" arbitrary: rem off s rule: less_induct)
  case less
  note progress = less.prems(1) and fa = less.prems(2) and fb = less.prems(3)
    and ne = less.prems(4) and off0 = less.prems(5) and rem = less.prems(6)
  define k where "k = kern s"
  define i where "i = of_ino (ofiles k ! ja)"
  define j where "j = of_ino (ofiles k ! jb)"
  define src where "src = i_data (inodes k ! i)"
  note va = file_of_valid [OF fa] and vb = file_of_valid [OF fb]
  have jlt: "j < length (inodes k)" and jblt: "jb < length (ofiles k)"
    and ilt: "i < length (inodes k)" and jalt: "ja < length (ofiles k)"
    using va vb by (simp_all add: i_def j_def k_def)
  have ij: "i \<noteq> j" using ne by (simp add: i_def j_def k_def)
  show ?case
  proof (cases "0 < rem")
    case False
    then show ?thesis by (simp add: copy_loop_done)
  next
    case pos_rem: True
    show ?thesis
    proof (cases "transfers k (ticks k)")
      case (Fail e)
      from copy_loop_fail [OF pos_rem px_sendfile_fail [OF rf fb fa Fail [unfolded k_def], of off rem]]
      have "copy_loop os a b off rem s =
          Some (- 1, s\<lparr>errno := e, kern := (kern s)\<lparr>ticks := Suc (ticks (kern s))\<rparr>\<rparr>)"
        by simp
      moreover from Fail have "\<exists>n e. transfers (kern s) n = Fail e" unfolding k_def by blast
      ultimately show ?thesis by simp
    next
      case (Upto cap)
      from progress Upto have cap: "0 < cap" unfolding k_def by (cases "cap = 0") auto
      define chunk where "chunk = take (min cap (nat rem)) (drop (nat off) src)"
      define k1 where "k1 = k\<lparr>inodes := (inodes k)[j := (inodes k ! j)\<lparr>i_data :=
               overwrite (of_pos (ofiles k ! jb)) chunk (i_data (inodes k ! j))\<rparr>],
          ofiles := (ofiles k)[jb := (ofiles k ! jb)\<lparr>of_pos := of_pos (ofiles k ! jb) + length chunk\<rparr>],
          ticks := Suc (ticks k)\<rparr>"
      have sf: "sys_sendfile os b a off rem s =
          ((int (length chunk), off + int (length chunk)), s\<lparr>kern := k1\<rparr>)"
        using px_sendfile_upto [OF rf fb fa Upto [unfolded k_def], of chunk rem off]
        by (simp add: chunk_def src_def i_def j_def k_def k1_def)
      have len: "0 < length chunk" "int (length chunk) \<le> rem"
        using pos_rem rem off0 cap by (auto simp: chunk_def src_def i_def k_def)
      from copy_loop_step [OF pos_rem sf] have step: "copy_loop os a b off rem s =
          copy_loop os a b (off + int (length chunk)) (rem - int (length chunk)) (s\<lparr>kern := k1\<rparr>)"
        by simp
      have oj: "of_ino (ofiles k1 ! m) = of_ino (ofiles k ! m)" if "m < length (ofiles k)" for m
        using that by (cases "m = jb") (simp_all add: k1_def)
      have fa1: "file_of (kern (s\<lparr>kern := k1\<rparr>)) a = Some ja"
        and fb1: "file_of (kern (s\<lparr>kern := k1\<rparr>)) b = Some jb"
        using fa fb file_of_frame [of k1 k] oj by (simp_all add: k1_def k_def)
      have i1: "of_ino (ofiles k1 ! ja) = i" and j1: "of_ino (ofiles k1 ! jb) = j"
        using jalt jblt oj by (simp_all add: i_def j_def)
      have src1: "i_data (inodes k1 ! i) = src"
        using ij by (simp add: k1_def src_def)
      have tr: "transfers k1 = transfers k" by (simp add: k1_def)
      have "\<exists>r s'. copy_loop os a b (off + int (length chunk)) (rem - int (length chunk))
            (s\<lparr>kern := k1\<rparr>) = Some (r, s') \<and>
          (r \<noteq> 0 \<longrightarrow> (\<exists>n e. transfers (kern (s\<lparr>kern := k1\<rparr>)) n = Fail e))"
      proof (rule less.hyps [OF _ _ fa1 fb1])
        show "nat (rem - int (length chunk)) < nat rem" using len pos_rem by simp
        show "\<forall>n. transfers (kern (s\<lparr>kern := k1\<rparr>)) n \<noteq> Upto 0"
          using progress by (simp add: tr k_def)
        show "of_ino (ofiles (kern (s\<lparr>kern := k1\<rparr>)) ! ja) \<noteq> of_ino (ofiles (kern (s\<lparr>kern := k1\<rparr>)) ! jb)"
          using ij by (simp add: i1 j1)
        show "0 \<le> off + int (length chunk)" using off0 by simp
        show "rem - int (length chunk) \<le>
            int (length (i_data (inodes (kern (s\<lparr>kern := k1\<rparr>)) !
                of_ino (ofiles (kern (s\<lparr>kern := k1\<rparr>)) ! ja)))) - (off + int (length chunk))"
          using rem by (simp add: i1 src1) (simp add: src_def i_def k_def)
      qed
      then show ?thesis unfolding step by (simp add: tr k_def)
    qed
  qed
qed

lemma px_copy_fd_returns:
  assumes rf: "reference_fs os"
    and progress: "\<forall>n. transfers (kern s) n \<noteq> Upto 0"
    and fa: "file_of (kern s) a = Some ja" and fb: "file_of (kern s) b = Some jb"
    and ne: "of_ino (ofiles (kern s) ! ja) \<noteq> of_ino (ofiles (kern s) ! jb)"
  shows "\<exists>r s'. copy_fd os a b s = Some (r, s') \<and>
     (r \<noteq> 0 \<longrightarrow> (\<exists>n e. transfers (kern s) n = Fail e))"
  using px_copy_loop_returns [OF rf progress fa fb ne, of 0
      "int (length (i_data (inodes (kern s) ! of_ino (ofiles (kern s) ! ja))))"]
  by (simp add: copy_fd_def px_fstat [OF rf fa])

lemma px_finish_copy_returns:
  assumes rf: "reference_fs os"
    and progress: "\<forall>n. transfers (kern s) n \<noteq> Upto 0"
    and fa: "file_of (kern s) a = Some ja" and fb: "file_of (kern s) b = Some jb"
    and ne: "of_ino (ofiles (kern s) ! ja) \<noteq> of_ino (ofiles (kern s) ! jb)"
  shows "\<exists>r s'. finish_copy os a b s = Some (r, s') \<and>
     (r \<noteq> 0 \<longrightarrow> (\<exists>n e. transfers (kern s) n = Fail e))"
proof -
  from px_copy_fd_returns [OF rf progress fa fb ne] obtain r1 s1 where
    c: "copy_fd os a b s = Some (r1, s1)"
    and f: "r1 \<noteq> 0 \<longrightarrow> (\<exists>n e. transfers (kern s) n = Fail e)"
    by (elim exE conjE)
  obtain q1 s2 where c1: "sys_close os a s1 = (q1, s2)" by (metis prod.exhaust)
  obtain q2 s3 where c2: "sys_close os b s2 = (q2, s3)" by (metis prod.exhaust)
  have "finish_copy os a b s = Some (if r1 \<noteq> 0 then - 1 else 0, if r1 \<noteq> 0 then s3\<lparr>errno := errno s1\<rparr> else s3)"
    by (simp add: finish_copy_def c c1 c2)
  with f show ?thesis by auto
qed

text \<open>The shared part of the copy bodies returns, in the state described.\<close>

lemma px_copy_rest_total:
  assumes rf: "reference_fs os" and fd: "file_of (kern s1) fd = Some jf"
    and dst: "lookup (kern s1) nd name = None"
    and fl: "fl = O_WRONLY OR O_CREAT OR O_EXCL OR O_CLOEXEC \<or> fl = O_WRONLY OR O_CREAT OR O_TRUNC OR O_CLOEXEC"
    and progress: "\<forall>n. transfers (kern s1) n \<noteq> Upto 0"
  shows "\<exists>r s'. (case sys_openat os nd (Some name) fl m s1 of
               (dst_fd, s3) \<Rightarrow>
                 if dst_fd < 0 then close_saving os fd s3
                 else finish_copy os fd dst_fd s3) = Some (r, s') \<and>
          (r \<noteq> 0 \<longrightarrow> (\<exists>n e. transfers (kern s1) n = Fail e))"
proof -
  define k where "k = kern s1"
  define J where "J = length (inodes k)"
  define new where "new = \<lparr>i_data = [], i_mode = m AND NOT (umask k), i_dev = device k (nd, name)\<rparr>"
  define k3 where "k3 = k\<lparr>entries := (entries k)((nd, name) \<mapsto> J), inodes := inodes k @ [new],
      ofiles := ofiles k @ [\<lparr>of_ino = J, of_pos = 0\<rparr>],
      fdtab := fdtab k @ [Some (length (ofiles k))]\<rparr>"
  define dfd where "dfd = int (length (fdtab k))"
  note v = file_of_valid [OF fd, folded k_def]
  have op: "sys_openat os nd (Some name) fl m s1 = (dfd, s1\<lparr>kern := k3\<rparr>)"
    using px_openat_create [OF rf dst fl, of m]
    by (simp add: install_eq k3_def dfd_def new_def J_def k_def)
  have f1: "file_of (kern (s1\<lparr>kern := k3\<rparr>)) fd = Some jf"
    using v by (auto simp: file_of_def k3_def nth_append)
  have f2: "file_of (kern (s1\<lparr>kern := k3\<rparr>)) dfd = Some (length (ofiles k))"
    by (simp add: file_of_def k3_def dfd_def J_def)
  have i1: "of_ino (ofiles k3 ! jf) = of_ino (ofiles k ! jf)"
    using v by (simp add: k3_def nth_append)
  have j1: "of_ino (ofiles k3 ! length (ofiles k)) = J" by (simp add: k3_def)
  have ne: "of_ino (ofiles (kern (s1\<lparr>kern := k3\<rparr>)) ! jf) \<noteq>
      of_ino (ofiles (kern (s1\<lparr>kern := k3\<rparr>)) ! length (ofiles k))"
    using v by (simp add: i1 j1 J_def)
  have tr: "transfers k3 = transfers k" by (simp add: k3_def)
  have p3: "\<forall>n. transfers (kern (s1\<lparr>kern := k3\<rparr>)) n \<noteq> Upto 0"
    using progress by (simp add: tr k_def)
  from px_finish_copy_returns [OF rf p3 f1 f2 ne]
  show ?thesis by (simp add: op dfd_def tr k_def)
qed

lemma px_copy_from_fd_total:
  assumes rf: "reference_fs os"
    and src: "file_of (kern s) fd_in = Some jf"
    and dst: "lookup (kern s) nd new = None"
    and progress: "\<forall>n. transfers (kern s) n \<noteq> Upto 0"
  shows "\<exists>r s'. fallback_copy_from_fd os fd_in nd (Some new) s = Some (r, s') \<and>
     (r = 0 \<or> r = - 1) \<and>
     (r \<noteq> 0 \<longrightarrow> (\<exists>n e. transfers (kern s) n = Fail e)) \<and>
     (r = 0 \<longrightarrow> errno s' = errno s \<and>
        inodes (kern s') = inodes (kern s) @
         [\<lparr>i_data = i_data (inodes (kern s) ! of_ino (ofiles (kern s) ! jf)),
           i_mode = (i_mode (inodes (kern s) ! of_ino (ofiles (kern s) ! jf)) AND 511) AND NOT (umask (kern s)),
           i_dev = device (kern s) (nd, new)\<rparr>]) \<and>
     entries (kern s') = (entries (kern s))((nd, new) \<mapsto> length (inodes (kern s))) \<and>
     ofiles (kern s') ! jf = ofiles (kern s) ! jf \<and>
     fdtab (kern s') = fdtab (kern s) @ [None, None] \<and>
     file_of (kern s') fd_in = Some jf"
proof -
  define s1 where "s1 = s\<lparr>kern := (kern s)\<lparr>fdtab := fdtab (kern s) @ [Some jf]\<rparr>\<rparr>"
  have o: "sys_dup os fd_in s = (int (length (fdtab (kern s))), s1)"
    using px_dup [OF rf src] by (simp add: s1_def)
  note f = opened_by_dup [OF src, folded s1_def]
  note v = file_of_valid [OF src]
  have d: "lookup (kern s1) nd new = None" using f(2) dst by simp
  have ii: "inodes (kern s1) = inodes (kern s)" "ofiles (kern s1) = ofiles (kern s)"
    by (simp_all add: s1_def)
  have p1: "\<forall>n. transfers (kern s1) n \<noteq> Upto 0" using progress by (simp add: s1_def)
  have body: "fallback_copy_from_fd os fd_in nd (Some new) s =
     (case sys_openat os nd (Some new) (O_WRONLY OR O_CREAT OR O_EXCL OR O_CLOEXEC)
        (i_mode (inodes (kern s) ! of_ino (ofiles (kern s) ! jf)) AND 511) s1 of
               (dst_fd, s3) \<Rightarrow>
                 if dst_fd < 0 then close_saving os (int (length (fdtab (kern s)))) s3
                 else finish_copy os (int (length (fdtab (kern s)))) dst_fd s3)"
    by (simp add: fallback_copy_from_fd_def o px_fstat [OF rf f(1)] ii)
  from px_copy_rest_total [OF rf f(1) d _ p1, of "O_WRONLY OR O_CREAT OR O_EXCL OR O_CLOEXEC"
      "i_mode (inodes (kern s) ! of_ino (ofiles (kern s) ! jf)) AND 511"]
  obtain r s' where run: "fallback_copy_from_fd os fd_in nd (Some new) s = Some (r, s')"
    and fails: "r \<noteq> 0 \<longrightarrow> (\<exists>n e. transfers (kern s1) n = Fail e)"
    unfolding body by auto
  from px_copy_rest_fresh [OF rf f(1) d _ run [unfolded body]] obtain D P T E where
    s': "s' = s1\<lparr>errno := E, kern := (kern s1)\<lparr>
            entries := (entries (kern s1))((nd, new) \<mapsto> length (inodes (kern s1))),
            inodes := inodes (kern s1) @
              [\<lparr>i_data = D,
                i_mode = (i_mode (inodes (kern s) ! of_ino (ofiles (kern s) ! jf)) AND 511) AND NOT (umask (kern s1)),
                i_dev = device (kern s1) (nd, new)\<rparr>],
            ofiles := ofiles (kern s1) @ [\<lparr>of_ino = length (inodes (kern s1)), of_pos = P\<rparr>],
            fdtab := (fdtab (kern s1) @ [Some (length (ofiles (kern s1)))])
              [nat (int (length (fdtab (kern s)))) := None, length (fdtab (kern s1)) := None],
            ticks := T\<rparr>\<rparr>"
    and r: "r = 0 \<or> r = - 1"
    and D: "r = 0 \<longrightarrow> D = i_data (inodes (kern s1) ! of_ino (ofiles (kern s1) ! jf)) \<and> E = errno s1"
    by auto
  have tab: "fdtab (kern s') = fdtab (kern s) @ [None, None]"
    by (simp add: s' s1_def list_update_append)
  have fo: "file_of (kern s') fd_in = Some jf"
    using v by (simp add: file_of_def tab nth_append) (simp add: s' s1_def nth_append)
  have "(r = 0 \<or> r = - 1) \<and>
     (r \<noteq> 0 \<longrightarrow> (\<exists>n e. transfers (kern s) n = Fail e)) \<and>
     (r = 0 \<longrightarrow> errno s' = errno s \<and>
        inodes (kern s') = inodes (kern s) @
         [\<lparr>i_data = i_data (inodes (kern s) ! of_ino (ofiles (kern s) ! jf)),
           i_mode = (i_mode (inodes (kern s) ! of_ino (ofiles (kern s) ! jf)) AND 511) AND NOT (umask (kern s)),
           i_dev = device (kern s) (nd, new)\<rparr>]) \<and>
     entries (kern s') = (entries (kern s))((nd, new) \<mapsto> length (inodes (kern s))) \<and>
     ofiles (kern s') ! jf = ofiles (kern s) ! jf \<and>
     fdtab (kern s') = fdtab (kern s) @ [None, None] \<and>
     file_of (kern s') fd_in = Some jf"
    using r fails D tab fo v by (simp add: s' ii nth_append) (simp add: s1_def)
  with run show ?thesis by blast
qed


lemma px_copy_fd_total:
  assumes rf: "reference_fs os"
    and progress: "\<forall>n. transfers (kern s) n \<noteq> Upto 0"
    and fa: "file_of (kern s) a = Some ja" and fb: "file_of (kern s) b = Some jb"
    and ne: "of_ino (ofiles (kern s) ! ja) \<noteq> of_ino (ofiles (kern s) ! jb)"
  shows "\<exists>r s'. copy_fd os a b s = Some (r, s') \<and>
     (r = 0 \<or> r = - 1) \<and>
     (r \<noteq> 0 \<longrightarrow> (\<exists>n e. transfers (kern s) n = Fail e)) \<and>
     (r = 0 \<longrightarrow>
        i_data (inodes (kern s') ! of_ino (ofiles (kern s) ! jb))
          = overwrite (of_pos (ofiles (kern s) ! jb))
              (i_data (inodes (kern s) ! of_ino (ofiles (kern s) ! ja)))
              (i_data (inodes (kern s) ! of_ino (ofiles (kern s) ! jb)))) \<and>
     ofiles (kern s') ! ja = ofiles (kern s) ! ja"
proof -
  from px_copy_fd_returns [OF rf progress fa fb ne] obtain r s' where
    run: "copy_fd os a b s = Some (r, s')"
    and f: "r \<noteq> 0 \<longrightarrow> (\<exists>n e. transfers (kern s) n = Fail e)"
    by (elim exE conjE)
  from ne have jj: "ja \<noteq> jb" by auto
  note vb = file_of_valid [OF fb]
  from px_copy_fd [OF rf run fa fb ne] obtain D P T E where
    s': "s' = s\<lparr>errno := E, kern := (kern s)\<lparr>inodes := (inodes (kern s))
            [of_ino (ofiles (kern s) ! jb) := (inodes (kern s) ! of_ino (ofiles (kern s) ! jb))\<lparr>i_data := D\<rparr>],
          ofiles := (ofiles (kern s))[jb := (ofiles (kern s) ! jb)\<lparr>of_pos := P\<rparr>],
          ticks := T\<rparr>\<rparr>"
    and r: "r = 0 \<or> r = - 1"
    and D0: "r = 0 \<longrightarrow>
           D = overwrite (of_pos (ofiles (kern s) ! jb))
                 (i_data (inodes (kern s) ! of_ino (ofiles (kern s) ! ja)))
                 (i_data (inodes (kern s) ! of_ino (ofiles (kern s) ! jb))) \<and>
           E = errno s"
    by (elim exE conjE)
  have d: "i_data (inodes (kern s') ! of_ino (ofiles (kern s) ! jb)) = D"
    using vb by (simp add: s')
  have o: "ofiles (kern s') ! ja = ofiles (kern s) ! ja"
    using jj by (simp add: s')
  from run r f D0 d o show ?thesis
    by - (rule exI [of _ r], rule exI [of _ s'], simp)
qed

lemma list_all_reads:
  assumes "\<forall>e\<in>set xs. \<exists>off n. ev_call e = Sys_sendfile b a off n"
  shows "list_all (\<lambda>e. case ev_call e of
                           Sys_fstat f st \<Rightarrow> f = a
                         | Sys_sendfile out_fd in_fd off n \<Rightarrow> in_fd = a
                         | Sys_dup f \<Rightarrow> False
                         | _ \<Rightarrow> True) xs"
  using assms by (induction xs) auto

lemma fallback_copy_from_fd_dup:
  assumes run: "fallback_copy_from_fd (traced os) fd_in nd new s = Some (r, s')"
  shows "reads_through_duplicate fd_in (new_events s s')"
proof -
  obtain fd s1 where o: "sys_dup (traced os) fd_in s = (fd, s1)"
    by (metis prod.exhaust)
  let ?o = "\<lparr>ev_call = Sys_dup fd_in, ev_ret = fd, ev_errno = errno s1\<rparr>"
  note ho = traced_dup [OF o]
  show ?thesis
  proof (cases "fd < 0")
    case True
    with run o have "s' = s1" by (auto simp: fallback_copy_from_fd_def)
    with ho have "new_events s s' = [?o]" by (simp add: new_events_app)
    then show ?thesis by (simp add: reads_through_duplicate_def)
  next
    case open_ok: False
    obtain q st s2 where f: "sys_fstat (traced os) fd s1 = ((q, st), s2)"
      by (metis prod.exhaust)
    let ?q = "\<lparr>ev_call = Sys_fstat fd st, ev_ret = q, ev_errno = errno s2\<rparr>"
    note hf = traced_fstat [OF f]
    show ?thesis
    proof (cases "q = 0")
      case False
      with run o open_ok f have cs: "close_saving (traced os) fd s2 = Some (r, s')"
        by (simp add: fallback_copy_from_fd_def)
      show ?thesis
      proof (rule close_saving_trace [OF cs])
        fix c assume c: "history (kern s') = history (kern s2) @ [c]" "ev_call c = Sys_close fd"
        with ho hf have "new_events s s' = [?o, ?q, c]" by (simp add: new_events_app)
        with c(2) show ?thesis by (simp add: reads_through_duplicate_def)
      qed
    next
      case stat_ok: True
      obtain dfd s3 where d: "sys_openat (traced os) nd new (O_WRONLY OR O_CREAT OR O_EXCL OR O_CLOEXEC)
          (st_mode st AND 511) s2 = (dfd, s3)"
        by (metis prod.exhaust)
      let ?d = "\<lparr>ev_call = Sys_openat nd new (O_WRONLY OR O_CREAT OR O_EXCL OR O_CLOEXEC) (st_mode st AND 511),
          ev_ret = dfd, ev_errno = errno s3\<rparr>"
      note hd = traced_openat [OF d]
      show ?thesis
      proof (cases "dfd < 0")
        case True
        with run o open_ok f stat_ok d have cs: "close_saving (traced os) fd s3 = Some (r, s')"
          by (simp add: fallback_copy_from_fd_def)
        show ?thesis
        proof (rule close_saving_trace [OF cs])
          fix c assume c: "history (kern s') = history (kern s3) @ [c]" "ev_call c = Sys_close fd"
          with ho hf hd have "new_events s s' = [?o, ?q, ?d, c]" by (simp add: new_events_app)
          with c(2) show ?thesis by (simp add: reads_through_duplicate_def)
        qed
      next
        case False
        with run o open_ok f stat_ok d have fc: "finish_copy (traced os) fd dfd s3 = Some (r, s')"
          by (simp add: fallback_copy_from_fd_def)
        show ?thesis
        proof (rule finish_copy_trace [OF fc])
          fix st2 q2 xs c1 c2
          assume h: "history (kern s') = history (kern s3) @ q2 # xs @ [c1, c2]"
            and q2: "ev_call q2 = Sys_fstat fd st2"
            and xs: "\<forall>e\<in>set xs. \<exists>off n. ev_call e = Sys_sendfile dfd fd off n"
            and c: "ev_call c1 = Sys_close fd" "ev_call c2 = Sys_close dfd"
          from h ho hf hd have "new_events s s' = ?o # [?q, ?d, q2] @ xs @ [c1, c2]"
            by (simp add: new_events_app)
          with q2 c list_all_reads [OF xs] show ?thesis
            by (simp add: reads_through_duplicate_def cong: syscall.case_cong)
        qed
      qed
    qed
  qed
qed

subsection \<open>The rename fallback\<close>



subsection \<open>The link fallback\<close>



subsection \<open>The source is read from its first byte\<close>

text \<open>
  C10. On a system with the reference file system and a kernel each of whose
  transfers fails or can move at least one byte, the copier returns, with 0 when no
  transfer fails, and when it returns 0 it has written the whole content of the source
  file, from its byte 0, at the position of the destination descriptor, wherever the
  source descriptor is positioned; the open file description of the source is as it
  was. The copy from a descriptor returns likewise, and so does \<^verbatim>\<open>linkat\<close> with
  \<^verbatim>\<open>AT_EMPTY_PATH\<close> and a null or empty old path after a genuine call that failed with
  \<^verbatim>\<open>EXDEV\<close>: the new destination holds the whole file behind the descriptor of the
  caller; that descriptor is still open on the same description, whose position is
  unchanged; and the descriptor table has grown by two descriptors, both closed. On
  any system, the first call of the copy from a descriptor duplicates the descriptor
  of the caller, and every status query and every transfer after it reads the
  duplicate.
\<close>

theorem copy_reads_from_offset_zero:
  assumes "reference_fs os"
  shows
    "(file_of (kern s) src_fd = Some ja \<and> file_of (kern s) dst_fd = Some jb \<and>
      of_ino (ofiles (kern s) ! ja) \<noteq> of_ino (ofiles (kern s) ! jb) \<and>
      (\<forall>n. transfers (kern s) n \<noteq> Upto 0) \<longrightarrow>
        (\<exists>r s'. copy_fd os src_fd dst_fd s = Some (r, s') \<and>
           (r = 0 \<or> r = - 1) \<and>
           ((\<forall>n e. transfers (kern s) n \<noteq> Fail e) \<longrightarrow> r = 0) \<and>
           (r = 0 \<longrightarrow>
              i_data (inodes (kern s') ! of_ino (ofiles (kern s) ! jb))
                = overwrite (of_pos (ofiles (kern s) ! jb))
                    (i_data (inodes (kern s) ! of_ino (ofiles (kern s) ! ja)))
                    (i_data (inodes (kern s) ! of_ino (ofiles (kern s) ! jb)))) \<and>
           ofiles (kern s') ! ja = ofiles (kern s) ! ja)) \<and>
     (file_of (kern s) olddirfd = Some jf \<and> lookup (kern s) newdirfd new = None \<and>
      (\<forall>n. transfers (kern s) n \<noteq> Upto 0) \<longrightarrow>
        (\<exists>r s'. fallback_copy_from_fd os olddirfd newdirfd (Some new) s = Some (r, s') \<and>
           (r = 0 \<or> r = - 1) \<and>
           ((\<forall>n e. transfers (kern s) n \<noteq> Fail e) \<longrightarrow> r = 0) \<and>
           (r = 0 \<longrightarrow>
              inodes (kern s') = inodes (kern s) @
                [\<lparr>i_data = i_data (inodes (kern s) ! of_ino (ofiles (kern s) ! jf)),
                  i_mode = (i_mode (inodes (kern s) ! of_ino (ofiles (kern s) ! jf)) AND 511)
                             AND NOT (umask (kern s)),
                  i_dev = device (kern s) (newdirfd, new)\<rparr>]) \<and>
           ofiles (kern s') ! jf = ofiles (kern s) ! jf \<and>
           fdtab (kern s') = fdtab (kern s) @ [None, None] \<and>
           file_of (kern s') olddirfd = Some jf)) \<and>
     (resolve os ''linkat'' (real_linkat sh) (proc sh) = (f, p1) \<and> f \<noteq> 0 \<and>
      call_atf os f olddirfd oldpath newdirfd (Some new) flags p1 = (result, s) \<and>
      result \<noteq> 0 \<and> errno s = EXDEV \<and>
      flags AND AT_EMPTY_PATH \<noteq> 0 \<and> (oldpath = None \<or> oldpath = Some []) \<and>
      file_of (kern s) olddirfd = Some jf \<and> lookup (kern s) newdirfd new = None \<and>
      (\<forall>n. transfers (kern s) n \<noteq> Upto 0) \<longrightarrow>
        (\<exists>r sh'. linkat os olddirfd oldpath newdirfd (Some new) flags sh = Returns (r, sh') \<and>
           (r = 0 \<or> r = - 1) \<and>
           ((\<forall>n e. transfers (kern s) n \<noteq> Fail e) \<longrightarrow> r = 0) \<and>
           (r = 0 \<longrightarrow>
              inodes (kern (proc sh')) = inodes (kern s) @
                [\<lparr>i_data = i_data (inodes (kern s) ! of_ino (ofiles (kern s) ! jf)),
                  i_mode = (i_mode (inodes (kern s) ! of_ino (ofiles (kern s) ! jf)) AND 511)
                             AND NOT (umask (kern s)),
                  i_dev = device (kern s) (newdirfd, new)\<rparr>]) \<and>
           ofiles (kern (proc sh')) ! jf = ofiles (kern s) ! jf \<and>
           fdtab (kern (proc sh')) = fdtab (kern s) @ [None, None] \<and>
           file_of (kern (proc sh')) olddirfd = Some jf)) \<and>
     (fallback_copy_from_fd (traced sys) fd nd newpath t = Some (q, t') \<longrightarrow>
        reads_through_duplicate fd (new_events t t'))"
proof -
  note rf = assms
  have fromfd: "\<exists>r s'. fallback_copy_from_fd os olddirfd newdirfd (Some new) s = Some (r, s') \<and>
           (r = 0 \<or> r = - 1) \<and>
           ((\<forall>n e. transfers (kern s) n \<noteq> Fail e) \<longrightarrow> r = 0) \<and>
           (r = 0 \<longrightarrow>
              inodes (kern s') = inodes (kern s) @
                [\<lparr>i_data = i_data (inodes (kern s) ! of_ino (ofiles (kern s) ! jf)),
                  i_mode = (i_mode (inodes (kern s) ! of_ino (ofiles (kern s) ! jf)) AND 511)
                             AND NOT (umask (kern s)),
                  i_dev = device (kern s) (newdirfd, new)\<rparr>]) \<and>
           ofiles (kern s') ! jf = ofiles (kern s) ! jf \<and>
           fdtab (kern s') = fdtab (kern s) @ [None, None] \<and>
           file_of (kern s') olddirfd = Some jf"
    if a: "file_of (kern s) olddirfd = Some jf" "lookup (kern s) newdirfd new = None"
      "\<forall>n. transfers (kern s) n \<noteq> Upto 0"
  proof -
    from px_copy_from_fd_total [OF rf a] obtain r s' where
      "fallback_copy_from_fd os olddirfd newdirfd (Some new) s = Some (r, s')"
      "r = 0 \<or> r = - 1"
      "r \<noteq> 0 \<longrightarrow> (\<exists>n e. transfers (kern s) n = Fail e)"
      "r = 0 \<longrightarrow> errno s' = errno s \<and>
        inodes (kern s') = inodes (kern s) @
         [\<lparr>i_data = i_data (inodes (kern s) ! of_ino (ofiles (kern s) ! jf)),
           i_mode = (i_mode (inodes (kern s) ! of_ino (ofiles (kern s) ! jf)) AND 511) AND NOT (umask (kern s)),
           i_dev = device (kern s) (newdirfd, new)\<rparr>]"
      "entries (kern s') = (entries (kern s))((newdirfd, new) \<mapsto> length (inodes (kern s)))"
      "ofiles (kern s') ! jf = ofiles (kern s) ! jf"
      "fdtab (kern s') = fdtab (kern s) @ [None, None]"
      "file_of (kern s') olddirfd = Some jf"
      by (elim exE conjE)
    moreover from this(3) have "(\<forall>n e. transfers (kern s) n \<noteq> Fail e) \<longrightarrow> r = 0" by blast
    ultimately show ?thesis
      by - (rule exI [of _ r], rule exI [of _ s'], simp)
  qed
  have 1: "file_of (kern s) src_fd = Some ja \<and> file_of (kern s) dst_fd = Some jb \<and>
      of_ino (ofiles (kern s) ! ja) \<noteq> of_ino (ofiles (kern s) ! jb) \<and>
      (\<forall>n. transfers (kern s) n \<noteq> Upto 0) \<longrightarrow>
        (\<exists>r s'. copy_fd os src_fd dst_fd s = Some (r, s') \<and>
           (r = 0 \<or> r = - 1) \<and>
           ((\<forall>n e. transfers (kern s) n \<noteq> Fail e) \<longrightarrow> r = 0) \<and>
           (r = 0 \<longrightarrow>
              i_data (inodes (kern s') ! of_ino (ofiles (kern s) ! jb))
                = overwrite (of_pos (ofiles (kern s) ! jb))
                    (i_data (inodes (kern s) ! of_ino (ofiles (kern s) ! ja)))
                    (i_data (inodes (kern s) ! of_ino (ofiles (kern s) ! jb)))) \<and>
           ofiles (kern s') ! ja = ofiles (kern s) ! ja)"
  proof (intro impI, elim conjE)
    assume a: "file_of (kern s) src_fd = Some ja" "file_of (kern s) dst_fd = Some jb"
      "of_ino (ofiles (kern s) ! ja) \<noteq> of_ino (ofiles (kern s) ! jb)"
      and p: "\<forall>n. transfers (kern s) n \<noteq> Upto 0"
    from px_copy_fd_total [OF rf p a] obtain r s' where
      "copy_fd os src_fd dst_fd s = Some (r, s')"
      "r = 0 \<or> r = - 1"
      "r \<noteq> 0 \<longrightarrow> (\<exists>n e. transfers (kern s) n = Fail e)"
      "r = 0 \<longrightarrow>
        i_data (inodes (kern s') ! of_ino (ofiles (kern s) ! jb))
          = overwrite (of_pos (ofiles (kern s) ! jb))
              (i_data (inodes (kern s) ! of_ino (ofiles (kern s) ! ja)))
              (i_data (inodes (kern s) ! of_ino (ofiles (kern s) ! jb)))"
      "ofiles (kern s') ! ja = ofiles (kern s) ! ja"
      by (elim exE conjE)
    moreover from this(3) have "(\<forall>n e. transfers (kern s) n \<noteq> Fail e) \<longrightarrow> r = 0" by blast
    ultimately show "\<exists>r s'. copy_fd os src_fd dst_fd s = Some (r, s') \<and>
           (r = 0 \<or> r = - 1) \<and>
           ((\<forall>n e. transfers (kern s) n \<noteq> Fail e) \<longrightarrow> r = 0) \<and>
           (r = 0 \<longrightarrow>
              i_data (inodes (kern s') ! of_ino (ofiles (kern s) ! jb))
                = overwrite (of_pos (ofiles (kern s) ! jb))
                    (i_data (inodes (kern s) ! of_ino (ofiles (kern s) ! ja)))
                    (i_data (inodes (kern s) ! of_ino (ofiles (kern s) ! jb)))) \<and>
           ofiles (kern s') ! ja = ofiles (kern s) ! ja"
      by - (rule exI [of _ r], rule exI [of _ s'], simp)
  qed
  have 2: "file_of (kern s) olddirfd = Some jf \<and> lookup (kern s) newdirfd new = None \<and>
      (\<forall>n. transfers (kern s) n \<noteq> Upto 0) \<longrightarrow>
        (\<exists>r s'. fallback_copy_from_fd os olddirfd newdirfd (Some new) s = Some (r, s') \<and>
           (r = 0 \<or> r = - 1) \<and>
           ((\<forall>n e. transfers (kern s) n \<noteq> Fail e) \<longrightarrow> r = 0) \<and>
           (r = 0 \<longrightarrow>
              inodes (kern s') = inodes (kern s) @
                [\<lparr>i_data = i_data (inodes (kern s) ! of_ino (ofiles (kern s) ! jf)),
                  i_mode = (i_mode (inodes (kern s) ! of_ino (ofiles (kern s) ! jf)) AND 511)
                             AND NOT (umask (kern s)),
                  i_dev = device (kern s) (newdirfd, new)\<rparr>]) \<and>
           ofiles (kern s') ! jf = ofiles (kern s) ! jf \<and>
           fdtab (kern s') = fdtab (kern s) @ [None, None] \<and>
           file_of (kern s') olddirfd = Some jf)"
    using fromfd by blast
  have 3: "resolve os ''linkat'' (real_linkat sh) (proc sh) = (f, p1) \<and> f \<noteq> 0 \<and>
      call_atf os f olddirfd oldpath newdirfd (Some new) flags p1 = (result, s) \<and>
      result \<noteq> 0 \<and> errno s = EXDEV \<and>
      flags AND AT_EMPTY_PATH \<noteq> 0 \<and> (oldpath = None \<or> oldpath = Some []) \<and>
      file_of (kern s) olddirfd = Some jf \<and> lookup (kern s) newdirfd new = None \<and>
      (\<forall>n. transfers (kern s) n \<noteq> Upto 0) \<longrightarrow>
        (\<exists>r sh'. linkat os olddirfd oldpath newdirfd (Some new) flags sh = Returns (r, sh') \<and>
           (r = 0 \<or> r = - 1) \<and>
           ((\<forall>n e. transfers (kern s) n \<noteq> Fail e) \<longrightarrow> r = 0) \<and>
           (r = 0 \<longrightarrow>
              inodes (kern (proc sh')) = inodes (kern s) @
                [\<lparr>i_data = i_data (inodes (kern s) ! of_ino (ofiles (kern s) ! jf)),
                  i_mode = (i_mode (inodes (kern s) ! of_ino (ofiles (kern s) ! jf)) AND 511)
                             AND NOT (umask (kern s)),
                  i_dev = device (kern s) (newdirfd, new)\<rparr>]) \<and>
           ofiles (kern (proc sh')) ! jf = ofiles (kern s) ! jf \<and>
           fdtab (kern (proc sh')) = fdtab (kern s) @ [None, None] \<and>
           file_of (kern (proc sh')) olddirfd = Some jf)"
  proof (intro impI, elim conjE)
    assume g: "resolve os ''linkat'' (real_linkat sh) (proc sh) = (f, p1)" "f \<noteq> 0"
        "call_atf os f olddirfd oldpath newdirfd (Some new) flags p1 = (result, s)"
        "result \<noteq> 0" "errno s = EXDEV"
      and c: "flags AND AT_EMPTY_PATH \<noteq> 0" "oldpath = None \<or> oldpath = Some []"
      and a: "file_of (kern s) olddirfd = Some jf" "lookup (kern s) newdirfd new = None"
        "\<forall>n. transfers (kern s) n \<noteq> Upto 0"
    from c have c': "flags AND AT_EMPTY_PATH \<noteq> 0 \<and> (oldpath = None \<or> oldpath = Some [])"
      by simp
    have l: "linkat os olddirfd oldpath newdirfd (Some new) flags sh =
        in_shim (sh\<lparr>real_linkat := f, proc := p1\<rparr>)
          (fallback_copy_from_fd os olddirfd newdirfd (Some new) s)"
      unfolding linkat_exdev [OF g] if_P [OF c'] by (rule refl)
    from fromfd [OF a] obtain r s' where
      run: "fallback_copy_from_fd os olddirfd newdirfd (Some new) s = Some (r, s')"
      and rest: "(r = 0 \<or> r = - 1) \<and>
           ((\<forall>n e. transfers (kern s) n \<noteq> Fail e) \<longrightarrow> r = 0) \<and>
           (r = 0 \<longrightarrow>
              inodes (kern s') = inodes (kern s) @
                [\<lparr>i_data = i_data (inodes (kern s) ! of_ino (ofiles (kern s) ! jf)),
                  i_mode = (i_mode (inodes (kern s) ! of_ino (ofiles (kern s) ! jf)) AND 511)
                             AND NOT (umask (kern s)),
                  i_dev = device (kern s) (newdirfd, new)\<rparr>]) \<and>
           ofiles (kern s') ! jf = ofiles (kern s) ! jf \<and>
           fdtab (kern s') = fdtab (kern s) @ [None, None] \<and>
           file_of (kern s') olddirfd = Some jf"
      by (elim exE conjE) (rule that, assumption, intro conjI)
    have "linkat os olddirfd oldpath newdirfd (Some new) flags sh =
        Returns (r, sh\<lparr>real_linkat := f, proc := s'\<rparr>)"
      unfolding l run by (simp add: in_shim_def)
    with rest show "\<exists>r sh'. linkat os olddirfd oldpath newdirfd (Some new) flags sh = Returns (r, sh') \<and>
           (r = 0 \<or> r = - 1) \<and>
           ((\<forall>n e. transfers (kern s) n \<noteq> Fail e) \<longrightarrow> r = 0) \<and>
           (r = 0 \<longrightarrow>
              inodes (kern (proc sh')) = inodes (kern s) @
                [\<lparr>i_data = i_data (inodes (kern s) ! of_ino (ofiles (kern s) ! jf)),
                  i_mode = (i_mode (inodes (kern s) ! of_ino (ofiles (kern s) ! jf)) AND 511)
                             AND NOT (umask (kern s)),
                  i_dev = device (kern s) (newdirfd, new)\<rparr>]) \<and>
           ofiles (kern (proc sh')) ! jf = ofiles (kern s) ! jf \<and>
           fdtab (kern (proc sh')) = fdtab (kern s) @ [None, None] \<and>
           file_of (kern (proc sh')) olddirfd = Some jf"
      by - (rule exI [of _ r], rule exI [of _ "sh\<lparr>real_linkat := f, proc := s'\<rparr>"], simp)
  qed
  have 4: "fallback_copy_from_fd (traced sys) fd nd newpath t = Some (q, t') \<longrightarrow>
        reads_through_duplicate fd (new_events t t')"
    using fallback_copy_from_fd_dup by blast
  from 1 2 3 4 show ?thesis by (intro conjI)
qed

text \<open>
  C10 at a concrete input: descriptor 0 is on \<^verbatim>\<open>a\<close> at byte 3. The copy to
  descriptor 1, the copy of descriptor 0 to the new name \<^verbatim>\<open>c\<close> and \<^verbatim>\<open>linkat\<close> on
  descriptor 0 with an empty old path all write \<^verbatim>\<open>hello\<close>, and descriptor 0 stays
  open at byte 3.
\<close>

theorem copy_reads_from_offset_zero_witness:
  "of_pos (ofiles (kern seeking_proc) ! 0) = 3 \<and>
   observed (copy_fd posix 0 1 seeking_proc) = Some (0, 0) \<and>
   i_data (inodes (kern (proc_after seeking_proc (copy_fd posix 0 1 seeking_proc))) ! 1) = ''hello'' \<and>
   ofiles (kern (proc_after seeking_proc (copy_fd posix 0 1 seeking_proc))) ! 0
     = \<lparr>of_ino = 0, of_pos = 3\<rparr> \<and>
   observed (fallback_copy_from_fd posix 0 AT_FDCWD (Some ''c'') seeking_proc) = Some (0, 0) \<and>
   inodes (kern (proc_after seeking_proc
       (fallback_copy_from_fd posix 0 AT_FDCWD (Some ''c'') seeking_proc)))
     = inodes demo_kernel @ [\<lparr>i_data = ''hello'', i_mode = 420, i_dev = 1\<rparr>] \<and>
   fdtab (kern (proc_after seeking_proc
       (fallback_copy_from_fd posix 0 AT_FDCWD (Some ''c'') seeking_proc)))
     = [Some 0, Some 1, None, None] \<and>
   returned (linkat posix 0 (Some []) AT_FDCWD (Some ''c'') AT_EMPTY_PATH seeking_shim)
     = Some (0, EXDEV) \<and>
   inodes (kern (proc (state_after seeking_shim
       (linkat posix 0 (Some []) AT_FDCWD (Some ''c'') AT_EMPTY_PATH seeking_shim))))
     = inodes demo_kernel @ [\<lparr>i_data = ''hello'', i_mode = 420, i_dev = 1\<rparr>] \<and>
   ofiles (kern (proc (state_after seeking_shim
       (linkat posix 0 (Some []) AT_FDCWD (Some ''c'') AT_EMPTY_PATH seeking_shim)))) ! 0
     = \<lparr>of_ino = 0, of_pos = 3\<rparr> \<and>
   file_of (kern (proc (state_after seeking_shim
       (linkat posix 0 (Some []) AT_FDCWD (Some ''c'') AT_EMPTY_PATH seeking_shim)))) 0 = Some 0 \<and>
   reads_through_duplicate 0 (run_events (logged seeking_proc)
     (fallback_copy_from_fd (traced posix) 0 AT_FDCWD (Some ''c'') (logged seeking_proc)))"
proof -
  note T = copy_reads_from_offset_zero [OF reference_fs_posix]
  have p: "\<forall>n. transfers (kern seeking_proc) n \<noteq> Upto 0"
    and nf: "\<forall>n e. transfers (kern seeking_proc) n \<noteq> Fail e"
    by (simp_all add: seeking_proc_def demo_kernel_def)
  have f: "file_of (kern seeking_proc) 0 = Some 0" "file_of (kern seeking_proc) 1 = Some 1"
    "of_ino (ofiles (kern seeking_proc) ! 0) \<noteq> of_ino (ofiles (kern seeking_proc) ! 1)"
    and lc: "lookup (kern seeking_proc) AT_FDCWD ''c'' = None"
    by code_simp+
  have v: "of_ino (ofiles (kern seeking_proc) ! 1) = 1"
    "of_ino (ofiles (kern seeking_proc) ! 0) = 0"
    "of_pos (ofiles (kern seeking_proc) ! 1) = 0"
    "overwrite 0 (i_data (inodes (kern seeking_proc) ! 0))
       (i_data (inodes (kern seeking_proc) ! 1)) = ''hello''"
    by code_simp+
  have v3: "ofiles (kern seeking_proc) ! 0 = \<lparr>of_ino = 0, of_pos = 3\<rparr>"
    and v4: "of_pos (ofiles (kern seeking_proc) ! 0) = 3"
    and v5: "fdtab (kern seeking_proc) @ [None, None] = [Some 0, Some 1, None, None]"
    and e0: "errno seeking_proc = 0"
    by code_simp+
  have new: "inodes (kern seeking_proc) @
           [\<lparr>i_data = i_data (inodes (kern seeking_proc) ! 0),
             i_mode = (i_mode (inodes (kern seeking_proc) ! 0) AND 511)
                        AND NOT (umask (kern seeking_proc)),
             i_dev = device (kern seeking_proc) (AT_FDCWD, ''c'')\<rparr>]
      = inodes demo_kernel @ [\<lparr>i_data = ''hello'', i_mode = 420, i_dev = 1\<rparr>]"
    by code_simp
  txt \<open>the copier\<close>
  let ?r1 = "copy_fd posix 0 1 seeking_proc"
  have ob1: "observed ?r1 = Some (0, 0)" by code_simp
  from T [where s = seeking_proc and src_fd = 0 and dst_fd = 1 and ja = 0 and jb = 1,
      THEN conjunct1, THEN mp, OF conjI [OF f(1) conjI [OF f(2) conjI [OF f(3) p]]]] nf
  obtain s1 where run1: "?r1 = Some (0, s1)"
    and a1: "i_data (inodes (kern s1) ! of_ino (ofiles (kern seeking_proc) ! 1))
                = overwrite (of_pos (ofiles (kern seeking_proc) ! 1))
                    (i_data (inodes (kern seeking_proc) ! of_ino (ofiles (kern seeking_proc) ! 0)))
                    (i_data (inodes (kern seeking_proc) ! of_ino (ofiles (kern seeking_proc) ! 1)))"
    and a2: "ofiles (kern s1) ! 0 = ofiles (kern seeking_proc) ! 0"
    by auto
  from a1 [unfolded v] a2 [unfolded v3] run1
  have 1: "i_data (inodes (kern (proc_after seeking_proc ?r1)) ! 1) = ''hello''"
    "ofiles (kern (proc_after seeking_proc ?r1)) ! 0 = \<lparr>of_ino = 0, of_pos = 3\<rparr>"
    by (simp_all add: proc_after_def)
  txt \<open>the copy from a descriptor\<close>
  let ?r2 = "fallback_copy_from_fd posix 0 AT_FDCWD (Some ''c'') seeking_proc"
  have ob2: "observed ?r2 = Some (0, 0)" by code_simp
  from T [where s = seeking_proc and olddirfd = 0 and newdirfd = AT_FDCWD and new = "''c''" and jf = 0,
      THEN conjunct2, THEN conjunct1, THEN mp, OF conjI [OF f(1) conjI [OF lc p]]] nf
  obtain s2 where run2: "?r2 = Some (0, s2)"
    and b1: "inodes (kern s2) = inodes (kern seeking_proc) @
                [\<lparr>i_data = i_data (inodes (kern seeking_proc) ! of_ino (ofiles (kern seeking_proc) ! 0)),
                  i_mode = (i_mode (inodes (kern seeking_proc) ! of_ino (ofiles (kern seeking_proc) ! 0)) AND 511)
                             AND NOT (umask (kern seeking_proc)),
                  i_dev = device (kern seeking_proc) (AT_FDCWD, ''c'')\<rparr>]"
    and b2: "fdtab (kern s2) = fdtab (kern seeking_proc) @ [None, None]"
    by auto
  from b1 [unfolded v, unfolded new] b2 [unfolded v5] run2
  have 2: "inodes (kern (proc_after seeking_proc ?r2))
      = inodes demo_kernel @ [\<lparr>i_data = ''hello'', i_mode = 420, i_dev = 1\<rparr>]"
    "fdtab (kern (proc_after seeking_proc ?r2)) = [Some 0, Some 1, None, None]"
    by (simp_all add: proc_after_def)
  txt \<open>linkat on the descriptor\<close>
  let ?res = "resolve posix ''linkat'' (real_linkat seeking_shim) (proc seeking_shim)"
  let ?call = "call_atf posix (fst ?res) 0 (Some []) AT_FDCWD (Some ''c'') AT_EMPTY_PATH (snd ?res)"
  let ?r3 = "linkat posix 0 (Some []) AT_FDCWD (Some ''c'') AT_EMPTY_PATH seeking_shim"
  have res: "?res = (2, seeking_proc)"
    by (simp add: demo_simps seeking_shim_def seeking_proc_def)
  have call: "?call = (- 1, seeking_proc\<lparr>errno := EXDEV\<rparr>)"
    unfolding res fst_conv snd_conv
    by (simp add: demo_simps seeking_proc_def file_of_def AT_EMPTY_PATH_def)
  have g: "fst ?res \<noteq> 0" "fst ?call \<noteq> 0" "errno (snd ?call) = EXDEV"
    "AT_EMPTY_PATH AND AT_EMPTY_PATH \<noteq> 0"
    "file_of (kern (snd ?call)) 0 = Some 0"
    "lookup (kern (snd ?call)) AT_FDCWD ''c'' = None"
    by code_simp+
  have pc: "\<forall>n. transfers (kern (snd ?call)) n \<noteq> Upto 0"
    and nfc: "\<forall>n e. transfers (kern (snd ?call)) n \<noteq> Fail e"
    unfolding call snd_conv by (simp_all add: seeking_proc_def demo_kernel_def)
  have w0: "of_ino (ofiles (kern (snd ?call)) ! 0) = 0" by code_simp
  have w: "inodes (kern (snd ?call)) @
           [\<lparr>i_data = i_data (inodes (kern (snd ?call)) ! 0),
             i_mode = (i_mode (inodes (kern (snd ?call)) ! 0) AND 511)
                        AND NOT (umask (kern (snd ?call))),
             i_dev = device (kern (snd ?call)) (AT_FDCWD, ''c'')\<rparr>]
      = inodes demo_kernel @ [\<lparr>i_data = ''hello'', i_mode = 420, i_dev = 1\<rparr>]"
    by code_simp
  have w3: "ofiles (kern (snd ?call)) ! 0 = \<lparr>of_ino = 0, of_pos = 3\<rparr>"
    by code_simp
  have ob3: "returned ?r3 = Some (0, EXDEV)" by code_simp
  have h: "?res = (fst ?res, snd ?res)" "?call = (fst ?call, snd ?call)"
    "Some [] = (None :: cstr) \<or> Some [] = (Some [] :: cstr)"
    by simp_all
  from T [where sh = seeking_shim and f = "fst ?res" and ?p1.0 = "snd ?res"
      and olddirfd = 0 and oldpath = "Some []" and newdirfd = AT_FDCWD and new = "''c''"
      and flags = AT_EMPTY_PATH and result = "fst ?call" and s = "snd ?call" and jf = 0,
      THEN conjunct2, THEN conjunct2, THEN conjunct1, THEN mp,
      OF conjI [OF h(1) conjI [OF g(1) conjI [OF h(2) conjI [OF g(2) conjI [OF g(3)
        conjI [OF g(4) conjI [OF h(3) conjI [OF g(5) conjI [OF g(6) pc]]]]]]]]]] nfc
  obtain sh3 where run3: "?r3 = Returns (0, sh3)"
    and c1: "inodes (kern (proc sh3)) = inodes (kern (snd ?call)) @
                [\<lparr>i_data = i_data (inodes (kern (snd ?call)) ! of_ino (ofiles (kern (snd ?call)) ! 0)),
                  i_mode = (i_mode (inodes (kern (snd ?call)) ! of_ino (ofiles (kern (snd ?call)) ! 0)) AND 511)
                             AND NOT (umask (kern (snd ?call))),
                  i_dev = device (kern (snd ?call)) (AT_FDCWD, ''c'')\<rparr>]"
    and c2: "ofiles (kern (proc sh3)) ! 0 = ofiles (kern (snd ?call)) ! 0"
    and c3: "file_of (kern (proc sh3)) 0 = Some 0"
    by auto
  from c1 [unfolded w0, unfolded w] c2 [unfolded w3] c3 run3
  have 3: "inodes (kern (proc (state_after seeking_shim ?r3)))
      = inodes demo_kernel @ [\<lparr>i_data = ''hello'', i_mode = 420, i_dev = 1\<rparr>]"
    "ofiles (kern (proc (state_after seeking_shim ?r3))) ! 0 = \<lparr>of_ino = 0, of_pos = 3\<rparr>"
    "file_of (kern (proc (state_after seeking_shim ?r3))) 0 = Some 0"
    by (simp_all add: state_after_def)
  txt \<open>the calls of the copy from a descriptor\<close>
  let ?r4 = "fallback_copy_from_fd (traced posix) 0 AT_FDCWD (Some ''c'') (logged seeking_proc)"
  have ob4: "observed ?r4 = Some (0, 0)" by code_simp
  then obtain t4 where run4: "?r4 = Some (0, t4)" by (auto simp: observed_def)
  from T [where sys = posix and fd = 0 and nd = AT_FDCWD and newpath = "Some ''c''"
      and t = "logged seeking_proc" and q = 0 and t' = t4,
      THEN conjunct2, THEN conjunct2, THEN conjunct2, THEN mp, OF run4]
  have 4: "reads_through_duplicate 0 (run_events (logged seeking_proc) ?r4)"
    by (simp add: run_events_def run4)
  from v4 ob1 1 ob2 2 ob3 3 4 show ?thesis by (intro conjI)
qed

end
